(* ===== verification/HID_Prelude.thy ===== *)
theory HID_Prelude
  imports Main "HOL-Library.Word"
begin

text \<open>
  Shared vocabulary of the development: the machine integer types of the driver
  (\<open>uint8_t\<close>, \<open>uint16_t\<close>, \<open>uint32_t\<close>), the theorem collections the component
  theories fill, the one loop shape the driver uses on its fixed tables
  (\<open>for (i = 0; i < n; i++) a[i] = ...\<close>), and the facts on lists and words that
  the component proofs share.
\<close>

unbundle bit_operations_syntax

section \<open>Machine integers\<close>

type_synonym u8 = "8 word"
type_synonym u16 = "16 word"
type_synonym u32 = "32 word"

named_theorems hid_const \<open>values of the compile-time constants of the driver\<close>
named_theorems hid_shape \<open>operations keep the declared size of every table\<close>
named_theorems hid_frame \<open>fields an operation leaves unchanged\<close>

section \<open>Index loops over a fixed table\<close>

text \<open>
  \<open>for_upto n body s\<close> runs \<open>body 0\<close>, \<open>body 1\<close>, ..., \<open>body (n - 1)\<close> on \<open>s\<close>:
  a counting loop whose body neither changes the counter nor leaves early.
  A \<open>uint8_t\<close> counter below a \<open>uint8_t\<close> bound never wraps (it stops at the bound,
  which is at most 255), so the counter is a \<open>nat\<close>.
\<close>

definition for_upto :: "nat \<Rightarrow> (nat \<Rightarrow> 'a \<Rightarrow> 'a) \<Rightarrow> 'a \<Rightarrow> 'a" where
  "for_upto n body s = fold body [0..<n] s"

text \<open>
  \<open>update_each n g xs\<close> is the loop \<open>for (i = 0; i < n; i++) xs[i] = g i xs[i]\<close>.
  A write beyond the end of the list is dropped by \<open>list_update\<close>; the shape
  invariant of the tables says that the driver's loops never make one.
\<close>

definition update_each :: "nat \<Rightarrow> (nat \<Rightarrow> 'a \<Rightarrow> 'a) \<Rightarrow> 'a list \<Rightarrow> 'a list" where
  "update_each n g xs = for_upto n (\<lambda>i ys. ys[i := g i (ys ! i)]) xs"

text \<open>
  \<open>first_index P xs\<close>: the position of the first element of \<open>xs\<close> that satisfies
  \<open>P\<close>; what a search loop with an early return computes.
\<close>

fun first_index :: "('a \<Rightarrow> bool) \<Rightarrow> 'a list \<Rightarrow> nat option" where
  "first_index P [] = None"
| "first_index P (x # xs) = (if P x then Some 0 else map_option Suc (first_index P xs))"

text \<open>
  The counting loops of the driver keep their counter in a \<open>uint8_t\<close>.
  \<open>byte_loop body n i s\<close> is \<open>for (uint8_t j = i; j < n; j++)\<close> with the counter
  at its width: the body either continues with a new state (\<open>Inl\<close>) or leaves the
  loop with a result (\<open>Inr\<close>, for \<open>break\<close>, \<open>return\<close> and \<open>goto\<close>). It is
  defined without a termination argument, so that not returning would be the value
  \<open>None\<close>. \<open>nat_loop\<close> is the same loop counted in natural numbers, the form
  the component theories use.
\<close>

partial_function (option) byte_loop ::
  "(u8 \<Rightarrow> 's \<Rightarrow> 's + 'r) \<Rightarrow> u8 \<Rightarrow> u8 \<Rightarrow> 's \<Rightarrow> ('s + 'r) option" where
  "byte_loop body n i s =
     (if i < n then
        case body i s of
          Inl s' \<Rightarrow> byte_loop body n (i + 1) s'
        | Inr r \<Rightarrow> Some (Inr r)
      else Some (Inl s))"

function nat_loop :: "(u8 \<Rightarrow> 's \<Rightarrow> 's + 'r) \<Rightarrow> u8 \<Rightarrow> nat \<Rightarrow> 's \<Rightarrow> 's + 'r" where
  "nat_loop body n i s =
     (if i < unat n then
        case body (of_nat i) s of
          Inl s' \<Rightarrow> nat_loop body n (Suc i) s'
        | Inr r \<Rightarrow> Inr r
      else Inl s)"
  by pat_completeness auto

termination
  by (relation "measure (\<lambda>(body, n, i, s). unat n - i)") auto

declare nat_loop.simps [simp del]

lemma for_upto_0 [simp]: "for_upto 0 body s = s"
  by (simp add: for_upto_def)

lemma for_upto_Suc [simp]: "for_upto (Suc n) body s = body n (for_upto n body s)"
  by (simp add: for_upto_def)

lemma for_upto_invariant:
  assumes "P s" and "\<And>i t. i < n \<Longrightarrow> P t \<Longrightarrow> P (body i t)"
  shows "P (for_upto n body s)"
  using assms by (induction n) auto

lemma length_update_each [simp]: "length (update_each n g xs) = length xs"
  by (induction n) (simp_all add: update_each_def)

lemma nth_update_each:
  "i < length xs \<Longrightarrow> update_each n g xs ! i = (if i < n then g i (xs ! i) else xs ! i)"
proof (induction n)
  case 0
  then show ?case by (simp add: update_each_def)
next
  case (Suc n)
  have step: "update_each (Suc n) g xs
      = (update_each n g xs)[n := g n (update_each n g xs ! n)]"
    by (simp add: update_each_def)
  from Suc show ?case
    by (auto simp: step nth_list_update less_Suc_eq)
qed

lemma update_each_eq_map:
  "n \<le> length xs \<Longrightarrow>
   update_each n g xs = map (\<lambda>i. g i (xs ! i)) [0..<n] @ drop n xs"
  by (rule nth_equalityI) (auto simp: nth_update_each nth_append)

lemma update_each_const:
  "length xs = n \<Longrightarrow> update_each n (\<lambda>_ _. c) xs = replicate n c"
  by (rule nth_equalityI) (auto simp: nth_update_each)

lemma update_each_map:
  "length xs = n \<Longrightarrow> update_each n (\<lambda>_. f) xs = map f xs"
  by (rule nth_equalityI) (auto simp: nth_update_each)

lemma update_each_index:
  "length xs = n \<Longrightarrow> update_each n (\<lambda>i _. f i) xs = map f [0..<n]"
  by (rule nth_equalityI) (auto simp: nth_update_each)

lemma set_update_each_subset:
  "set (update_each n g xs) \<subseteq> set xs \<union> {g i (xs ! i) | i. i < n \<and> i < length xs}"
proof
  fix y assume "y \<in> set (update_each n g xs)"
  then obtain i where i: "i < length xs" and y: "y = update_each n g xs ! i"
    by (auto simp: in_set_conv_nth)
  then show "y \<in> set xs \<union> {g i (xs ! i) | i. i < n \<and> i < length xs}"
    by (cases "i < n") (auto simp: nth_update_each)
qed

section \<open>Lists\<close>

lemma list_all_update:
  "list_all P xs \<Longrightarrow> P v \<Longrightarrow> list_all P (xs[i := v])"
  by (auto simp: list_all_iff dest!: set_update_subset_insert [THEN subsetD])

lemma list_all_nth:
  "list_all P xs \<Longrightarrow> i < length xs \<Longrightarrow> P (xs ! i)"
  by (simp add: list_all_length)

lemma take_Suc_update:
  "n < length xs \<Longrightarrow> take (Suc n) (xs[n := v]) = take n xs @ [v]"
  by (simp add: take_Suc_conv_app_nth)

lemma take_update_beyond [simp]:
  "n \<le> i \<Longrightarrow> take n (xs[i := v]) = take n xs"
  by simp

lemma map_update_same:
  assumes "f v = f (xs ! k)"
  shows "map f (xs[k := v]) = map f xs"
proof (rule nth_equalityI)
  fix i assume "i < length (map f (xs[k := v]))"
  with assms show "map f (xs[k := v]) ! i = map f xs ! i"
    by (cases "i = k") simp_all
qed simp

lemma first_index_Some_iff:
  "first_index P xs = Some k \<longleftrightarrow> k < length xs \<and> P (xs ! k) \<and> (\<forall>j<k. \<not> P (xs ! j))"
proof (induction xs arbitrary: k)
  case Nil
  then show ?case by simp
next
  case (Cons x xs)
  show ?case
  proof (cases "P x")
    case True
    then show ?thesis by (cases k) auto
  next
    case False
    show ?thesis
    proof (cases k)
      case 0
      with False show ?thesis by simp
    next
      case (Suc k')
      with False Cons.IH [of k'] show ?thesis
        by (auto simp: less_Suc_eq_0_disj)
    qed
  qed
qed

lemma first_index_None_iff: "first_index P xs = None \<longleftrightarrow> (\<forall>x \<in> set xs. \<not> P x)"
  by (induction xs) auto

lemma first_index_map:
  "first_index P (map f xs) = first_index (\<lambda>x. P (f x)) xs"
  by (induction xs) simp_all

lemma first_index_append_new:
  "\<forall>x \<in> set xs. \<not> P x \<Longrightarrow> P y \<Longrightarrow> first_index P (xs @ [y]) = Some (length xs)"
  by (induction xs) simp_all

section \<open>Words\<close>

lemma unat_u8_less [simp]: "unat (x :: u8) < 256"
  using unsigned_less [of x, where ?'a = nat] by simp

lemma unat_Suc_of_less:
  fixes x n :: "'a::len word"
  assumes "x < n"
  shows "unat (x + 1) = Suc (unat x)"
proof -
  from assms have "unat x < unat n" by (simp add: word_less_nat_alt)
  moreover have "unat n < 2 ^ LENGTH('a)" by (rule unsigned_less)
  ultimately have "unat x + 1 < 2 ^ LENGTH('a)" by linarith
  then show ?thesis by (simp add: unat_word_ariths)
qed

lemma word_not_le_iff_unat:
  fixes x n :: "'a::len word"
  shows "\<not> n \<le> x \<longleftrightarrow> unat x < unat n"
  by (simp add: word_le_nat_alt not_le)

lemma word_succ_le_of_less:
  fixes x n :: "'a::len word"
  assumes "x < n"
  shows "x + 1 \<le> n" and "x < x + 1"
proof -
  from assms have lt: "unat x < unat n" by (simp add: word_less_nat_alt)
  have eq: "unat (x + 1) = Suc (unat x)" using assms by (rule unat_Suc_of_less)
  from lt eq show "x + 1 \<le> n" by (simp add: word_le_nat_alt)
  from eq show "x < x + 1" by (simp add: word_less_nat_alt)
qed

lemma unat_and_mask_le:
  fixes x m :: "'a::len word"
  shows "unat (x AND m) \<le> unat m"
  by (rule word_and_le1 [THEN word_le_nat_alt [THEN iffD1]])

section \<open>Folds over index ranges\<close>

lemma fold_nth_take:
  "n \<le> length xs \<Longrightarrow> fold (\<lambda>i. g (xs ! i)) [0..<n] st = fold g (take n xs) st"
proof (induction n arbitrary: st)
  case 0
  then show ?case by simp
next
  case (Suc n)
  then show ?case by (simp add: take_Suc_conv_app_nth)
qed

lemma fold_filter_skip:
  assumes "\<And>x st. \<not> P x \<Longrightarrow> f x st = st"
  shows "fold f (filter P xs) st = fold f xs st"
  using assms by (induction xs arbitrary: st) auto

section \<open>Pairs\<close>

lemma pair_cases2:
  obtains a b where "p = (a, b)"
  by (cases p) auto

section \<open>A byte counter below a byte bound never wraps\<close>

lemma byte_loop_nat_loop:
  "byte_loop body n i s = Some (nat_loop body n (unat i) s)"
proof (induction "unat n - unat i" arbitrary: i s)
  case 0
  then have "\<not> i < n" by (simp add: word_less_nat_alt)
  then show ?case
    by (subst byte_loop.simps, subst nat_loop.simps) (simp add: word_less_nat_alt)
next
  case (Suc k)
  then have lt: "i < n" by (simp add: word_less_nat_alt)
  then have u: "unat (i + 1) = Suc (unat i)" by (rule unat_Suc_of_less)
  with Suc.hyps have k: "k = unat n - unat (i + 1)" by simp
  show ?case
    by (subst byte_loop.simps, subst nat_loop.simps)
       (use lt in \<open>simp add: word_less_nat_alt Suc.hyps(1) [OF k] u split: sum.splits\<close>)
qed

end
