(* ===== verification/HID_Tables.thy ===== *)
theory HID_Tables
  imports HID_Prelude
begin

text \<open>
  The capacity tables of \<open>HIDComposite\<close> (\<open>src/hidcomposite.cpp\<close>): the compile-time
  constants the source names, the element types of the four fixed tables, the object
  state as one record, the constructor and \<open>Initialize\<close> (lines 20-70), and the
  class-descriptor length lookup \<open>GetHidClassDescrLen\<close> (lines 32-41).

  The constants and the field lists are declared in headers that are not part of
  \<open>src/\<close>; their values here are those of the USB Host Shield library
  (\<open>usbhid.h\<close>, \<open>UsbCore.h\<close>, \<open>max3421e.h\<close>, \<open>usb_ch9.h\<close>). The lemmas of the
  development use them through the facts collected under \<open>Facts about the constants\<close>
  only, and the witnesses evaluate them.

  An array is a list; a table of the object has the declared length in every state
  the operations can reach from a well-shaped one (\<open>shape\<close>), so that each
  \<open>xs ! i\<close> and \<open>xs[i := v]\<close> of the model is the in-range access of the code.
\<close>

section \<open>Constants\<close>

definition MAX_REPORT_PARSERS :: u8 where
  [hid_const]: "MAX_REPORT_PARSERS = 2"

definition HID_MAX_HID_CLASS_DESCRIPTORS :: u8 where
  [hid_const]: "HID_MAX_HID_CLASS_DESCRIPTORS = 5"

definition maxHidInterfaces :: u8 where
  [hid_const]: "maxHidInterfaces = 3"

definition maxEpPerInterface :: u8 where
  [hid_const]: "maxEpPerInterface = 2"

definition totalEndpoints :: u8 where
  [hid_const]: "totalEndpoints = maxHidInterfaces * maxEpPerInterface + 1"

definition epInterruptInIndex :: u8 where
  [hid_const]: "epInterruptInIndex = 1"

definition epInterruptOutIndex :: u8 where
  [hid_const]: "epInterruptOutIndex = 2"

definition constBuffLen :: u16 where
  [hid_const]: "constBuffLen = 64"

definition USB_NAK_MAX_POWER :: u8 where
  [hid_const]: "USB_NAK_MAX_POWER = 15"

definition USB_NAK_NOWAIT :: u8 where
  [hid_const]: "USB_NAK_NOWAIT = 1"

definition bmUSB_TRANSFER_TYPE :: u8 where
  [hid_const]: "bmUSB_TRANSFER_TYPE = 0x03"

definition USB_TRANSFER_TYPE_INTERRUPT :: u8 where
  [hid_const]: "USB_TRANSFER_TYPE_INTERRUPT = 0x03"

definition hrNAK :: u8 where
  [hid_const]: "hrNAK = 0x04"

definition hrSTALL :: u8 where
  [hid_const]: "hrSTALL = 0x05"

definition USB_DEV_CONFIG_ERROR_DEVICE_NOT_SUPPORTED :: u8 where
  [hid_const]: "USB_DEV_CONFIG_ERROR_DEVICE_NOT_SUPPORTED = 0xD1"

definition USB_ERROR_OUT_OF_ADDRESS_SPACE_IN_POOL :: u8 where
  [hid_const]: "USB_ERROR_OUT_OF_ADDRESS_SPACE_IN_POOL = 0xD4"

definition USB_ERROR_ADDRESS_NOT_FOUND_IN_POOL :: u8 where
  [hid_const]: "USB_ERROR_ADDRESS_NOT_FOUND_IN_POOL = 0xD6"

definition USB_ERROR_EPINFO_IS_NULL :: u8 where
  [hid_const]: "USB_ERROR_EPINFO_IS_NULL = 0xD7"

definition USB_ERROR_CLASS_INSTANCE_ALREADY_IN_USE :: u8 where
  [hid_const]: "USB_ERROR_CLASS_INSTANCE_ALREADY_IN_USE = 0xD9"

section \<open>Table elements\<close>

text \<open>
  \<open>EpInfo\<close>: one endpoint record, with the five fields that lines 60-64 and
  338-342 write. \<open>HIDInterface\<close>: one interface, its key fields and the role array
  \<open>epIndex\<close> (role \<open>\<rightarrow>\<close> slot of \<open>epInfo\<close>, 0 for unbound). \<open>ReportParser\<close>: one
  binding of the registry; the parser is a reference of any type \<open>'p\<close>, \<open>None\<close> for
  the null pointer. The key fields of \<open>HIDInterface\<close> are kept as whole bytes, the
  width of the arguments assigned to them.
\<close>

record EpInfo =
  epAddr :: u8
  maxPktSize :: u8
  bmSndToggle :: u8
  bmRcvToggle :: u8
  bmNakPower :: u8

record HIDInterface =
  bmInterface :: u8
  bmAltSet :: u8
  bmProtocol :: u8
  epIndex :: "u8 list"

record 'p ReportParser =
  rptId :: u8
  rptParser :: "'p option"

record HID_CLASS_DESCRIPTOR_LEN_AND_TYPE =
  bDescrType :: u8
  wDescriptorLength :: u16

section \<open>The object\<close>

text \<open>
  The data members of a \<open>HIDComposite\<close> object that the source reads or writes.
  \<open>bAddress\<close> is inherited from \<open>USBHID\<close>; \<open>VID\<close> and \<open>PID\<close> are captured by
  \<open>Init\<close>.
\<close>

record 'p HIDComposite =
  bAddress :: u8
  rptParsers :: "'p ReportParser list"
  descrInfo :: "HID_CLASS_DESCRIPTOR_LEN_AND_TYPE list"
  epInfo :: "EpInfo list"
  hidInterfaces :: "HIDInterface list"
  bConfNum :: u8
  bNumIface :: u8
  bNumEP :: u8
  qNextPollTime :: u32
  pollInterval :: u8
  bPollEnable :: bool
  bHasReportId :: bool
  VID :: u16
  PID :: u16

text \<open>
  \<open>shape s\<close>: every table has its declared number of elements, and every role array
  has room for both roles (\<open>epInterruptInIndex\<close>, \<open>epInterruptOutIndex\<close>).
  This is what the declaration of the class gives; no operation changes it.
\<close>

definition epIndex_ok :: "HIDInterface \<Rightarrow> bool" where
  "epIndex_ok h \<longleftrightarrow> unat epInterruptOutIndex < length (epIndex h)"

definition shape :: "'p HIDComposite \<Rightarrow> bool" where
  "shape s \<longleftrightarrow>
     length (rptParsers s) = unat MAX_REPORT_PARSERS \<and>
     length (descrInfo s) = unat HID_MAX_HID_CLASS_DESCRIPTORS \<and>
     length (hidInterfaces s) = unat maxHidInterfaces \<and>
     length (epInfo s) = unat totalEndpoints \<and>
     list_all epIndex_ok (hidInterfaces s)"

section \<open>Initialize and the constructor\<close>

text \<open>
  The four clearing loops of \<open>Initialize\<close> (lines 44-65), one definition each, and
  the body of an iteration where it is more than a constant. The interface loop
  clears \<open>bmInterface\<close>, \<open>bmProtocol\<close> and the first \<open>maxEpPerInterface\<close> roles;
  it does not write \<open>bmAltSet\<close>.
\<close>

definition empty_parser :: "'p ReportParser" where
  "empty_parser = \<lparr>rptId = 0, rptParser = None\<rparr>"

definition clear_descr :: HID_CLASS_DESCRIPTOR_LEN_AND_TYPE where
  "clear_descr = \<lparr>bDescrType = 0, wDescriptorLength = 0\<rparr>"

definition clear_interface :: "HIDInterface \<Rightarrow> HIDInterface" where
  "clear_interface h =
     h\<lparr>bmInterface := 0, bmProtocol := 0,
       epIndex := update_each (unat maxEpPerInterface) (\<lambda>_ _. 0) (epIndex h)\<rparr>"

definition clear_endpoint :: "nat \<Rightarrow> EpInfo" where
  "clear_endpoint i =
     \<lparr>epAddr = 0,
      maxPktSize = (if i \<noteq> 0 then 0 else 8),
      bmSndToggle = 0,
      bmRcvToggle = 0,
      bmNakPower = (if i \<noteq> 0 then USB_NAK_NOWAIT else USB_NAK_MAX_POWER)\<rparr>"

definition Initialize :: "'p HIDComposite \<Rightarrow> 'p HIDComposite" where
  "Initialize s =
     s\<lparr>rptParsers :=
         update_each (unat MAX_REPORT_PARSERS) (\<lambda>_ _. empty_parser) (rptParsers s),
       descrInfo :=
         update_each (unat HID_MAX_HID_CLASS_DESCRIPTORS) (\<lambda>_ _. clear_descr) (descrInfo s),
       hidInterfaces :=
         update_each (unat maxHidInterfaces) (\<lambda>_. clear_interface) (hidInterfaces s),
       epInfo :=
         update_each (unat totalEndpoints) (\<lambda>i _. clear_endpoint i) (epInfo s),
       bNumEP := 1,
       bNumIface := 0,
       bConfNum := 0,
       pollInterval := 0\<rparr>"

text \<open>
  The constructor (lines 20-30) runs on the storage of the new object, whatever it
  holds: it sets four members and calls \<open>Initialize\<close>. The members it does not
  write (\<open>bAddress\<close> among them) keep the value the storage had. Registering the
  object with the transport is the transport's business and not modelled.
\<close>

definition HIDComposite_ctor :: "'p HIDComposite \<Rightarrow> 'p HIDComposite" where
  "HIDComposite_ctor raw =
     Initialize (raw\<lparr>qNextPollTime := 0, pollInterval := 0,
                     bPollEnable := False, bHasReportId := False\<rparr>)"

section \<open>GetHidClassDescrLen\<close>

text \<open>
  The loop of lines 33-39 with its two counters: \<open>i\<close> over the table and \<open>n\<close> over
  the entries of the wanted type seen so far. \<open>n\<close> is a \<open>uint8_t\<close> and is kept at
  that width.
\<close>

function GetHidClassDescrLen_loop ::
  "HID_CLASS_DESCRIPTOR_LEN_AND_TYPE list \<Rightarrow> u8 \<Rightarrow> u8 \<Rightarrow> nat \<Rightarrow> u8 \<Rightarrow> u16" where
  "GetHidClassDescrLen_loop tbl type num i n =
     (if i < unat HID_MAX_HID_CLASS_DESCRIPTORS then
        (if bDescrType (tbl ! i) = type then
           (if n = num then wDescriptorLength (tbl ! i)
            else GetHidClassDescrLen_loop tbl type num (Suc i) (n + 1))
         else GetHidClassDescrLen_loop tbl type num (Suc i) n)
      else 0)"
  by pat_completeness auto
termination
  by (relation "measure (\<lambda>(tbl, type, num, i, n). unat HID_MAX_HID_CLASS_DESCRIPTORS - i)") auto

declare GetHidClassDescrLen_loop.simps [simp del]

definition GetHidClassDescrLen :: "'p HIDComposite \<Rightarrow> u8 \<Rightarrow> u8 \<Rightarrow> u16" where
  "GetHidClassDescrLen s type num = GetHidClassDescrLen_loop (descrInfo s) type num 0 0"

text \<open>
  What the lookup promises: the length of entry number \<open>num\<close> (from 0) among the
  entries of the given type, in table order; 0 if there are not that many.
\<close>

definition descr_len_spec ::
  "HID_CLASS_DESCRIPTOR_LEN_AND_TYPE list \<Rightarrow> u8 \<Rightarrow> nat \<Rightarrow> u16" where
  "descr_len_spec tbl type k =
     (case drop k (filter (\<lambda>d. bDescrType d = type) tbl) of
        [] \<Rightarrow> 0
      | d # _ \<Rightarrow> wDescriptorLength d)"

section \<open>A zero-filled object\<close>

text \<open>
  Storage of the right shape with every byte zero, as a statically allocated object
  has before its constructor runs. The witnesses start from it.
\<close>

definition zero_interface :: HIDInterface where
  "zero_interface = \<lparr>bmInterface = 0, bmAltSet = 0, bmProtocol = 0, epIndex = [0, 0, 0]\<rparr>"

definition zero_endpoint :: EpInfo where
  "zero_endpoint =
     \<lparr>epAddr = 0, maxPktSize = 0, bmSndToggle = 0, bmRcvToggle = 0, bmNakPower = 0\<rparr>"

definition zero_obj :: "'p HIDComposite" where
  "zero_obj =
     \<lparr>bAddress = 0,
      rptParsers = replicate 2 empty_parser,
      descrInfo = replicate 5 clear_descr,
      epInfo = replicate 7 zero_endpoint,
      hidInterfaces = replicate 3 zero_interface,
      bConfNum = 0, bNumIface = 0, bNumEP = 0, qNextPollTime = 0, pollInterval = 0,
      bPollEnable = False, bHasReportId = False, VID = 0, PID = 0\<rparr>"

text \<open>The object right after construction on zero-filled storage.\<close>

definition fresh_obj :: "nat HIDComposite" where
  "fresh_obj = HIDComposite_ctor zero_obj"

section \<open>Facts about the constants\<close>

lemma totalEndpoints_eq [hid_const]: "totalEndpoints = 7"
  by (simp add: totalEndpoints_def maxHidInterfaces_def maxEpPerInterface_def)

lemma unat_capacities [simp]:
  "unat MAX_REPORT_PARSERS = 2"
  "unat HID_MAX_HID_CLASS_DESCRIPTORS = 5"
  "unat maxHidInterfaces = 3"
  "unat maxEpPerInterface = 2"
  "unat totalEndpoints = 7"
  "unat epInterruptInIndex = 1"
  "unat epInterruptOutIndex = 2"
  by (simp_all add: hid_const)

lemma capacities_pos:
  "0 < maxHidInterfaces" "1 < totalEndpoints" "0 < MAX_REPORT_PARSERS"
  by (simp_all add: hid_const)

lemma roles_distinct:
  "epInterruptInIndex \<noteq> 0" "epInterruptOutIndex \<noteq> 0"
  "epInterruptInIndex \<noteq> epInterruptOutIndex"
  by (simp_all add: hid_const)

lemma error_codes_nonzero:
  "USB_DEV_CONFIG_ERROR_DEVICE_NOT_SUPPORTED \<noteq> 0"
  "USB_ERROR_OUT_OF_ADDRESS_SPACE_IN_POOL \<noteq> 0"
  "USB_ERROR_ADDRESS_NOT_FOUND_IN_POOL \<noteq> 0"
  "USB_ERROR_EPINFO_IS_NULL \<noteq> 0"
  "USB_ERROR_CLASS_INSTANCE_ALREADY_IN_USE \<noteq> 0"
  "hrNAK \<noteq> 0" "hrSTALL \<noteq> 0" "hrNAK \<noteq> hrSTALL"
  by (simp_all add: hid_const)

section \<open>Shape\<close>

lemma epIndex_ok_clear_interface [simp]:
  "epIndex_ok (clear_interface h) = epIndex_ok h"
  by (simp add: epIndex_ok_def clear_interface_def)

lemma shapeD:
  assumes "shape s"
  shows "length (rptParsers s) = 2" "length (descrInfo s) = 5"
    "length (hidInterfaces s) = 3" "length (epInfo s) = 7"
    "i < 3 \<Longrightarrow> 2 < length (epIndex (hidInterfaces s ! i))"
  using assms by (auto simp: shape_def list_all_length epIndex_ok_def)

lemma shape_fields:
  assumes "shape s"
    and "length (rptParsers t) = length (rptParsers s)"
    and "length (descrInfo t) = length (descrInfo s)"
    and "length (epInfo t) = length (epInfo s)"
    and "length (hidInterfaces t) = length (hidInterfaces s)"
    and "list_all epIndex_ok (hidInterfaces t)"
  shows "shape t"
  using assms by (simp add: shape_def)

lemma list_all_epIndex_ok_clear:
  "list_all epIndex_ok hs \<Longrightarrow>
   list_all epIndex_ok (update_each n (\<lambda>_. clear_interface) hs)"
  by (auto simp: list_all_length nth_update_each)

lemma Initialize_shape [hid_shape]: "shape s \<Longrightarrow> shape (Initialize s)"
  by (rule shape_fields [where s = s])
     (auto simp: Initialize_def shape_def list_all_epIndex_ok_clear)

lemma HIDComposite_ctor_shape [hid_shape]: "shape raw \<Longrightarrow> shape (HIDComposite_ctor raw)"
  unfolding HIDComposite_ctor_def
  by (rule Initialize_shape) (simp add: shape_def)

lemma shape_zero_obj [simp]: "shape zero_obj"
  by (simp add: shape_def zero_obj_def epIndex_ok_def zero_interface_def list_all_iff)

lemma shape_fresh_obj [simp]: "shape fresh_obj"
  by (simp add: fresh_obj_def HIDComposite_ctor_shape)

section \<open>What Initialize leaves behind\<close>

lemma Initialize_tables:
  assumes "shape s"
  shows "rptParsers (Initialize s) = replicate 2 empty_parser"
    and "descrInfo (Initialize s) = replicate 5 clear_descr"
    and "epInfo (Initialize s) = map clear_endpoint [0..<7]"
    and "hidInterfaces (Initialize s) = map clear_interface (hidInterfaces s)"
  using assms
  by (simp_all add: Initialize_def shape_def update_each_const update_each_index
      update_each_map)

lemma Initialize_scalars [simp]:
  "bNumEP (Initialize s) = 1" "bNumIface (Initialize s) = 0"
  "bConfNum (Initialize s) = 0" "pollInterval (Initialize s) = 0"
  "bAddress (Initialize s) = bAddress s" "bPollEnable (Initialize s) = bPollEnable s"
  "bHasReportId (Initialize s) = bHasReportId s"
  "qNextPollTime (Initialize s) = qNextPollTime s"
  by (simp_all add: Initialize_def)

lemma fresh_obj_fields [simp]:
  "rptParsers fresh_obj = [empty_parser, empty_parser]"
  "epInfo fresh_obj = map clear_endpoint [0..<7]"
  "hidInterfaces fresh_obj = [zero_interface, zero_interface, zero_interface]"
  "bNumEP fresh_obj = 1" "bNumIface fresh_obj = 0" "bConfNum fresh_obj = 0"
  "pollInterval fresh_obj = 0" "bAddress fresh_obj = 0" "bPollEnable fresh_obj = False"
  "bHasReportId fresh_obj = False" "qNextPollTime fresh_obj = 0"
proof -
  have sh: "shape (zero_obj\<lparr>qNextPollTime := 0, pollInterval := 0,
      bPollEnable := False, bHasReportId := False\<rparr> :: nat HIDComposite)"
    using shape_zero_obj [where ?'a = nat] by (simp add: shape_def)
  have ci: "clear_interface zero_interface = zero_interface"
    by (simp add: clear_interface_def zero_interface_def update_each_def numeral_2_eq_2)
  show "rptParsers fresh_obj = [empty_parser, empty_parser]"
    "epInfo fresh_obj = map clear_endpoint [0..<7]"
    "hidInterfaces fresh_obj = [zero_interface, zero_interface, zero_interface]"
    unfolding fresh_obj_def HIDComposite_ctor_def Initialize_tables [OF sh]
    by (simp_all add: numeral_2_eq_2 numeral_3_eq_3 zero_obj_def ci)
  show "bNumEP fresh_obj = 1" "bNumIface fresh_obj = 0" "bConfNum fresh_obj = 0"
    "pollInterval fresh_obj = 0" "bAddress fresh_obj = 0" "bPollEnable fresh_obj = False"
    "bHasReportId fresh_obj = False" "qNextPollTime fresh_obj = 0"
    by (simp_all add: fresh_obj_def HIDComposite_ctor_def zero_obj_def)
qed

text \<open>
  C38. On an object of the declared shape, \<open>Initialize\<close> empties the parser
  registry and the class-descriptor table, resets every endpoint record (slot 0 to
  the control endpoint with an 8-byte packet and maximal NAK power, the others to
  no-wait) and sets the counters to one endpoint, no interface, configuration 0 and
  poll interval 0.
\<close>

theorem Initialize_clears:
  assumes "shape s"
  shows "rptParsers (Initialize s) = replicate 2 empty_parser \<and>
         descrInfo (Initialize s) = replicate 5 clear_descr \<and>
         epInfo (Initialize s) = map clear_endpoint [0..<7] \<and>
         bNumEP (Initialize s) = 1 \<and> bNumIface (Initialize s) = 0 \<and>
         bConfNum (Initialize s) = 0 \<and> pollInterval (Initialize s) = 0"
  using Initialize_tables [OF assms] by simp

theorem Initialize_clears_witness:
  "epInfo (Initialize (zero_obj :: nat HIDComposite)) ! 0
     = \<lparr>epAddr = 0, maxPktSize = 8, bmSndToggle = 0, bmRcvToggle = 0, bmNakPower = 15\<rparr>
   \<and> bNumEP (Initialize (zero_obj :: nat HIDComposite)) = 1"
  using Initialize_clears [OF shape_zero_obj, where ?'a = nat]
  by (simp add: clear_endpoint_def hid_const)

text \<open>
  C40. \<open>Initialize\<close> does not clear every byte of the interface table: the
  alternate setting of each entry and the role slot of the interrupt-OUT endpoint
  (index \<open>epInterruptOutIndex = maxEpPerInterface\<close>, one past the roles the loop
  of line 56 clears) keep the value they had before the call.
\<close>

theorem Initialize_keeps_bmAltSet:
  assumes "shape s" and "i < unat maxHidInterfaces"
  shows "bmAltSet (hidInterfaces (Initialize s) ! i) = bmAltSet (hidInterfaces s ! i) \<and>
         epIndex (hidInterfaces (Initialize s) ! i) ! unat epInterruptOutIndex
           = epIndex (hidInterfaces s ! i) ! unat epInterruptOutIndex"
  using assms shapeD [OF assms(1)]
  by (simp add: Initialize_tables clear_interface_def nth_update_each)

theorem Initialize_keeps_bmAltSet_witness:
  "shape (zero_obj\<lparr>hidInterfaces := replicate 3 (zero_interface\<lparr>bmAltSet := 5, epIndex := [0, 0, 4]\<rparr>)\<rparr>
          :: nat HIDComposite) \<and>
   bmAltSet (hidInterfaces (Initialize
      (zero_obj\<lparr>hidInterfaces := replicate 3 (zero_interface\<lparr>bmAltSet := 5, epIndex := [0, 0, 4]\<rparr>)\<rparr>
          :: nat HIDComposite)) ! 1) = 5 \<and>
   epIndex (hidInterfaces (Initialize
      (zero_obj\<lparr>hidInterfaces := replicate 3 (zero_interface\<lparr>bmAltSet := 5, epIndex := [0, 0, 4]\<rparr>)\<rparr>
          :: nat HIDComposite)) ! 1) ! 2 = 4"
proof -
  let ?s = "zero_obj\<lparr>hidInterfaces :=
      replicate 3 (zero_interface\<lparr>bmAltSet := 5, epIndex := [0, 0, 4]\<rparr>)\<rparr> :: nat HIDComposite"
  have sh: "shape ?s"
    by (simp add: shape_def zero_obj_def epIndex_ok_def zero_interface_def list_all_iff)
  from Initialize_keeps_bmAltSet [OF sh, of 1] sh show ?thesis
    by (simp add: zero_obj_def zero_interface_def)
qed

section \<open>The descriptor length lookup meets its specification\<close>

lemma GetHidClassDescrLen_loop_spec:
  "length tbl = unat HID_MAX_HID_CLASS_DESCRIPTORS \<Longrightarrow> n \<le> num \<Longrightarrow>
   GetHidClassDescrLen_loop tbl type num i n
     = descr_len_spec (drop i tbl) type (unat num - unat n)"
proof (induction tbl type num i n rule: GetHidClassDescrLen_loop.induct)
  case (1 tbl type num i n)
  show ?case
  proof (cases "i < unat HID_MAX_HID_CLASS_DESCRIPTORS")
    case False
    with "1.prems" show ?thesis
      by (subst GetHidClassDescrLen_loop.simps) (simp add: descr_len_spec_def)
  next
    case True
    with "1.prems" have dr: "drop i tbl = tbl ! i # drop (Suc i) tbl"
      by (simp add: Cons_nth_drop_Suc)
    show ?thesis
    proof (cases "bDescrType (tbl ! i) = type")
      case False
      with True "1.IH"(2) "1.prems" show ?thesis
        by (subst GetHidClassDescrLen_loop.simps) (simp add: descr_len_spec_def dr)
    next
      case match: True
      show ?thesis
      proof (cases "n = num")
        case True
        with match \<open>i < _\<close> show ?thesis
          by (subst GetHidClassDescrLen_loop.simps) (simp add: descr_len_spec_def dr)
      next
        case False
        with "1.prems" have lt: "n < num" by simp
        then have le: "n + 1 \<le> num" and un: "unat (n + 1) = Suc (unat n)"
          by (simp_all add: word_succ_le_of_less unat_Suc_of_less)
        from lt have "unat num - unat n = Suc (unat num - unat (n + 1))"
          by (simp add: un word_less_nat_alt)
        with "1.IH"(1) [OF True match False "1.prems"(1) le] True match False
        show ?thesis
          by (subst GetHidClassDescrLen_loop.simps) (simp add: descr_len_spec_def dr)
      qed
    qed
  qed
qed

text \<open>
  C39. \<open>GetHidClassDescrLen type num\<close> returns the length recorded in the
  \<open>num\<close>-th entry (counting from 0) of the given descriptor type, in table order,
  and 0 when the table holds fewer entries of that type.
\<close>

theorem GetHidClassDescrLen_correct:
  assumes "shape s"
  shows "GetHidClassDescrLen s type num = descr_len_spec (descrInfo s) type (unat num)"
  using assms
  by (simp add: GetHidClassDescrLen_def GetHidClassDescrLen_loop_spec shape_def)

theorem GetHidClassDescrLen_correct_witness:
  "GetHidClassDescrLen
     ((zero_obj :: nat HIDComposite)\<lparr>descrInfo :=
        [\<lparr>bDescrType = 0x22, wDescriptorLength = 63\<rparr>,
         \<lparr>bDescrType = 0x23, wDescriptorLength = 9\<rparr>,
         \<lparr>bDescrType = 0x22, wDescriptorLength = 120\<rparr>,
         clear_descr, clear_descr]\<rparr>) 0x22 1 = 120"
proof -
  let ?s = "(zero_obj :: nat HIDComposite)\<lparr>descrInfo :=
        [\<lparr>bDescrType = 0x22, wDescriptorLength = 63\<rparr>,
         \<lparr>bDescrType = 0x23, wDescriptorLength = 9\<rparr>,
         \<lparr>bDescrType = 0x22, wDescriptorLength = 120\<rparr>,
         clear_descr, clear_descr]\<rparr>"
  have "shape ?s"
    by (simp add: shape_def zero_obj_def epIndex_ok_def zero_interface_def list_all_iff)
  from GetHidClassDescrLen_correct [OF this, of "0x22" 1] show ?thesis
    by (simp add: descr_len_spec_def zero_obj_def clear_descr_def)
qed

end
