(* ===== verification/HID_Registry.thy ===== *)
theory HID_Registry
  imports HID_Tables
begin

text \<open>
  The report parser registry: \<open>SetReportParser\<close> (lines 72-81) and
  \<open>GetReportParser\<close> (lines 83-92) over the table \<open>rptParsers\<close>, each with its loop
  as a recursive function over the slot index, and what the registry promises to its
  callers: the bindings are the occupied slots in registration order
  (\<open>bindings\<close>), registration appends while there is room and never overwrites,
  and resolution returns the first binding of the identifier, or the parser of
  slot 0 whatever the identifier when the device does not frame its reports with
  identifiers.
\<close>

section \<open>Operations\<close>

text \<open>The test of line 74: a slot is free when its identifier is 0 and its parser null.\<close>

definition slot_empty :: "'p ReportParser \<Rightarrow> bool" where
  "slot_empty b \<longleftrightarrow> rptId b = 0 \<and> rptParser b = None"

function SetReportParser_loop ::
  "'p ReportParser list \<Rightarrow> u8 \<Rightarrow> 'p option \<Rightarrow> nat \<Rightarrow> 'p ReportParser list \<times> bool" where
  "SetReportParser_loop ps rid prs i =
     (if i < unat MAX_REPORT_PARSERS then
        (if slot_empty (ps ! i)
         then (ps[i := (ps ! i)\<lparr>rptId := rid, rptParser := prs\<rparr>], True)
         else SetReportParser_loop ps rid prs (Suc i))
      else (ps, False))"
  by pat_completeness auto
termination
  by (relation "measure (\<lambda>(ps, rid, prs, i). unat MAX_REPORT_PARSERS - i)") auto

declare SetReportParser_loop.simps [simp del]

definition SetReportParser ::
  "'p HIDComposite \<Rightarrow> u8 \<Rightarrow> 'p option \<Rightarrow> 'p HIDComposite \<times> bool" where
  "SetReportParser s rid prs =
     (case SetReportParser_loop (rptParsers s) rid prs 0 of
        (ps, ok) \<Rightarrow> (s\<lparr>rptParsers := ps\<rparr>, ok))"

function GetReportParser_loop :: "'p ReportParser list \<Rightarrow> u8 \<Rightarrow> nat \<Rightarrow> 'p option" where
  "GetReportParser_loop ps rid i =
     (if i < unat MAX_REPORT_PARSERS then
        (if rptId (ps ! i) = rid then rptParser (ps ! i)
         else GetReportParser_loop ps rid (Suc i))
      else None)"
  by pat_completeness auto
termination
  by (relation "measure (\<lambda>(ps, rid, i). unat MAX_REPORT_PARSERS - i)") auto

declare GetReportParser_loop.simps [simp del]

definition GetReportParser :: "'p HIDComposite \<Rightarrow> u8 \<Rightarrow> 'p option" where
  "GetReportParser s rid =
     (if \<not> bHasReportId s then rptParser (rptParsers s ! 0)
      else GetReportParser_loop (rptParsers s) rid 0)"

section \<open>The registry as a list of bindings\<close>

text \<open>
  \<open>bindings ps\<close>: the occupied slots before the first free one. \<open>registry_inv\<close>:
  every slot after the first free one is free as well, so that \<open>bindings\<close> are all
  the occupied slots. It holds after \<open>Initialize\<close> and registration keeps it.
\<close>

definition bindings :: "'p ReportParser list \<Rightarrow> 'p ReportParser list" where
  "bindings ps = takeWhile (\<lambda>b. \<not> slot_empty b) ps"

definition registry_inv :: "'p ReportParser list \<Rightarrow> bool" where
  "registry_inv ps \<longleftrightarrow>
     length ps = unat MAX_REPORT_PARSERS \<and>
     list_all slot_empty (drop (length (bindings ps)) ps)"

text \<open>Registration and resolution on the list of bindings.\<close>

definition register_spec ::
  "'p ReportParser list \<Rightarrow> u8 \<Rightarrow> 'p option \<Rightarrow> 'p ReportParser list \<times> bool" where
  "register_spec bs rid prs =
     (if length bs < unat MAX_REPORT_PARSERS
      then (if rid = 0 \<and> prs = None then bs else bs @ [\<lparr>rptId = rid, rptParser = prs\<rparr>], True)
      else (bs, False))"

definition resolve_spec :: "'p ReportParser list \<Rightarrow> u8 \<Rightarrow> 'p option" where
  "resolve_spec ps rid =
     (case find (\<lambda>b. rptId b = rid) ps of None \<Rightarrow> None | Some b \<Rightarrow> rptParser b)"

section \<open>A registry with two bindings\<close>

text \<open>
  The witnesses register parser 10 for identifier 1 and parser 20 for identifier 2 on
  a fresh object of a device that frames its reports with identifiers.
\<close>

definition reg0 :: "nat HIDComposite" where
  "reg0 = fresh_obj\<lparr>bHasReportId := True\<rparr>"

definition reg1 :: "nat HIDComposite" where
  "reg1 = fst (SetReportParser reg0 1 (Some 10))"

definition reg2 :: "nat HIDComposite" where
  "reg2 = fst (SetReportParser reg1 2 (Some 20))"

section \<open>Basic facts\<close>

lemma slot_empty_empty_parser [simp]: "slot_empty empty_parser"
  by (simp add: slot_empty_def empty_parser_def)

lemma slot_empty_iff: "slot_empty b \<longleftrightarrow> b = empty_parser"
  by (cases b) (auto simp: slot_empty_def empty_parser_def)

lemma slot_empty_make [simp]:
  "slot_empty \<lparr>rptId = r, rptParser = p\<rparr> \<longleftrightarrow> r = 0 \<and> p = None"
  by (simp add: slot_empty_def)

lemma bindings_simps [simp]:
  "bindings [] = []"
  "bindings (b # bs) = (if slot_empty b then [] else b # bindings bs)"
  by (simp_all add: bindings_def)

lemma bindings_replicate_empty [simp]: "bindings (replicate n empty_parser) = []"
  by (cases n) (simp_all add: bindings_def)

lemma length_bindings_le: "length (bindings ps) \<le> length ps"
  by (simp add: bindings_def length_takeWhile_le)

lemma bindings_occupied: "b \<in> set (bindings ps) \<Longrightarrow> \<not> slot_empty b"
  by (auto simp: bindings_def dest: set_takeWhileD)

lemma bindings_prefix: "bindings ps = take (length (bindings ps)) ps"
  unfolding bindings_def by (rule takeWhile_eq_take)

lemma first_free:
  "length (bindings ps) < length ps \<Longrightarrow> slot_empty (ps ! length (bindings ps))"
  using nth_length_takeWhile [of "\<lambda>b. \<not> slot_empty b" ps]
  by (simp add: bindings_def)

lemma occupied_below:
  "i < length (bindings ps) \<Longrightarrow> \<not> slot_empty (ps ! i)"
  using takeWhile_nth [of i "\<lambda>b. \<not> slot_empty b" ps] nth_mem [of i "bindings ps"]
  by (auto simp: bindings_def dest: set_takeWhileD)

lemma registry_inv_Initialize:
  "shape s \<Longrightarrow> registry_inv (rptParsers (Initialize s))"
  by (simp add: registry_inv_def Initialize_tables list_all_iff)

section \<open>The registration loop\<close>

text \<open>
  From slot \<open>i\<close>, with no free slot below \<open>i\<close> among the occupied prefix, the loop
  writes the first free slot, or reports failure when the table is full.
\<close>

lemma SetReportParser_loop_first_free:
  assumes "length ps = unat MAX_REPORT_PARSERS" and "i \<le> length (bindings ps)"
  shows "SetReportParser_loop ps rid prs i =
     (if length (bindings ps) < unat MAX_REPORT_PARSERS
      then (ps[length (bindings ps) :=
              (ps ! length (bindings ps))\<lparr>rptId := rid, rptParser := prs\<rparr>], True)
      else (ps, False))"
  using assms
proof (induction ps rid prs i rule: SetReportParser_loop.induct)
  case (1 ps rid prs i)
  let ?k = "length (bindings ps)"
  have k: "?k \<le> unat MAX_REPORT_PARSERS"
    using length_bindings_le [of ps] "1.prems"(1) by simp
  show ?case
  proof (cases "i < unat MAX_REPORT_PARSERS")
    case False
    with k "1.prems" show ?thesis
      by (subst SetReportParser_loop.simps) simp
  next
    case True
    show ?thesis
    proof (cases "slot_empty (ps ! i)")
      case True
      with occupied_below [of i ps] "1.prems"(2) have "i = ?k" by (cases "i < ?k") auto
      with True \<open>i < unat MAX_REPORT_PARSERS\<close> show ?thesis
        by (subst SetReportParser_loop.simps) simp
    next
      case False
      with first_free [of ps] "1.prems" True have "i \<noteq> ?k" by auto
      with "1.prems"(2) have "Suc i \<le> ?k" by simp
      with "1.IH" [OF True False "1.prems"(1)] True False show ?thesis
        by (subst SetReportParser_loop.simps) simp
    qed
  qed
qed

lemma bindings_update_first_free:
  assumes "registry_inv ps" and "length (bindings ps) < length ps"
  shows "bindings (ps[length (bindings ps) := b]) =
     (if slot_empty b then bindings ps else bindings ps @ [b])"
proof -
  define bs where "bs = bindings ps"
  define rest where "rest = drop (Suc (length bs)) ps"
  have pre: "take (length bs) ps = bs"
    unfolding bs_def by (rule bindings_prefix [symmetric])
  have upd: "ps[length bs := b] = bs @ b # rest"
    using assms(2) pre by (simp add: upd_conv_take_nth_drop bs_def rest_def)
  have occ: "\<And>x. x \<in> set bs \<Longrightarrow> \<not> slot_empty x"
    unfolding bs_def by (rule bindings_occupied)
  have free: "list_all slot_empty rest"
    using assms set_drop_subset_set_drop [of "length bs" "Suc (length bs)" ps]
    by (auto simp: registry_inv_def list_all_iff bs_def rest_def)
  have "bindings (bs @ b # rest) = (if slot_empty b then bs else bs @ [b])"
    using occ free by (cases rest) (simp_all add: bindings_def)
  then show ?thesis
    unfolding bs_def [symmetric] upd .
qed

section \<open>Registration refines appending a binding\<close>

lemma ReportParser_update_all [simp]:
  "(b :: 'p ReportParser)\<lparr>rptId := rid, rptParser := prs\<rparr> = \<lparr>rptId = rid, rptParser = prs\<rparr>"
  by (cases b) simp

lemma SetReportParser_loop_length [simp]:
  "length (fst (SetReportParser_loop ps rid prs i)) = length ps"
  by (induction ps rid prs i rule: SetReportParser_loop.induct)
     (subst SetReportParser_loop.simps, simp)

lemma SetReportParser_frame [hid_frame]:
  "SetReportParser s rid prs = (s', ok) \<Longrightarrow> s' = s\<lparr>rptParsers := rptParsers s'\<rparr>"
  by (auto simp: SetReportParser_def split: prod.splits)

lemma SetReportParser_shape [hid_shape]:
  "shape s \<Longrightarrow> shape (fst (SetReportParser s rid prs))"
proof -
  obtain ps ok where l: "SetReportParser_loop (rptParsers s) rid prs 0 = (ps, ok)"
    by (cases "SetReportParser_loop (rptParsers s) rid prs 0")
  with SetReportParser_loop_length [of "rptParsers s" rid prs 0]
  have "length ps = length (rptParsers s)" by simp
  then show "shape s \<Longrightarrow> shape (fst (SetReportParser s rid prs))"
    by (simp add: SetReportParser_def l shape_def)
qed

lemma SetReportParser_eq:
  assumes "registry_inv (rptParsers s)"
  shows "SetReportParser s rid prs =
     (let k = length (bindings (rptParsers s)) in
      if k < unat MAX_REPORT_PARSERS
      then (s\<lparr>rptParsers := (rptParsers s)[k := (rptParsers s ! k)\<lparr>rptId := rid, rptParser := prs\<rparr>]\<rparr>, True)
      else (s, False))"
  using assms
  by (simp add: SetReportParser_def SetReportParser_loop_first_free registry_inv_def Let_def)

lemma registry_inv_update:
  assumes "registry_inv ps" and "length (bindings ps) < length ps"
  shows "registry_inv (ps[length (bindings ps) := b])"
proof -
  let ?k = "length (bindings ps)"
  have len: "length (bindings (ps[?k := b])) = (if slot_empty b then ?k else Suc ?k)"
    using bindings_update_first_free [OF assms, of b] by simp
  have tail: "list_all slot_empty (drop (Suc ?k) ps)"
    using assms set_drop_subset_set_drop [of ?k "Suc ?k" ps]
    by (auto simp: registry_inv_def list_all_iff)
  show ?thesis
  proof (cases "slot_empty b")
    case True
    have "drop ?k (ps[?k := b]) = b # drop (Suc ?k) ps"
      using assms(2) by (simp add: Cons_nth_drop_Suc [symmetric] upd_conv_take_nth_drop)
    with True tail len assms(1) show ?thesis
      by (simp add: registry_inv_def)
  next
    case False
    with tail len assms(1) show ?thesis
      by (simp add: registry_inv_def)
  qed
qed

section \<open>The registry of the witnesses\<close>

lemma registry_inv_reg0 [simp]: "registry_inv (rptParsers reg0)"
  by (simp add: reg0_def registry_inv_def)

lemma rptParsers_reg0 [simp]: "rptParsers reg0 = [empty_parser, empty_parser]"
  by (simp add: reg0_def)

lemma reg1_eq:
  "SetReportParser reg0 1 (Some 10)
     = (reg0\<lparr>rptParsers := [\<lparr>rptId = 1, rptParser = Some 10\<rparr>, empty_parser]\<rparr>, True)"
  by (simp add: SetReportParser_eq registry_inv_def)

lemma rptParsers_reg1 [simp]:
  "rptParsers reg1 = [\<lparr>rptId = 1, rptParser = Some 10\<rparr>, empty_parser]"
  by (simp add: reg1_def reg1_eq)


lemma registry_inv_reg1 [simp]: "registry_inv (rptParsers reg1)"
  by (simp add: registry_inv_def)

lemma bHasReportId_reg1 [simp]: "bHasReportId reg1"
  by (simp add: reg1_def reg1_eq) (simp add: reg0_def)

lemma reg2_eq:
  "SetReportParser reg1 2 (Some 20)
     = (reg1\<lparr>rptParsers := [\<lparr>rptId = 1, rptParser = Some 10\<rparr>,
                              \<lparr>rptId = 2, rptParser = Some 20\<rparr>]\<rparr>, True)"
  by (simp add: SetReportParser_eq registry_inv_def)

lemma rptParsers_reg2 [simp]:
  "rptParsers reg2 = [\<lparr>rptId = 1, rptParser = Some 10\<rparr>, \<lparr>rptId = 2, rptParser = Some 20\<rparr>]"
  by (simp add: reg2_def reg2_eq)


lemma registry_inv_reg2 [simp]: "registry_inv (rptParsers reg2)"
  by (simp add: registry_inv_def)

lemma SetReportParser_register:
  assumes "registry_inv (rptParsers s)" and "SetReportParser s rid prs = (s', ok)"
  shows "registry_inv (rptParsers s') \<and>
         (bindings (rptParsers s'), ok) = register_spec (bindings (rptParsers s)) rid prs"
proof (cases "length (bindings (rptParsers s)) < unat MAX_REPORT_PARSERS")
  case False
  with assms show ?thesis
    by (simp add: SetReportParser_eq register_spec_def Let_def)
next
  case True
  let ?ps = "rptParsers s" and ?k = "length (bindings (rptParsers s))"
  let ?b = "\<lparr>rptId = rid, rptParser = prs\<rparr>"
  from True assms(1) have k: "?k < length ?ps" by (simp add: registry_inv_def)
  from assms True have s': "rptParsers s' = ?ps[?k := ?b]" and ok
    by (auto simp: SetReportParser_eq Let_def)
  have e: "slot_empty ?b \<longleftrightarrow> rid = 0 \<and> prs = None" by (simp add: slot_empty_def)
  have inv: "registry_inv (rptParsers s')"
    unfolding s' using assms(1) k by (rule registry_inv_update)
  have "bindings (rptParsers s') = (if rid = 0 \<and> prs = None then bindings ?ps else bindings ?ps @ [?b])"
    unfolding s' e [symmetric] using assms(1) k by (rule bindings_update_first_free)
  with inv True \<open>ok\<close> show ?thesis by (simp add: register_spec_def)
qed

section \<open>Registration\<close>

text \<open>
  C16. \<open>SetReportParser\<close> implements registration on the list of bindings: it
  keeps the registry invariant, appends the new binding after the existing ones when
  fewer than \<open>MAX_REPORT_PARSERS\<close> slots are occupied (a binding of identifier 0 to
  the null parser is the free slot itself and adds nothing), changes no existing
  binding, and reports failure with the bindings unchanged when the table is full.
\<close>

theorem SetReportParser_refines:
  assumes "registry_inv (rptParsers s)" and "SetReportParser s rid prs = (s', ok)"
  shows "registry_inv (rptParsers s') \<and>
         (bindings (rptParsers s'), ok) = register_spec (bindings (rptParsers s)) rid prs"
  using assms by (rule SetReportParser_register)

theorem SetReportParser_refines_witness:
  "registry_inv (rptParsers reg1) \<and>
   bindings (rptParsers (fst (SetReportParser reg1 2 (Some 20))))
     = [\<lparr>rptId = 1, rptParser = Some 10\<rparr>, \<lparr>rptId = 2, rptParser = Some 20\<rparr>]"
  using SetReportParser_refines [OF registry_inv_reg1, of 2 "Some 20"
      "fst (SetReportParser reg1 2 (Some 20))" "snd (SetReportParser reg1 2 (Some 20))"]
  by (simp add: register_spec_def registry_inv_def)

text \<open>
  C35. When every slot is occupied, \<open>SetReportParser\<close> returns \<open>false\<close> and leaves
  the whole object as it was: nothing is overwritten, whatever the identifier.
\<close>

theorem SetReportParser_full_unchanged:
  assumes "registry_inv (rptParsers s)"
    and "length (bindings (rptParsers s)) = unat MAX_REPORT_PARSERS"
  shows "SetReportParser s rid prs = (s, False)"
  using assms by (simp add: SetReportParser_eq)

theorem SetReportParser_full_unchanged_witness:
  "registry_inv (rptParsers reg2) \<and>
   length (bindings (rptParsers reg2)) = unat MAX_REPORT_PARSERS \<and>
   SetReportParser reg2 3 (Some 30) = (reg2, False)"
  using SetReportParser_full_unchanged [OF registry_inv_reg2, of 3 "Some 30"]
  by (simp add: registry_inv_def)

section \<open>Resolution\<close>

lemma GetReportParser_loop_find:
  "length ps = unat MAX_REPORT_PARSERS \<Longrightarrow>
   GetReportParser_loop ps rid i = resolve_spec (drop i ps) rid"
proof (induction ps rid i rule: GetReportParser_loop.induct)
  case (1 ps rid i)
  show ?case
  proof (cases "i < unat MAX_REPORT_PARSERS")
    case False
    with "1.prems" show ?thesis
      by (subst GetReportParser_loop.simps) (simp add: resolve_spec_def)
  next
    case True
    with "1.prems" have dr: "drop i ps = ps ! i # drop (Suc i) ps"
      by (simp add: Cons_nth_drop_Suc)
    from True "1.IH" "1.prems" show ?thesis
      by (subst GetReportParser_loop.simps) (simp add: resolve_spec_def dr)
  qed
qed

lemma resolve_spec_free_slots:
  "list_all slot_empty ps \<Longrightarrow> resolve_spec ps rid = None"
  by (induction ps) (auto simp: resolve_spec_def slot_empty_def)

lemma resolve_spec_append:
  "resolve_spec (xs @ ys) rid =
     (case find (\<lambda>b. rptId b = rid) xs of None \<Rightarrow> resolve_spec ys rid | Some b \<Rightarrow> rptParser b)"
  by (induction xs) (simp_all add: resolve_spec_def)

lemma resolve_bindings:
  assumes "registry_inv ps"
  shows "resolve_spec ps rid = resolve_spec (bindings ps) rid"
proof -
  have "ps = bindings ps @ drop (length (bindings ps)) ps"
    using bindings_prefix [of ps] append_take_drop_id [of "length (bindings ps)" ps] by simp
  then have "resolve_spec ps rid =
      resolve_spec (bindings ps @ drop (length (bindings ps)) ps) rid" by simp
  also have "\<dots> = resolve_spec (bindings ps) rid"
  proof -
    have "resolve_spec (drop (length (bindings ps)) ps) rid = None"
      using assms by (simp add: resolve_spec_free_slots registry_inv_def)
    then show ?thesis
      unfolding resolve_spec_append by (simp add: resolve_spec_def split: option.splits)
  qed
  finally show ?thesis .
qed

lemma GetReportParser_resolve:
  assumes "registry_inv (rptParsers s)" and "bHasReportId s"
  shows "GetReportParser s rid = resolve_spec (bindings (rptParsers s)) rid"
  using assms
  by (simp add: GetReportParser_def GetReportParser_loop_find registry_inv_def
      resolve_bindings [OF assms(1), symmetric])

text \<open>
  C36. With report-identifier framing, \<open>GetReportParser\<close> returns the parser of
  the first binding with the given identifier, in registration order, and the null
  parser when no binding has it; free slots never answer, also for identifier 0.
\<close>

theorem GetReportParser_first_match:
  assumes "registry_inv (rptParsers s)" and "bHasReportId s"
  shows "GetReportParser s rid = resolve_spec (bindings (rptParsers s)) rid"
  using assms by (rule GetReportParser_resolve)

theorem GetReportParser_first_match_witness:
  "registry_inv (rptParsers reg1) \<and> bHasReportId reg1 \<and>
   GetReportParser reg1 1 = Some 10 \<and> GetReportParser reg1 0 = None"
  using GetReportParser_first_match [OF registry_inv_reg1 bHasReportId_reg1, of 1]
    GetReportParser_first_match [OF registry_inv_reg1 bHasReportId_reg1, of 0]
  by (simp add: resolve_spec_def registry_inv_def)

text \<open>
  C4. Register, then resolve (with framing): after a successful
  \<open>SetReportParser rid prs\<close>, an identifier that was bound before resolves to the
  parser it had (the first writer wins, also for \<open>rid\<close> itself), \<open>rid\<close> resolves to
  \<open>prs\<close> if it was not bound, and any other identifier resolves to nothing.
\<close>

theorem register_then_resolve:
  assumes "registry_inv (rptParsers s)" and "bHasReportId s"
    and "SetReportParser s rid prs = (s', True)"
  shows "GetReportParser s' rid' =
     (case find (\<lambda>b. rptId b = rid') (bindings (rptParsers s)) of
        Some b \<Rightarrow> rptParser b
      | None \<Rightarrow> if rid' = rid then prs else None)"
proof -
  from SetReportParser_register [OF assms(1,3)]
  have inv: "registry_inv (rptParsers s')"
    and bs: "(bindings (rptParsers s'), True) = register_spec (bindings (rptParsers s)) rid prs"
    by simp_all
  from assms(3) have "bHasReportId s' = bHasReportId s"
    by (auto simp: SetReportParser_def split: prod.splits)
  with assms(2) inv have "GetReportParser s' rid' = resolve_spec (bindings (rptParsers s')) rid'"
    by (simp add: GetReportParser_resolve)
  also from bs have "\<dots> = (case find (\<lambda>b. rptId b = rid') (bindings (rptParsers s)) of
        Some b \<Rightarrow> rptParser b
      | None \<Rightarrow> if rid' = rid then prs else None)"
    by (auto simp: register_spec_def resolve_spec_append split: if_splits option.splits)
       (auto simp: resolve_spec_def)
  finally show ?thesis .
qed

theorem register_then_resolve_witness:
  "registry_inv (rptParsers reg1) \<and> bHasReportId reg1 \<and>
   SetReportParser reg1 2 (Some 20) = (reg2, True) \<and>
   GetReportParser reg2 1 = Some 10 \<and> GetReportParser reg2 2 = Some 20 \<and>
   GetReportParser reg2 3 = None"
proof -
  have r: "SetReportParser reg1 2 (Some 20) = (reg2, True)"
    by (simp add: reg2_def reg2_eq)
  from register_then_resolve [OF registry_inv_reg1 bHasReportId_reg1 r, of 1]
    register_then_resolve [OF registry_inv_reg1 bHasReportId_reg1 r, of 2]
    register_then_resolve [OF registry_inv_reg1 bHasReportId_reg1 r, of 3] r
  show ?thesis by (simp add: registry_inv_def)
qed

text \<open>
  C37. Without report-identifier framing, after one parser has been registered on
  an initialised object (under any identifier), \<open>GetReportParser\<close> returns that
  parser for every identifier.
\<close>

theorem resolve_without_report_ids:
  assumes "shape s" and "\<not> bHasReportId s"
  shows "\<exists>s'. SetReportParser (Initialize s) rid0 (Some p) = (s', True) \<and>
           registry_inv (rptParsers s') \<and>
           (\<forall>rid. GetReportParser s' rid = Some p)"
proof -
  let ?i = "Initialize s"
  have inv: "registry_inv (rptParsers ?i)" using assms(1) by (rule registry_inv_Initialize)
  have k: "length (bindings (rptParsers ?i)) = 0"
    using assms(1) by (simp add: Initialize_tables)
  obtain s' where s': "SetReportParser ?i rid0 (Some p) = (s', True)"
    and tbl: "rptParsers s' = (rptParsers ?i)[0 := \<lparr>rptId = rid0, rptParser = Some p\<rparr>]"
    and hid: "bHasReportId s' = bHasReportId s"
    using k by (simp add: SetReportParser_eq [OF inv])
  from SetReportParser_register [OF inv s'] have "registry_inv (rptParsers s')" by simp
  moreover have "GetReportParser s' rid = Some p" for rid
    using assms tbl hid by (simp add: GetReportParser_def Initialize_tables)
  ultimately show ?thesis using s' by blast
qed

theorem resolve_without_report_ids_witness:
  "shape (zero_obj :: nat HIDComposite) \<and> \<not> bHasReportId (zero_obj :: nat HIDComposite) \<and>
   (\<exists>s'. SetReportParser (Initialize zero_obj) 1 (Some (10 :: nat)) = (s', True) \<and>
      GetReportParser s' 1 = Some 10 \<and> GetReportParser s' 77 = Some 10)"
proof -
  have n: "\<not> bHasReportId (zero_obj :: nat HIDComposite)" by (simp add: zero_obj_def)
  from resolve_without_report_ids [OF shape_zero_obj n, of 1 10] n show ?thesis
    by auto
qed

end
