(* ===== verification/HID_Collab.thy ===== *)
theory HID_Collab
  imports HID_Tables
begin

text \<open>
  What the driver exchanges with its collaborators, which are not part of
  \<open>src/hidcomposite.cpp\<close>: the endpoint descriptor the descriptor walker hands
  to \<open>EndpointXtract\<close>, the customisation points of a concrete device class
  (the virtual \<open>SelectInterface\<close> and the compile-time \<open>POLLING_OVERRIDE\<close>), and
  the calls the driver makes that return nothing to it (diagnostic output, the
  report hooks), recorded as events in the order the driver makes them.
\<close>

section \<open>The endpoint descriptor\<close>

text \<open>The four fields of \<open>USB_ENDPOINT_DESCRIPTOR\<close> that lines 323-348 read.\<close>

record USB_ENDPOINT_DESCRIPTOR =
  bEndpointAddress :: u8
  bmAttributes :: u8
  wMaxPacketSize :: u16
  bInterval :: u8

text \<open>
  One callback of the descriptor walker: the arguments of \<open>EndpointXtract\<close>
  (line 297).
\<close>

record xtract_call =
  xc_conf :: u8
  xc_iface :: u8
  xc_alt :: u8
  xc_proto :: u8
  xc_pep :: USB_ENDPOINT_DESCRIPTOR

section \<open>Customisation points\<close>

text \<open>
  \<open>SelectInterface\<close> is the virtual veto of line 326 (the base class answers
  \<open>true\<close>); \<open>POLLING_OVERRIDE\<close> is the macro of lines 350-352, \<open>None\<close> when it
  is not defined.
\<close>

record hid_custom =
  SelectInterface :: "u8 \<Rightarrow> u8 \<Rightarrow> bool"
  POLLING_OVERRIDE :: "u8 option"

definition default_custom :: hid_custom where
  "default_custom = \<lparr>SelectInterface = (\<lambda>_ _. True), POLLING_OVERRIDE = None\<rparr>"

section \<open>Events\<close>

text \<open>
  \<open>NotifyIfaceFull n\<close> and \<open>NotifyEpFull n\<close>: the messages of lines 311-313 and
  332-334 with the count they print. \<open>PollTrace rcode\<close>: the trace of line 398.
  \<open>ParseHIDData\<close> and \<open>Parse\<close>: the two report hooks of lines 418 and 423 with
  their arguments (endpoint address or parser, framing flag, length, buffer).
  \<open>OnInitSuccessful\<close>: the hook of line 246.
\<close>

datatype 'p hid_event =
    NotifyIfaceFull u8
  | NotifyEpFull u8
  | PollTrace u8
  | ParseHIDData u8 bool u8 "u8 list"
  | Parse 'p bool u8 "u8 list"
  | OnInitSuccessful

end
