(* ===== verification/HID_Extractor.thy ===== *)
theory HID_Extractor
  imports HID_Collab
begin

text \<open>
  The interface and endpoint extractor: \<open>FindInterface\<close> (lines 289-295) and
  \<open>EndpointXtract\<close> (lines 297-356), the callback the descriptor walker invokes
  once per endpoint descriptor. The handler is modelled whole: the configuration
  number it records, the lookup or creation of the interface entry, the
  classification of the endpoint, the veto, both capacity checks with their early
  returns, and the endpoint record, role binding, poll interval and counter it
  writes. A pointer into \<open>hidInterfaces\<close> is the index of the entry.

  The invariant \<open>tables_inv\<close> collects what keeps every table access of the driver
  in range: the counters are within the capacities and every interrupt-IN role
  refers to a slot of \<open>epInfo\<close>. \<open>session_inv\<close> adds what holds from
  \<open>Initialize\<close> until \<open>Release\<close>: the live entries have distinct keys and bind
  only endpoints that have been discovered.
\<close>

section \<open>FindInterface\<close>

definition iface_matches :: "HIDInterface \<Rightarrow> u8 \<Rightarrow> u8 \<Rightarrow> u8 \<Rightarrow> bool" where
  "iface_matches h iface alt proto \<longleftrightarrow>
     bmInterface h = iface \<and> bmAltSet h = alt \<and> bmProtocol h = proto"

function FindInterface_loop ::
  "HIDInterface list \<Rightarrow> u8 \<Rightarrow> u8 \<Rightarrow> u8 \<Rightarrow> u8 \<Rightarrow> nat \<Rightarrow> nat option" where
  "FindInterface_loop hs n iface alt proto i =
     (if i < unat n \<and> i < unat maxHidInterfaces then
        (if iface_matches (hs ! i) iface alt proto then Some i
         else FindInterface_loop hs n iface alt proto (Suc i))
      else None)"
  by pat_completeness auto
termination
  by (relation "measure (\<lambda>(hs, n, iface, alt, proto, i). unat maxHidInterfaces - i)") auto

declare FindInterface_loop.simps [simp del]

definition FindInterface :: "'p HIDComposite \<Rightarrow> u8 \<Rightarrow> u8 \<Rightarrow> u8 \<Rightarrow> nat option" where
  "FindInterface s iface alt proto =
     FindInterface_loop (hidInterfaces s) (bNumIface s) iface alt proto 0"

section \<open>EndpointXtract\<close>

text \<open>Lines 316-320: fill the next free entry with the key and count it.\<close>

definition new_interface :: "'p HIDComposite \<Rightarrow> u8 \<Rightarrow> u8 \<Rightarrow> u8 \<Rightarrow> 'p HIDComposite" where
  "new_interface s iface alt proto =
     s\<lparr>hidInterfaces :=
         (hidInterfaces s)[unat (bNumIface s) :=
            (hidInterfaces s ! unat (bNumIface s))
              \<lparr>bmInterface := iface, bmAltSet := alt, bmProtocol := proto\<rparr>],
       bNumIface := bNumIface s + 1\<rparr>"

text \<open>
  Lines 323-327: the role of the endpoint. Only interrupt endpoints have one; bit 7
  of the address tells IN from OUT; the veto of \<open>SelectInterface\<close> removes it.
\<close>

definition ep_role :: "hid_custom \<Rightarrow> u8 \<Rightarrow> u8 \<Rightarrow> USB_ENDPOINT_DESCRIPTOR \<Rightarrow> u8" where
  "ep_role C iface proto pep =
     (let index = (if bmAttributes pep AND bmUSB_TRANSFER_TYPE = USB_TRANSFER_TYPE_INTERRUPT
                   then (if bEndpointAddress pep AND 0x80 = 0x80
                         then epInterruptInIndex else epInterruptOutIndex)
                   else 0)
      in if \<not> SelectInterface C iface proto then 0 else index)"

text \<open>Lines 338-342: the endpoint record written into slot \<open>bNumEP\<close>.\<close>

definition fill_endpoint :: "EpInfo \<Rightarrow> USB_ENDPOINT_DESCRIPTOR \<Rightarrow> EpInfo" where
  "fill_endpoint e pep =
     e\<lparr>epAddr := bEndpointAddress pep AND 0x0F,
       maxPktSize := ucast (wMaxPacketSize pep),
       bmSndToggle := 0,
       bmRcvToggle := 0,
       bmNakPower := USB_NAK_NOWAIT\<rparr>"

text \<open>Lines 347-352: the poll interval after an endpoint with interval \<open>bi\<close>.\<close>

definition next_pollInterval :: "hid_custom \<Rightarrow> u8 \<Rightarrow> u8 \<Rightarrow> u8" where
  "next_pollInterval C cur bi =
     (case POLLING_OVERRIDE C of
        Some v \<Rightarrow> v
      | None \<Rightarrow> if cur < bi then bi else cur)"

text \<open>
  Lines 329-355, for the interface entry \<open>k\<close> and the role \<open>index\<close>: nothing for
  role 0; the message and no change when the endpoint table is full; else the new
  endpoint record, its binding in the role array, the poll interval, the counter.
\<close>

definition bind_endpoint ::
  "hid_custom \<Rightarrow> 'p HIDComposite \<Rightarrow> nat \<Rightarrow> u8 \<Rightarrow> USB_ENDPOINT_DESCRIPTOR
     \<Rightarrow> 'p HIDComposite \<times> 'p hid_event list" where
  "bind_endpoint C s k index pep =
     (if index \<noteq> 0 then
        (if totalEndpoints \<le> bNumEP s then (s, [NotifyEpFull (bNumEP s)])
         else
           (s\<lparr>epInfo :=
                (epInfo s)[unat (bNumEP s) := fill_endpoint (epInfo s ! unat (bNumEP s)) pep],
              hidInterfaces :=
                (hidInterfaces s)[k :=
                   (hidInterfaces s ! k)
                     \<lparr>epIndex := (epIndex (hidInterfaces s ! k))[unat index := bNumEP s]\<rparr>],
              pollInterval := next_pollInterval C (pollInterval s) (bInterval pep),
              bNumEP := bNumEP s + 1\<rparr>, []))
      else (s, []))"

definition EndpointXtract ::
  "hid_custom \<Rightarrow> 'p HIDComposite \<Rightarrow> u8 \<Rightarrow> u8 \<Rightarrow> u8 \<Rightarrow> u8 \<Rightarrow> USB_ENDPOINT_DESCRIPTOR
     \<Rightarrow> 'p HIDComposite \<times> 'p hid_event list" where
  "EndpointXtract C s conf iface alt proto pep =
     (let s1 = s\<lparr>bConfNum := conf\<rparr> in
      case FindInterface s1 iface alt proto of
        None \<Rightarrow>
          if maxHidInterfaces \<le> bNumIface s1 then (s1, [NotifyIfaceFull (bNumIface s1)])
          else bind_endpoint C (new_interface s1 iface alt proto) (unat (bNumIface s1))
                 (ep_role C iface proto pep) pep
      | Some k \<Rightarrow> bind_endpoint C s1 k (ep_role C iface proto pep) pep)"

text \<open>
  The callbacks of one walk of a configuration descriptor, in order; the events of
  the calls are concatenated.
\<close>

definition EndpointXtract_call ::
  "hid_custom \<Rightarrow> 'p HIDComposite \<Rightarrow> xtract_call \<Rightarrow> 'p HIDComposite \<times> 'p hid_event list" where
  "EndpointXtract_call C s c =
     EndpointXtract C s (xc_conf c) (xc_iface c) (xc_alt c) (xc_proto c) (xc_pep c)"

fun EndpointXtract_all ::
  "hid_custom \<Rightarrow> 'p HIDComposite \<Rightarrow> xtract_call list \<Rightarrow> 'p HIDComposite \<times> 'p hid_event list" where
  "EndpointXtract_all C s [] = (s, [])"
| "EndpointXtract_all C s (c # cs) =
     (let r1 = EndpointXtract_call C s c; r2 = EndpointXtract_all C (fst r1) cs
      in (fst r2, snd r1 @ snd r2))"

section \<open>Invariants\<close>

definition in_role :: "HIDInterface \<Rightarrow> u8" where
  "in_role h = epIndex h ! unat epInterruptInIndex"

definition out_role :: "HIDInterface \<Rightarrow> u8" where
  "out_role h = epIndex h ! unat epInterruptOutIndex"

definition tables_inv :: "'p HIDComposite \<Rightarrow> bool" where
  "tables_inv s \<longleftrightarrow>
     shape s \<and>
     bNumIface s \<le> maxHidInterfaces \<and>
     1 \<le> bNumEP s \<and> bNumEP s \<le> totalEndpoints \<and>
     list_all (\<lambda>h. in_role h < totalEndpoints) (hidInterfaces s)"

definition iface_key :: "HIDInterface \<Rightarrow> u8 \<times> u8 \<times> u8" where
  "iface_key h = (bmInterface h, bmAltSet h, bmProtocol h)"

definition live :: "'p HIDComposite \<Rightarrow> HIDInterface list" where
  "live s = take (unat (bNumIface s)) (hidInterfaces s)"

definition session_inv :: "'p HIDComposite \<Rightarrow> bool" where
  "session_inv s \<longleftrightarrow>
     tables_inv s \<and>
     distinct (map iface_key (live s)) \<and>
     list_all (\<lambda>h. in_role h < bNumEP s) (hidInterfaces s)"

text \<open>
  \<open>untouched s s'\<close>: the fields of the session and of the registry, which
  extraction never writes, agree in \<open>s\<close> and \<open>s'\<close>.
\<close>

definition untouched :: "'p HIDComposite \<Rightarrow> 'p HIDComposite \<Rightarrow> bool" where
  "untouched s s' \<longleftrightarrow>
     bAddress s' = bAddress s \<and> bPollEnable s' = bPollEnable s \<and>
     qNextPollTime s' = qNextPollTime s \<and> rptParsers s' = rptParsers s \<and>
     bHasReportId s' = bHasReportId s \<and> descrInfo s' = descrInfo s \<and>
     VID s' = VID s \<and> PID s' = PID s"

section \<open>Descriptors and callback sequences of the witnesses\<close>

text \<open>
  Interrupt-IN, interrupt-OUT and bulk-IN endpoint descriptors with endpoint number
  \<open>n\<close>; the callbacks of five interfaces with one interrupt-IN endpoint each (two
  more than the interface table holds); the callbacks of three interfaces with an
  IN and an OUT endpoint each, which fill both tables.
\<close>

definition int_in_ep :: "u8 \<Rightarrow> u8 \<Rightarrow> USB_ENDPOINT_DESCRIPTOR" where
  "int_in_ep n ival =
     \<lparr>bEndpointAddress = 0x80 OR n, bmAttributes = 0x03, wMaxPacketSize = 8, bInterval = ival\<rparr>"

definition int_out_ep :: "u8 \<Rightarrow> u8 \<Rightarrow> USB_ENDPOINT_DESCRIPTOR" where
  "int_out_ep n ival =
     \<lparr>bEndpointAddress = n, bmAttributes = 0x03, wMaxPacketSize = 8, bInterval = ival\<rparr>"

definition bulk_in_ep :: "u8 \<Rightarrow> USB_ENDPOINT_DESCRIPTOR" where
  "bulk_in_ep n =
     \<lparr>bEndpointAddress = 0x80 OR n, bmAttributes = 0x02, wMaxPacketSize = 64, bInterval = 0\<rparr>"

definition xcall :: "u8 \<Rightarrow> u8 \<Rightarrow> u8 \<Rightarrow> u8 \<Rightarrow> USB_ENDPOINT_DESCRIPTOR \<Rightarrow> xtract_call" where
  "xcall conf iface alt proto pep =
     \<lparr>xc_conf = conf, xc_iface = iface, xc_alt = alt, xc_proto = proto, xc_pep = pep\<rparr>"

definition five_interfaces :: "xtract_call list" where
  "five_interfaces = map (\<lambda>i. xcall 1 i 0 0 (int_in_ep 1 10)) [0, 1, 2, 3, 4]"

definition six_endpoints :: "xtract_call list" where
  "six_endpoints =
     [xcall 1 0 0 1 (int_in_ep 1 10), xcall 1 0 0 1 (int_out_ep 1 10),
      xcall 1 1 0 2 (int_in_ep 2 4), xcall 1 1 0 2 (int_out_ep 2 4),
      xcall 1 2 0 0 (int_in_ep 3 32), xcall 1 2 0 0 (int_out_ep 3 32)]"

definition three_full :: "nat HIDComposite" where
  "three_full = fst (EndpointXtract_all default_custom fresh_obj six_endpoints)"

section \<open>What FindInterface returns\<close>

lemma ep_role_cases:
  "ep_role C iface proto pep = 0 \<or> ep_role C iface proto pep = epInterruptInIndex
   \<or> ep_role C iface proto pep = epInterruptOutIndex"
  by (simp add: ep_role_def Let_def)

lemma tables_invD:
  assumes "tables_inv s"
  shows "shape s" "bNumIface s \<le> maxHidInterfaces" "1 \<le> bNumEP s"
    "bNumEP s \<le> totalEndpoints" "unat (bNumIface s) \<le> 3" "unat (bNumEP s) \<le> 7"
    "0 < unat (bNumEP s)"
    "i < 3 \<Longrightarrow> in_role (hidInterfaces s ! i) < totalEndpoints"
  using assms
  by (auto simp: tables_inv_def word_le_nat_alt list_all_length shape_def)

lemma FindInterface_loop_SomeD:
  "FindInterface_loop hs n iface alt proto i = Some k \<Longrightarrow>
   i \<le> k \<and> k < unat n \<and> k < unat maxHidInterfaces \<and> iface_matches (hs ! k) iface alt proto \<and>
   (\<forall>j. i \<le> j \<and> j < k \<longrightarrow> \<not> iface_matches (hs ! j) iface alt proto)"
proof (induction hs n iface alt proto i rule: FindInterface_loop.induct)
  case (1 hs n iface alt proto i)
  note unf = FindInterface_loop.simps [of hs n iface alt proto i]
  from "1.prems" unf have c: "i < unat n \<and> i < unat maxHidInterfaces"
    by (auto split: if_splits)
  show ?case
  proof (cases "iface_matches (hs ! i) iface alt proto")
    case True
    with c "1.prems" unf have "k = i" by simp
    with c True show ?thesis by auto
  next
    case False
    with c "1.prems" unf have "FindInterface_loop hs n iface alt proto (Suc i) = Some k"
      by simp
    from "1.IH" [OF c False this] False show ?thesis
      by (auto simp: le_less Suc_le_eq)
  qed
qed

lemma FindInterface_loop_NoneD:
  "FindInterface_loop hs n iface alt proto i = None \<Longrightarrow>
   i \<le> j \<Longrightarrow> j < unat n \<Longrightarrow> j < unat maxHidInterfaces \<Longrightarrow>
   \<not> iface_matches (hs ! j) iface alt proto"
proof (induction hs n iface alt proto i rule: FindInterface_loop.induct)
  case (1 hs n iface alt proto i)
  note unf = FindInterface_loop.simps [of hs n iface alt proto i]
  from "1.prems" have c: "i < unat n \<and> i < unat maxHidInterfaces" by simp
  with "1.prems"(1) unf have nm: "\<not> iface_matches (hs ! i) iface alt proto"
    and rest: "FindInterface_loop hs n iface alt proto (Suc i) = None"
    by (auto split: if_splits)
  show ?case
  proof (cases "j = i")
    case True with nm show ?thesis by simp
  next
    case False
    with "1.prems"(2) have "Suc i \<le> j" by simp
    from "1.IH" [OF c nm rest this "1.prems"(3,4)] show ?thesis .
  qed
qed

lemma FindInterface_SomeD:
  assumes "FindInterface s iface alt proto = Some k"
  shows "k < unat (bNumIface s)" "k < unat maxHidInterfaces"
    "iface_matches (hidInterfaces s ! k) iface alt proto"
    "j < k \<Longrightarrow> \<not> iface_matches (hidInterfaces s ! j) iface alt proto"
  using FindInterface_loop_SomeD [OF assms [unfolded FindInterface_def]] by auto

lemma FindInterface_NoneD:
  assumes "FindInterface s iface alt proto = None"
    and "j < unat (bNumIface s)" and "j < unat maxHidInterfaces"
  shows "\<not> iface_matches (hidInterfaces s ! j) iface alt proto"
  using FindInterface_loop_NoneD [OF assms(1) [unfolded FindInterface_def] _ assms(2,3)]
  by simp

lemma FindInterface_bConfNum [simp]:
  "FindInterface (s\<lparr>bConfNum := c\<rparr>) = FindInterface s"
  by (simp add: FindInterface_def fun_eq_iff)

section \<open>One call keeps the table invariant\<close>

lemma in_role_update_in [simp]:
  "Suc 0 < length (epIndex h) \<Longrightarrow> in_role (h\<lparr>epIndex := (epIndex h)[Suc 0 := v]\<rparr>) = v"
  by (simp add: in_role_def)

lemma in_role_update_out [simp]:
  "in_role (h\<lparr>epIndex := (epIndex h)[2 := v]\<rparr>) = in_role h"
  by (simp add: in_role_def)

lemma in_role_key_update [simp]:
  "in_role (h\<lparr>bmInterface := a, bmAltSet := b, bmProtocol := c\<rparr>) = in_role h"
  by (simp add: in_role_def)

lemma epIndex_ok_updates [simp]:
  "epIndex_ok (h\<lparr>epIndex := (epIndex h)[i := v]\<rparr>) = epIndex_ok h"
  "epIndex_ok (h\<lparr>bmInterface := a, bmAltSet := b, bmProtocol := c\<rparr>) = epIndex_ok h"
  by (simp_all add: epIndex_ok_def)

lemma new_interface_tables_inv:
  assumes "tables_inv s" and "\<not> maxHidInterfaces \<le> bNumIface s"
  shows "tables_inv (new_interface s iface alt proto)"
proof -
  from assms(2) have lt: "bNumIface s < maxHidInterfaces" by simp
  then have n: "unat (bNumIface s) < 3" by (simp add: word_less_nat_alt)
  have le: "bNumIface s + 1 \<le> maxHidInterfaces" using lt by (rule word_succ_le_of_less)
  from assms(1) n le show ?thesis
    by (auto simp: tables_inv_def new_interface_def shape_def list_all_length nth_list_update)
qed

lemma bind_endpoint_tables_inv:
  assumes "tables_inv s" and "k < unat maxHidInterfaces"
    and "index = 0 \<or> index = epInterruptInIndex \<or> index = epInterruptOutIndex"
  shows "tables_inv (fst (bind_endpoint C s k index pep))"
proof (cases "index \<noteq> 0 \<and> \<not> totalEndpoints \<le> bNumEP s")
  case False
  with assms(1) show ?thesis by (auto simp: bind_endpoint_def)
next
  case True
  then have lt: "bNumEP s < totalEndpoints" by (simp add: not_le)
  have le: "bNumEP s + 1 \<le> totalEndpoints" using lt by (rule word_succ_le_of_less)
  have un: "unat (bNumEP s + 1) = Suc (unat (bNumEP s))" using lt by (rule unat_Suc_of_less)
  then have one: "1 \<le> bNumEP s + 1" by (simp add: word_le_nat_alt)
  from assms(1) have len: "\<And>i. i < 3 \<Longrightarrow> Suc 0 < length (epIndex (hidInterfaces s ! i))"
    by (auto dest!: tables_invD(1) shapeD(5))
  from True assms lt le one len show ?thesis
    by (auto simp: tables_inv_def bind_endpoint_def shape_def list_all_length nth_list_update)
qed

lemma tables_inv_bConfNum [simp]: "tables_inv (s\<lparr>bConfNum := c\<rparr>) = tables_inv s"
  by (simp add: tables_inv_def shape_def)

lemma EndpointXtract_tables_inv:
  assumes "tables_inv s"
  shows "tables_inv (fst (EndpointXtract C s conf iface alt proto pep))"
proof (cases "FindInterface s iface alt proto")
  case None
  show ?thesis
  proof (cases "maxHidInterfaces \<le> bNumIface s")
    case True
    with None assms show ?thesis by (simp add: EndpointXtract_def)
  next
    case False
    then have k: "unat (bNumIface s) < unat maxHidInterfaces"
      by (simp add: word_le_nat_alt)
    have "tables_inv (new_interface (s\<lparr>bConfNum := conf\<rparr>) iface alt proto)"
      using assms False by (intro new_interface_tables_inv) simp_all
    from bind_endpoint_tables_inv [OF this k ep_role_cases] None False show ?thesis
      by (simp add: EndpointXtract_def)
  qed
next
  case (Some k)
  from FindInterface_SomeD(2) [OF Some] have k: "k < unat maxHidInterfaces" .
  have "tables_inv (s\<lparr>bConfNum := conf\<rparr>)" using assms by simp
  from bind_endpoint_tables_inv [OF this k ep_role_cases] Some show ?thesis
    by (simp add: EndpointXtract_def)
qed

lemma EndpointXtract_all_tables_inv:
  "tables_inv s \<Longrightarrow> tables_inv (fst (EndpointXtract_all C s cs))"
proof (induction cs arbitrary: s)
  case Nil
  then show ?case by simp
next
  case (Cons c cs)
  let ?r = "EndpointXtract_call C s c"
  from Cons.prems have "tables_inv (fst ?r)"
    unfolding EndpointXtract_call_def by (rule EndpointXtract_tables_inv)
  then have "tables_inv (fst (EndpointXtract_all C (fst ?r) cs))" by (rule Cons.IH)
  then show ?case by (simp add: Let_def)
qed

section \<open>One call keeps the session invariant\<close>

lemma iface_matches_key: "iface_matches h a b c \<longleftrightarrow> iface_key h = (a, b, c)"
  by (simp add: iface_matches_def iface_key_def)

lemma iface_key_updates [simp]:
  "iface_key (h\<lparr>epIndex := e\<rparr>) = iface_key h"
  "iface_key (h\<lparr>bmInterface := a, bmAltSet := b, bmProtocol := c\<rparr>) = (a, b, c)"
  by (simp_all add: iface_key_def)

lemma bind_endpoint_frame [simp]:
  "bNumIface (fst (bind_endpoint C s k index pep)) = bNumIface s"
  "bConfNum (fst (bind_endpoint C s k index pep)) = bConfNum s"
  "bAddress (fst (bind_endpoint C s k index pep)) = bAddress s"
  "rptParsers (fst (bind_endpoint C s k index pep)) = rptParsers s"
  "map iface_key (hidInterfaces (fst (bind_endpoint C s k index pep)))
     = map iface_key (hidInterfaces s)"
  by (simp_all add: bind_endpoint_def map_update_same)

lemma live_bind_endpoint [simp]:
  "map iface_key (live (fst (bind_endpoint C s k index pep))) = map iface_key (live s)"
  by (simp add: live_def take_map [symmetric])

lemma live_new_interface:
  assumes "unat (bNumIface s) < length (hidInterfaces s)" and "bNumIface s < maxHidInterfaces"
  shows "map iface_key (live (new_interface s iface alt proto))
     = map iface_key (live s) @ [(iface, alt, proto)]"
  using assms
  by (simp add: live_def new_interface_def unat_Suc_of_less take_Suc_update)

lemma FindInterface_None_key:
  assumes "FindInterface s iface alt proto = None" and "bNumIface s \<le> maxHidInterfaces"
    and "length (hidInterfaces s) = unat maxHidInterfaces"
  shows "(iface, alt, proto) \<notin> set (map iface_key (live s))"
proof
  assume "(iface, alt, proto) \<in> set (map iface_key (live s))"
  then obtain j where j: "j < length (live s)" and k: "iface_key (live s ! j) = (iface, alt, proto)"
    by (auto simp: in_set_conv_nth)
  from j assms(2,3) have "j < unat (bNumIface s)" "j < unat maxHidInterfaces"
    by (simp_all add: live_def word_le_nat_alt)
  moreover from j k have "iface_matches (hidInterfaces s ! j) iface alt proto"
    by (simp add: iface_matches_key live_def)
  ultimately show False using FindInterface_NoneD [OF assms(1)] by blast
qed

lemma session_invD:
  assumes "session_inv s"
  shows "tables_inv s" "distinct (map iface_key (live s))"
    "i < 3 \<Longrightarrow> in_role (hidInterfaces s ! i) < bNumEP s"
  using assms by (auto simp: session_inv_def list_all_length dest!: tables_invD(1) shapeD(3))

lemma session_inv_bConfNum [simp]: "session_inv (s\<lparr>bConfNum := c\<rparr>) = session_inv s"
  by (simp add: session_inv_def live_def)

lemma new_interface_session_inv:
  assumes "session_inv s" and "\<not> maxHidInterfaces \<le> bNumIface s"
    and "FindInterface s iface alt proto = None"
  shows "session_inv (new_interface s iface alt proto)"
proof -
  from assms(2) have lt: "bNumIface s < maxHidInterfaces" by (simp add: not_le)
  note t = session_invD(1) [OF assms(1)]
  have len: "length (hidInterfaces s) = unat maxHidInterfaces"
    using shapeD(3) [OF tables_invD(1) [OF t]] by simp
  with lt have n: "unat (bNumIface s) < length (hidInterfaces s)"
    by (simp add: word_less_nat_alt)
  have "(iface, alt, proto) \<notin> set (map iface_key (live s))"
    using assms(3) tables_invD(2) [OF t] len by (rule FindInterface_None_key)
  with session_invD(2) [OF assms(1)] live_new_interface [OF n lt, of iface alt proto]
  have d: "distinct (map iface_key (live (new_interface s iface alt proto)))" by simp
  have r: "list_all (\<lambda>h. in_role h < bNumEP (new_interface s iface alt proto))
      (hidInterfaces (new_interface s iface alt proto))"
    using assms(1) n by (auto simp: session_inv_def new_interface_def list_all_length nth_list_update)
  from new_interface_tables_inv [OF t assms(2)] d r show ?thesis
    by (simp add: session_inv_def)
qed

lemma bind_endpoint_session_inv:
  assumes "session_inv s" and "k < unat maxHidInterfaces"
    and "index = 0 \<or> index = epInterruptInIndex \<or> index = epInterruptOutIndex"
  shows "session_inv (fst (bind_endpoint C s k index pep))"
proof -
  note t = session_invD(1) [OF assms(1)]
  have ti: "tables_inv (fst (bind_endpoint C s k index pep))"
    using t assms(2,3) by (rule bind_endpoint_tables_inv)
  have r: "list_all (\<lambda>h. in_role h < bNumEP (fst (bind_endpoint C s k index pep)))
      (hidInterfaces (fst (bind_endpoint C s k index pep)))"
  proof (cases "index \<noteq> 0 \<and> \<not> totalEndpoints \<le> bNumEP s")
    case False
    with assms(1) show ?thesis by (auto simp: bind_endpoint_def session_inv_def)
  next
    case True
    then have lt: "bNumEP s < totalEndpoints" by (simp add: not_le)
    have up: "x < bNumEP s \<Longrightarrow> x < bNumEP s + 1" for x
      using word_succ_le_of_less(2) [OF lt] by simp
    have len: "\<And>i. i < 3 \<Longrightarrow> Suc 0 < length (epIndex (hidInterfaces s ! i))"
      using t by (auto dest!: tables_invD(1) shapeD(5))
    from True assms up len word_succ_le_of_less(2) [OF lt] show ?thesis
      by (auto simp: bind_endpoint_def session_inv_def list_all_length nth_list_update
          dest!: tables_invD(1) shapeD(3))
  qed
  from ti r session_invD(2) [OF assms(1)] show ?thesis
    by (simp add: session_inv_def)
qed

lemma EndpointXtract_session_inv:
  assumes "session_inv s"
  shows "session_inv (fst (EndpointXtract C s conf iface alt proto pep))"
proof (cases "FindInterface s iface alt proto")
  case None
  show ?thesis
  proof (cases "maxHidInterfaces \<le> bNumIface s")
    case True
    with None assms show ?thesis by (simp add: EndpointXtract_def)
  next
    case False
    then have k: "unat (bNumIface s) < unat maxHidInterfaces"
      by (simp add: word_le_nat_alt)
    have "session_inv (new_interface (s\<lparr>bConfNum := conf\<rparr>) iface alt proto)"
      using assms False None by (intro new_interface_session_inv) simp_all
    from bind_endpoint_session_inv [OF this k ep_role_cases] None False show ?thesis
      by (simp add: EndpointXtract_def)
  qed
next
  case (Some k)
  from FindInterface_SomeD(2) [OF Some] have k: "k < unat maxHidInterfaces" .
  have "session_inv (s\<lparr>bConfNum := conf\<rparr>)" using assms by simp
  from bind_endpoint_session_inv [OF this k ep_role_cases] Some show ?thesis
    by (simp add: EndpointXtract_def)
qed

lemma session_inv_Initialize:
  assumes "shape s"
  shows "session_inv (Initialize s)"
proof -
  have r: "in_role (clear_interface h) = 0" if "epIndex_ok h" for h
    using that by (simp add: in_role_def clear_interface_def epIndex_ok_def nth_update_each)
  have "list_all (\<lambda>h. in_role h = 0) (hidInterfaces (Initialize s))"
    using assms by (auto simp: Initialize_tables shape_def list_all_iff r)
  with Initialize_shape [OF assms] show ?thesis
    by (auto simp: session_inv_def tables_inv_def live_def list_all_iff hid_const)
qed

section \<open>FindInterface is a search of the live entries by key\<close>

lemma FindInterface_first_index:
  assumes "bNumIface s \<le> maxHidInterfaces"
    and "length (hidInterfaces s) = unat maxHidInterfaces"
  shows "FindInterface s iface alt proto
     = first_index (\<lambda>h. iface_key h = (iface, alt, proto)) (live s)"
proof (cases "FindInterface s iface alt proto")
  case None
  from FindInterface_None_key [OF None assms]
  have "first_index (\<lambda>h. iface_key h = (iface, alt, proto)) (live s) = None"
    by (force simp: first_index_None_iff)
  with None show ?thesis by simp
next
  case (Some k)
  note d = FindInterface_SomeD [OF Some]
  from d(1,2) assms have "k < length (live s)" by (simp add: live_def)
  moreover from d(1,3) have "iface_key (live s ! k) = (iface, alt, proto)"
    by (simp add: live_def iface_matches_key)
  moreover from d(1,4) have "\<forall>j<k. iface_key (live s ! j) \<noteq> (iface, alt, proto)"
    by (simp add: live_def iface_matches_key)
  ultimately have "first_index (\<lambda>h. iface_key h = (iface, alt, proto)) (live s) = Some k"
    by (simp add: first_index_Some_iff)
  with Some show ?thesis by simp
qed

lemma FindInterface_live_entry:
  assumes "session_inv s" and "k < unat (bNumIface s)"
  shows "FindInterface s (bmInterface (hidInterfaces s ! k)) (bmAltSet (hidInterfaces s ! k))
           (bmProtocol (hidInterfaces s ! k)) = Some k"
proof -
  note t = session_invD(1) [OF assms(1)]
  have len: "length (hidInterfaces s) = unat maxHidInterfaces"
    using shapeD(3) [OF tables_invD(1) [OF t]] by simp
  let ?keys = "map iface_key (live s)"
  from assms(2) tables_invD(5) [OF t] len have k: "k < length ?keys"
    by (simp add: live_def)
  have key: "?keys ! k = iface_key (hidInterfaces s ! k)"
    using k assms(2) by (simp add: live_def)
  have "\<forall>j<k. iface_key (live s ! j) \<noteq> iface_key (hidInterfaces s ! k)"
  proof (intro allI impI)
    fix j assume "j < k"
    with k nth_eq_iff_index_eq [OF session_invD(2) [OF assms(1)], of j k]
    have "?keys ! j \<noteq> ?keys ! k" by simp
    with \<open>j < k\<close> k key show "iface_key (live s ! j) \<noteq> iface_key (hidInterfaces s ! k)"
      by simp
  qed
  with k key show ?thesis
    unfolding FindInterface_first_index [OF tables_invD(2) [OF t] len]
    by (simp add: first_index_Some_iff iface_key_def)
qed

lemma FindInterface_keys:
  assumes "bNumIface s \<le> maxHidInterfaces"
    and "length (hidInterfaces s) = unat maxHidInterfaces"
  shows "FindInterface s iface alt proto
     = first_index (\<lambda>x. x = (iface, alt, proto)) (map iface_key (live s))"
  by (simp add: FindInterface_first_index [OF assms] first_index_map)

lemma tables_inv_keys:
  assumes "tables_inv s"
  shows "FindInterface s iface alt proto
     = first_index (\<lambda>x. x = (iface, alt, proto)) (map iface_key (live s))"
  using tables_invD(2) [OF assms] shapeD(3) [OF tables_invD(1) [OF assms]]
  by (intro FindInterface_keys) simp_all

section \<open>The branches of EndpointXtract\<close>

lemma fill_endpoint_eq:
  "fill_endpoint e pep =
     \<lparr>epAddr = bEndpointAddress pep AND 0x0F, maxPktSize = ucast (wMaxPacketSize pep),
      bmSndToggle = 0, bmRcvToggle = 0, bmNakPower = USB_NAK_NOWAIT\<rparr>"
  by (cases e) (simp add: fill_endpoint_def)

lemma bind_endpoint_bound:
  assumes "index \<noteq> 0" and "bNumEP s < totalEndpoints"
    and "k < length (hidInterfaces s)" and "unat index < length (epIndex (hidInterfaces s ! k))"
  shows "snd (bind_endpoint C s k index pep) = []"
    and "bNumEP (fst (bind_endpoint C s k index pep)) = bNumEP s + 1"
    and "epInfo (fst (bind_endpoint C s k index pep))
          = (epInfo s)[unat (bNumEP s) := fill_endpoint (epInfo s ! unat (bNumEP s)) pep]"
    and "epIndex (hidInterfaces (fst (bind_endpoint C s k index pep)) ! k) ! unat index = bNumEP s"
    and "pollInterval (fst (bind_endpoint C s k index pep))
          = next_pollInterval C (pollInterval s) (bInterval pep)"
  using assms by (simp_all add: bind_endpoint_def not_le [symmetric])

lemma new_interface_fields [simp]:
  "bNumEP (new_interface s a b c) = bNumEP s"
  "epInfo (new_interface s a b c) = epInfo s"
  "pollInterval (new_interface s a b c) = pollInterval s"
  "bConfNum (new_interface s a b c) = bConfNum s"
  "bAddress (new_interface s a b c) = bAddress s"
  "length (hidInterfaces (new_interface s a b c)) = length (hidInterfaces s)"
  by (simp_all add: new_interface_def)

lemma epIndex_new_interface:
  "epIndex (hidInterfaces (new_interface s a b c) ! k) = epIndex (hidInterfaces s ! k)"
  by (cases "unat (bNumIface s) < length (hidInterfaces s)"; cases "k = unat (bNumIface s)")
     (simp_all add: new_interface_def list_update_beyond)

lemma EndpointXtract_cases:
  obtains (full) "FindInterface s iface alt proto = None" "maxHidInterfaces \<le> bNumIface s"
      "EndpointXtract C s conf iface alt proto pep
         = (s\<lparr>bConfNum := conf\<rparr>, [NotifyIfaceFull (bNumIface s)])"
    | (new) "FindInterface s iface alt proto = None" "bNumIface s < maxHidInterfaces"
      "EndpointXtract C s conf iface alt proto pep
         = bind_endpoint C (new_interface (s\<lparr>bConfNum := conf\<rparr>) iface alt proto)
             (unat (bNumIface s)) (ep_role C iface proto pep) pep"
    | (found) k where "FindInterface s iface alt proto = Some k"
      "EndpointXtract C s conf iface alt proto pep
         = bind_endpoint C (s\<lparr>bConfNum := conf\<rparr>) k (ep_role C iface proto pep) pep"
  by (cases "FindInterface s iface alt proto"; cases "maxHidInterfaces \<le> bNumIface s")
     (auto simp: EndpointXtract_def not_le)

lemma bind_endpoint_full:
  assumes "index \<noteq> 0" and "totalEndpoints \<le> bNumEP s"
  shows "bind_endpoint C s k index pep = (s, [NotifyEpFull (bNumEP s)])"
  using assms by (simp add: bind_endpoint_def)

lemma pollInterval_bind_endpoint:
  "POLLING_OVERRIDE C = None \<Longrightarrow>
   pollInterval (fst (bind_endpoint C s k index pep)) = pollInterval s \<or>
   pollInterval (fst (bind_endpoint C s k index pep)) = bInterval pep
     \<and> pollInterval s < bInterval pep"
  by (simp add: bind_endpoint_def next_pollInterval_def)

lemma pollInterval_EndpointXtract:
  assumes "POLLING_OVERRIDE C = None"
  shows "pollInterval (fst (EndpointXtract C s conf iface alt proto pep)) = pollInterval s \<or>
     pollInterval (fst (EndpointXtract C s conf iface alt proto pep)) = bInterval pep
       \<and> pollInterval s < bInterval pep"
proof (cases rule: EndpointXtract_cases [where s = s and iface = iface and alt = alt
        and proto = proto and C = C and conf = conf and pep = pep])
  case full
  then show ?thesis by simp
next
  case new
  with pollInterval_bind_endpoint [OF assms,
      of "new_interface (s\<lparr>bConfNum := conf\<rparr>) iface alt proto"]
  show ?thesis by simp
next
  case (found k)
  with pollInterval_bind_endpoint [OF assms, of "s\<lparr>bConfNum := conf\<rparr>"]
  show ?thesis by simp
qed

section \<open>Runs of callbacks\<close>

lemma EndpointXtract_all_session_inv:
  "session_inv s \<Longrightarrow> session_inv (fst (EndpointXtract_all C s cs))"
proof (induction cs arbitrary: s)
  case Nil
  then show ?case by simp
next
  case (Cons c cs)
  let ?r = "EndpointXtract_call C s c"
  from Cons.prems have "session_inv (fst ?r)"
    unfolding EndpointXtract_call_def by (rule EndpointXtract_session_inv)
  then have "session_inv (fst (EndpointXtract_all C (fst ?r) cs))" by (rule Cons.IH)
  then show ?case by (simp add: Let_def)
qed

lemma session_inv_ctor: "shape raw \<Longrightarrow> session_inv (HIDComposite_ctor raw)"
  unfolding HIDComposite_ctor_def by (rule session_inv_Initialize) (simp add: shape_def)

lemma session_inv_fresh_obj [simp]: "session_inv fresh_obj"
  unfolding fresh_obj_def by (rule session_inv_ctor) simp

lemma session_inv_three_full [simp]: "session_inv three_full"
  unfolding three_full_def by (rule EndpointXtract_all_session_inv) simp

lemma tables_inv_fixtures [simp]: "tables_inv fresh_obj" "tables_inv three_full"
  by (simp_all add: session_invD(1))

lemma three_full_counts [simp]:
  "bNumIface three_full = 3" "bNumEP three_full = 7" "pollInterval three_full = 32"
  "bConfNum three_full = 1"
  by code_simp+

section \<open>What extraction leaves alone\<close>

lemma untouched_refl [simp]: "untouched s s"
  by (simp add: untouched_def)

lemma untouched_trans: "untouched s t \<Longrightarrow> untouched t u \<Longrightarrow> untouched s u"
  by (simp add: untouched_def)

lemma untouchedD:
  assumes "untouched s s'"
  shows "bAddress s' = bAddress s" "bPollEnable s' = bPollEnable s"
    "rptParsers s' = rptParsers s" "bHasReportId s' = bHasReportId s"
  using assms by (simp_all add: untouched_def)

lemma untouched_bind_endpoint: "untouched s (fst (bind_endpoint C s k index pep))"
  by (simp add: untouched_def bind_endpoint_def)

lemma untouched_EndpointXtract: "untouched s (fst (EndpointXtract C s conf iface alt proto pep))"
  by (cases rule: EndpointXtract_cases [of s iface alt proto C conf pep])
     (simp_all add: untouched_def bind_endpoint_def new_interface_def)

lemma untouched_EndpointXtract_all: "untouched s (fst (EndpointXtract_all C s cs))"
proof (induction cs arbitrary: s)
  case Nil
  show ?case by simp
next
  case (Cons c cs)
  have "untouched s (fst (EndpointXtract_call C s c))"
    by (simp add: EndpointXtract_call_def untouched_EndpointXtract)
  from untouched_trans [OF this Cons.IH] show ?case by (simp add: Let_def)
qed

lemma EndpointXtract_all_append:
  "EndpointXtract_all C s (xs @ ys) =
     (let r1 = EndpointXtract_all C s xs; r2 = EndpointXtract_all C (fst r1) ys
      in (fst r2, snd r1 @ snd r2))"
  by (induction xs arbitrary: s) (simp_all add: Let_def)

lemma tables_inv_session_updates [simp]:
  "tables_inv (s\<lparr>bPollEnable := b\<rparr>) = tables_inv s"
  "tables_inv (s\<lparr>bAddress := a\<rparr>) = tables_inv s"
  "tables_inv (s\<lparr>VID := v\<rparr>) = tables_inv s"
  "tables_inv (s\<lparr>PID := v\<rparr>) = tables_inv s"
  "tables_inv (s\<lparr>qNextPollTime := q\<rparr>) = tables_inv s"
  by (simp_all add: tables_inv_def shape_def)

lemma session_inv_session_updates [simp]:
  "session_inv (s\<lparr>bPollEnable := b\<rparr>) = session_inv s"
  "session_inv (s\<lparr>bAddress := a\<rparr>) = session_inv s"
  "session_inv (s\<lparr>VID := v\<rparr>) = session_inv s"
  "session_inv (s\<lparr>PID := v\<rparr>) = session_inv s"
  "session_inv (s\<lparr>qNextPollTime := q\<rparr>) = session_inv s"
  by (simp_all add: session_inv_def live_def)

lemma tables_inv_bNumEP_1: "tables_inv s \<Longrightarrow> tables_inv (s\<lparr>bNumEP := 1\<rparr>)"
  by (simp add: tables_inv_def shape_def totalEndpoints_eq)

lemma tables_inv_epInfo_update [simp]:
  "length xs = length (epInfo s) \<Longrightarrow> tables_inv (s\<lparr>epInfo := xs\<rparr>) = tables_inv s"
  by (simp add: tables_inv_def shape_def)

lemma session_inv_epInfo_update [simp]:
  "length xs = length (epInfo s) \<Longrightarrow> session_inv (s\<lparr>epInfo := xs\<rparr>) = session_inv s"
  by (simp add: session_inv_def live_def)

lemma tables_inv_length:
  "tables_inv s \<Longrightarrow> unat (bNumIface s) \<le> length (hidInterfaces s)"
  using tables_invD(5) [of s] shapeD(3) [OF tables_invD(1), of s] by simp

section \<open>The entry of an interface after a call\<close>

lemma FindInterface_new_entry:
  assumes inv: "tables_inv s" and inv': "tables_inv s'"
    and none: "FindInterface s iface alt proto = None" and lt: "bNumIface s < maxHidInterfaces"
    and keys: "map iface_key (live s') = map iface_key (live (new_interface s iface alt proto))"
  shows "FindInterface s' iface alt proto = Some (unat (bNumIface s))"
proof -
  have len: "length (hidInterfaces s) = unat maxHidInterfaces"
    using shapeD(3) [OF tables_invD(1) [OF inv]] by simp
  from lt have k: "unat (bNumIface s) < 3" by (simp add: word_less_nat_alt)
  have nokey: "(iface, alt, proto) \<notin> set (map iface_key (live s))"
    using none tables_invD(2) [OF inv] len by (rule FindInterface_None_key)
  have "map iface_key (live s') = map iface_key (live s) @ [(iface, alt, proto)]"
    unfolding keys using lt k len by (intro live_new_interface) simp_all
  moreover have "length (live s) = unat (bNumIface s)" using k len by (simp add: live_def)
  ultimately show ?thesis
    unfolding tables_inv_keys [OF inv'] using nokey
      first_index_append_new [of "map iface_key (live s)" "\<lambda>x. x = (iface, alt, proto)"
        "(iface, alt, proto)"]
    by force
qed

lemma FindInterface_same_keys:
  assumes "tables_inv s" and "tables_inv s'"
    and "map iface_key (live s') = map iface_key (live s)"
  shows "FindInterface s' iface alt proto = FindInterface s iface alt proto"
  unfolding tables_inv_keys [OF assms(1)] tables_inv_keys [OF assms(2)] assms(3) ..

lemma ep_role_in_entry:
  assumes "shape s" and "k < 3"
  shows "unat (ep_role C iface proto pep) < length (epIndex (hidInterfaces s ! k))"
  using ep_role_cases [of C iface proto pep] shapeD(5) [OF assms] by auto

section \<open>Properties\<close>

text \<open>
  C1. Capacity safety. Whatever sequence of endpoint callbacks the descriptor
  walker delivers to a newly constructed object, the object keeps the declared shape
  of its tables, the interface count never exceeds \<open>maxHidInterfaces\<close>, the
  endpoint count stays between 1 and \<open>totalEndpoints\<close>, every interrupt-IN role
  refers to an endpoint slot that has been filled, and no two live interface entries
  have the same key (interface, alternate setting, protocol).
\<close>

theorem extraction_within_capacity:
  assumes "shape raw" and "s' = fst (EndpointXtract_all C (HIDComposite_ctor raw) cs)"
  shows "shape s' \<and> bNumIface s' \<le> maxHidInterfaces \<and>
         1 \<le> bNumEP s' \<and> bNumEP s' \<le> totalEndpoints \<and>
         (\<forall>h \<in> set (hidInterfaces s'). in_role h < bNumEP s') \<and>
         distinct (map iface_key (live s'))"
proof -
  have "session_inv s'"
    unfolding assms(2) using assms(1) by (intro EndpointXtract_all_session_inv session_inv_ctor)
  then show ?thesis
    by (simp add: session_inv_def tables_inv_def list_all_iff)
qed

theorem extraction_within_capacity_witness:
  "shape (zero_obj :: nat HIDComposite) \<and>
   bNumIface (fst (EndpointXtract_all default_custom (HIDComposite_ctor zero_obj :: nat HIDComposite)
      five_interfaces)) = 3 \<and>
   bNumEP (fst (EndpointXtract_all default_custom (HIDComposite_ctor zero_obj :: nat HIDComposite)
      five_interfaces)) = 4 \<and>
   bNumIface (fst (EndpointXtract_all default_custom (HIDComposite_ctor zero_obj :: nat HIDComposite)
      five_interfaces)) \<le> maxHidInterfaces"
proof -
  have e: "bNumIface (fst (EndpointXtract_all default_custom (HIDComposite_ctor zero_obj :: nat HIDComposite)
      five_interfaces)) = 3"
    "bNumEP (fst (EndpointXtract_all default_custom (HIDComposite_ctor zero_obj :: nat HIDComposite)
      five_interfaces)) = 4"
    by code_simp+
  from extraction_within_capacity [OF shape_zero_obj refl, of default_custom five_interfaces,
      where ?'a = nat] e
  show ?thesis by simp
qed

text \<open>
  C6. A tracked endpoint (interrupt type, not vetoed) that finds room in both
  tables is bound: no message is printed, the configuration number is recorded, slot
  \<open>bNumEP\<close> of \<open>epInfo\<close> receives the endpoint number (low four bits of the
  address), the low byte of the maximum packet size, cleared toggles and the no-wait
  NAK policy, the role of the endpoint in the entry of its interface (found or newly
  created) is that slot, the endpoint count grows by one and the poll interval is
  updated.
\<close>

theorem EndpointXtract_binds:
  assumes inv: "tables_inv s"
    and role: "ep_role C iface proto pep \<noteq> 0"
    and room: "bNumEP s < totalEndpoints"
    and avail: "FindInterface s iface alt proto \<noteq> None \<or> bNumIface s < maxHidInterfaces"
    and run: "EndpointXtract C s conf iface alt proto pep = (s', ev)"
  shows "ev = [] \<and> bConfNum s' = conf \<and> bNumEP s' = bNumEP s + 1 \<and>
         epInfo s' = (epInfo s)[unat (bNumEP s) :=
            \<lparr>epAddr = bEndpointAddress pep AND 0x0F, maxPktSize = ucast (wMaxPacketSize pep),
             bmSndToggle = 0, bmRcvToggle = 0, bmNakPower = USB_NAK_NOWAIT\<rparr>] \<and>
         (\<exists>k. FindInterface s' iface alt proto = Some k \<and>
              epIndex (hidInterfaces s' ! k) ! unat (ep_role C iface proto pep) = bNumEP s) \<and>
         pollInterval s' = next_pollInterval C (pollInterval s) (bInterval pep)"
proof -
  let ?r = "ep_role C iface proto pep" and ?s1 = "s\<lparr>bConfNum := conf\<rparr>"
  have inv1: "tables_inv ?s1" using inv by simp
  have inv': "tables_inv s'"
    using EndpointXtract_tables_inv [OF inv, of C conf iface alt proto pep] run by simp
  note sh = tables_invD(1) [OF inv]
  show ?thesis
  proof (cases rule: EndpointXtract_cases [where s = s and iface = iface and alt = alt
        and proto = proto and C = C and conf = conf and pep = pep])
    case full
    with avail show ?thesis by (simp add: not_le [symmetric])
  next
    case new
    let ?n = "new_interface ?s1 iface alt proto" and ?k = "unat (bNumIface s)"
    from new(2) have k: "?k < 3" by (simp add: word_less_nat_alt)
    have b: "s' = fst (bind_endpoint C ?n ?k ?r pep)" "ev = snd (bind_endpoint C ?n ?k ?r pep)"
      using run new(3) by simp_all
    have pre: "bNumEP ?n < totalEndpoints" "?k < length (hidInterfaces ?n)"
      "unat ?r < length (epIndex (hidInterfaces ?n ! ?k))"
      using room k shapeD(3) [OF sh] ep_role_in_entry [OF sh k]
      by (simp_all add: epIndex_new_interface)
    have "FindInterface s' iface alt proto = Some (unat (bNumIface ?s1))"
      using inv1 inv' by (rule FindInterface_new_entry) (use new in \<open>simp_all add: b FindInterface_def\<close>)
    with bind_endpoint_bound [of ?r ?n ?k C pep, OF role pre] show ?thesis
      by (simp add: b fill_endpoint_eq epIndex_new_interface)
  next
    case (found k)
    from FindInterface_SomeD(2) [OF found(1)] have k: "k < 3" by simp
    have b: "s' = fst (bind_endpoint C ?s1 k ?r pep)" "ev = snd (bind_endpoint C ?s1 k ?r pep)"
      using run found(2) by simp_all
    have pre: "bNumEP ?s1 < totalEndpoints" "k < length (hidInterfaces ?s1)"
      "unat ?r < length (epIndex (hidInterfaces ?s1 ! k))"
      using room k shapeD(3) [OF sh] ep_role_in_entry [OF sh k] by simp_all
    have "map iface_key (live s') = map iface_key (live s)"
      by (simp add: b) (simp add: live_def)
    from FindInterface_same_keys [OF inv inv' this] found(1)
    have "FindInterface s' iface alt proto = Some k" by simp
    with bind_endpoint_bound [of ?r ?s1 k C pep, OF role pre] show ?thesis
      by (simp add: b fill_endpoint_eq)
  qed
qed

theorem EndpointXtract_binds_witness:
  "tables_inv fresh_obj \<and> ep_role default_custom 0 1 (int_in_ep 1 10) = epInterruptInIndex \<and>
   bNumEP fresh_obj < totalEndpoints \<and> bNumIface fresh_obj < maxHidInterfaces \<and>
   bNumEP (fst (EndpointXtract default_custom fresh_obj 1 0 0 1 (int_in_ep 1 10))) = 2 \<and>
   epInfo (fst (EndpointXtract default_custom fresh_obj 1 0 0 1 (int_in_ep 1 10))) ! 1
     = \<lparr>epAddr = 1, maxPktSize = 8, bmSndToggle = 0, bmRcvToggle = 0, bmNakPower = 1\<rparr> \<and>
   pollInterval (fst (EndpointXtract default_custom fresh_obj 1 0 0 1 (int_in_ep 1 10))) = 10"
proof -
  have r: "ep_role default_custom 0 1 (int_in_ep 1 10) = epInterruptInIndex" by code_simp
  then have r0: "ep_role default_custom 0 1 (int_in_ep 1 10) \<noteq> 0" by (simp add: roles_distinct)
  have room: "bNumEP fresh_obj < totalEndpoints" and av: "bNumIface fresh_obj < maxHidInterfaces"
    by (simp_all add: hid_const)
  from EndpointXtract_binds [OF tables_inv_fixtures(1) r0 room disjI2 [OF av] surjective_pairing,
      of 1 0]
  have "bNumEP (fst (EndpointXtract default_custom fresh_obj 1 0 0 1 (int_in_ep 1 10))) = 2"
    "epInfo (fst (EndpointXtract default_custom fresh_obj 1 0 0 1 (int_in_ep 1 10)))
       = (epInfo fresh_obj)[1 := \<lparr>epAddr = 1, maxPktSize = 8, bmSndToggle = 0, bmRcvToggle = 0,
            bmNakPower = 1\<rparr>]"
    "pollInterval (fst (EndpointXtract default_custom fresh_obj 1 0 0 1 (int_in_ep 1 10))) = 10"
    by (simp_all add: int_in_ep_def next_pollInterval_def default_custom_def hid_const)
  with r room av show ?thesis by simp
qed

text \<open>
  C30. Interface table full: a callback for an interface that has no entry, when
  \<open>maxHidInterfaces\<close> entries are in use, records the configuration number, prints
  the message and changes nothing else; the endpoint is dropped.
\<close>

theorem EndpointXtract_iface_full:
  assumes "FindInterface s iface alt proto = None" and "maxHidInterfaces \<le> bNumIface s"
  shows "EndpointXtract C s conf iface alt proto pep
     = (s\<lparr>bConfNum := conf\<rparr>, [NotifyIfaceFull (bNumIface s)])"
  using assms by (simp add: EndpointXtract_def)

theorem EndpointXtract_iface_full_witness:
  "FindInterface three_full 3 0 0 = None \<and> maxHidInterfaces \<le> bNumIface three_full \<and>
   EndpointXtract default_custom three_full 2 3 0 0 (int_in_ep 4 10)
     = (three_full\<lparr>bConfNum := 2\<rparr>, [NotifyIfaceFull 3])"
proof -
  have h1: "FindInterface three_full 3 0 0 = None" by code_simp
  have h2: "maxHidInterfaces \<le> bNumIface three_full" by (simp add: hid_const)
  from EndpointXtract_iface_full [OF h1 h2, of default_custom 2 "int_in_ep 4 10"] h1 h2
  show ?thesis by simp
qed

text \<open>
  C31. Endpoint table full: a tracked endpoint that arrives when \<open>totalEndpoints\<close>
  slots are in use prints the message and leaves the endpoint table, the endpoint
  count, the poll interval and every role array unchanged.
\<close>

theorem EndpointXtract_ep_full:
  assumes "totalEndpoints \<le> bNumEP s" and "ep_role C iface proto pep \<noteq> 0"
    and "FindInterface s iface alt proto \<noteq> None \<or> bNumIface s < maxHidInterfaces"
    and "EndpointXtract C s conf iface alt proto pep = (s', ev)"
  shows "ev = [NotifyEpFull (bNumEP s)] \<and> epInfo s' = epInfo s \<and> bNumEP s' = bNumEP s \<and>
         pollInterval s' = pollInterval s \<and>
         (\<forall>k. epIndex (hidInterfaces s' ! k) = epIndex (hidInterfaces s ! k))"
proof (cases rule: EndpointXtract_cases [where s = s and iface = iface and alt = alt
        and proto = proto and C = C and conf = conf and pep = pep])
  case full
  with assms(3) show ?thesis by (simp add: not_le [symmetric])
next
  case new
  with assms(1,2,4) show ?thesis
    by (auto simp: bind_endpoint_full epIndex_new_interface)
next
  case (found k)
  with assms(1,2,4) show ?thesis
    by (auto simp: bind_endpoint_full)
qed

theorem EndpointXtract_ep_full_witness:
  "totalEndpoints \<le> bNumEP three_full \<and> ep_role default_custom 2 0 (int_in_ep 5 10) \<noteq> 0 \<and>
   FindInterface three_full 2 0 0 \<noteq> None \<and>
   snd (EndpointXtract default_custom three_full 1 2 0 0 (int_in_ep 5 10)) = [NotifyEpFull 7] \<and>
   bNumEP (fst (EndpointXtract default_custom three_full 1 2 0 0 (int_in_ep 5 10))) = 7"
proof -
  have h1: "totalEndpoints \<le> bNumEP three_full" by (simp add: hid_const)
  have h2: "ep_role default_custom 2 0 (int_in_ep 5 10) \<noteq> 0" by code_simp
  have h3: "FindInterface three_full 2 0 0 \<noteq> None" by code_simp
  from EndpointXtract_ep_full [OF h1 h2 disjI1 [OF h3] surjective_pairing, of 1] h1 h2 h3
  show ?thesis by simp
qed

text \<open>
  C32. An endpoint without a role (not of interrupt type, or on an interface that
  \<open>SelectInterface\<close> vetoes) takes no endpoint slot and changes neither the poll
  interval nor any role array; its interface still takes an entry of the interface
  table when it has none and one is free.
\<close>

theorem EndpointXtract_untracked:
  assumes "ep_role C iface proto pep = 0"
    and "EndpointXtract C s conf iface alt proto pep = (s', ev)"
  shows "epInfo s' = epInfo s \<and> bNumEP s' = bNumEP s \<and> pollInterval s' = pollInterval s \<and>
         (\<forall>k. epIndex (hidInterfaces s' ! k) = epIndex (hidInterfaces s ! k)) \<and>
         bNumIface s' = (if FindInterface s iface alt proto = None
                           \<and> bNumIface s < maxHidInterfaces
                         then bNumIface s + 1 else bNumIface s)"
proof (cases rule: EndpointXtract_cases [where s = s and iface = iface and alt = alt
        and proto = proto and C = C and conf = conf and pep = pep])
  case full
  with assms show ?thesis by (auto simp: not_le [symmetric])
next
  case new
  with assms show ?thesis
    by (auto simp: bind_endpoint_def epIndex_new_interface) (simp add: new_interface_def)
next
  case (found k)
  with assms show ?thesis
    by (auto simp: bind_endpoint_def)
qed

theorem EndpointXtract_untracked_witness:
  "ep_role default_custom 0 0 (bulk_in_ep 1) = 0 \<and>
   bNumEP (fst (EndpointXtract default_custom fresh_obj 1 0 0 0 (bulk_in_ep 1))) = 1 \<and>
   bNumIface (fst (EndpointXtract default_custom fresh_obj 1 0 0 0 (bulk_in_ep 1))) = 1"
proof -
  have h1: "ep_role default_custom 0 0 (bulk_in_ep 1) = 0" by code_simp
  have h2: "FindInterface fresh_obj 0 0 0 = None" by code_simp
  from EndpointXtract_untracked [OF h1 surjective_pairing, of fresh_obj 1 0] h1 h2
  show ?thesis by (simp add: hid_const)
qed

text \<open>
  C34. Without \<open>POLLING_OVERRIDE\<close>, the poll interval never decreases over a run
  of callbacks, and when it changes it is the interval of one of the endpoints of
  the run.
\<close>

theorem pollInterval_run:
  assumes "POLLING_OVERRIDE C = None" and "s' = fst (EndpointXtract_all C s cs)"
  shows "pollInterval s \<le> pollInterval s' \<and>
         (pollInterval s' = pollInterval s \<or> pollInterval s' \<in> (bInterval \<circ> xc_pep) ` set cs)"
  using assms(2)
proof (induction cs arbitrary: s s')
  case Nil
  then show ?case by simp
next
  case (Cons c cs)
  let ?s1 = "fst (EndpointXtract_call C s c)"
  from Cons.prems have s': "s' = fst (EndpointXtract_all C ?s1 cs)" by (simp add: Let_def)
  note ih = Cons.IH [OF s']
  from pollInterval_EndpointXtract [OF assms(1), of s "xc_conf c" "xc_iface c" "xc_alt c"
      "xc_proto c" "xc_pep c"]
  have "pollInterval ?s1 = pollInterval s \<or>
      pollInterval ?s1 = bInterval (xc_pep c) \<and> pollInterval s < bInterval (xc_pep c)"
    by (simp add: EndpointXtract_call_def)
  with ih show ?case by auto
qed

theorem pollInterval_run_witness:
  "POLLING_OVERRIDE default_custom = None \<and>
   pollInterval fresh_obj \<le> pollInterval three_full \<and>
   pollInterval three_full \<in> (bInterval \<circ> xc_pep) ` set six_endpoints"
proof -
  have n: "POLLING_OVERRIDE default_custom = None" by (simp add: default_custom_def)
  from pollInterval_run [OF n three_full_def] n show ?thesis by simp
qed

text \<open>
  C17. \<open>FindInterface\<close> returns the index of the first live entry with the given
  key, and nothing when no live entry has it: the loop of lines 290-293 is a search
  of the first \<open>bNumIface\<close> entries.
\<close>

theorem FindInterface_finds_key:
  assumes "tables_inv s"
  shows "FindInterface s iface alt proto
     = first_index (\<lambda>h. iface_key h = (iface, alt, proto)) (live s)"
  using tables_invD(2) [OF assms] shapeD(3) [OF tables_invD(1) [OF assms]]
  by (intro FindInterface_first_index) simp_all

theorem FindInterface_finds_key_witness:
  "tables_inv three_full \<and> FindInterface three_full 1 0 2 = Some 1 \<and>
   first_index (\<lambda>h. iface_key h = (1, 0, 2)) (live three_full) = Some 1"
proof -
  have "FindInterface three_full 1 0 2 = Some 1" by code_simp
  with FindInterface_finds_key [OF tables_inv_fixtures(2), of 1 0 2] show ?thesis by simp
qed

text \<open>
  C33. Within a session every live entry is found under its own key, at its own
  index: an interface has at most one entry.
\<close>

theorem FindInterface_unique:
  assumes "session_inv s" and "k < unat (bNumIface s)"
  shows "FindInterface s (bmInterface (hidInterfaces s ! k)) (bmAltSet (hidInterfaces s ! k))
           (bmProtocol (hidInterfaces s ! k)) = Some k"
  using assms by (rule FindInterface_live_entry)

theorem FindInterface_unique_witness:
  "session_inv three_full \<and> 2 < unat (bNumIface three_full) \<and>
   FindInterface three_full (bmInterface (hidInterfaces three_full ! 2))
     (bmAltSet (hidInterfaces three_full ! 2)) (bmProtocol (hidInterfaces three_full ! 2)) = Some 2"
proof -
  have k: "2 < unat (bNumIface three_full)" by simp
  from FindInterface_unique [OF session_inv_three_full k] k show ?thesis by simp
qed

end
