(* ===== verification/HID_Transport.thy ===== *)
theory HID_Transport
  imports HID_Collab
begin

text \<open>
  The interface of the driver to the USB transport, the address pool and the clock.
  None of them is part of \<open>src/hidcomposite.cpp\<close>; the driver only calls them.
  A transport is a record of operations over a state of any type \<open>'e\<close>: each takes
  the arguments of the call of the source and the state, and returns what the call
  returns together with the next state. The driver's operations are stated for every
  such record and every state, so that each theorem holds whatever the transport and
  the attached device answer, in whatever order.

  A pointer to a device record of the pool is the address it was looked up with;
  the \<open>epinfo\<close> pointer of a record is null, this driver's \<open>epInfo\<close> table, or some
  other table. The endpoint toggles, which the transport maintains through that
  pointer during transfers, are not modelled: the driver never reads them.
\<close>

datatype epptr = NullEp | DriverEp | OtherEp nat

record 'e USB =
  GetUsbDevicePtr :: "'e \<Rightarrow> u8 \<Rightarrow> bool"
  dev_epinfo :: "'e \<Rightarrow> u8 \<Rightarrow> epptr"
  set_dev_epinfo :: "u8 \<Rightarrow> epptr \<Rightarrow> 'e \<Rightarrow> 'e"
  set_dev_lowspeed :: "u8 \<Rightarrow> bool \<Rightarrow> 'e \<Rightarrow> 'e"
  AllocAddress :: "u8 \<Rightarrow> bool \<Rightarrow> u8 \<Rightarrow> 'e \<Rightarrow> u8 \<times> 'e"
  FreeAddress :: "u8 \<Rightarrow> 'e \<Rightarrow> 'e"
  getDevDescr :: "u8 \<Rightarrow> u8 \<Rightarrow> u16 \<Rightarrow> 'e \<Rightarrow> (u8 \<times> u8 list) \<times> 'e"
  setAddr :: "u8 \<Rightarrow> u8 \<Rightarrow> u8 \<Rightarrow> 'e \<Rightarrow> u8 \<times> 'e"
  setEpInfoEntry :: "u8 \<Rightarrow> u8 \<Rightarrow> 'e \<Rightarrow> u8 \<times> 'e"
  getConfDescr :: "u8 \<Rightarrow> u8 \<Rightarrow> u8 \<Rightarrow> 'e \<Rightarrow> (u8 \<times> xtract_call list) \<times> 'e"
  setConf :: "u8 \<Rightarrow> u8 \<Rightarrow> u8 \<Rightarrow> 'e \<Rightarrow> u8 \<times> 'e"
  SetIdle :: "u8 \<Rightarrow> u8 \<Rightarrow> u8 \<Rightarrow> u8 \<Rightarrow> 'e \<Rightarrow> u8 \<times> 'e"
  inTransfer :: "u8 \<Rightarrow> u8 \<Rightarrow> u16 \<Rightarrow> 'e \<Rightarrow> (u8 \<times> u16 \<times> u8 list) \<times> 'e"
  outTransfer :: "u8 \<Rightarrow> u8 \<Rightarrow> u16 \<Rightarrow> u8 list \<Rightarrow> 'e \<Rightarrow> u8 \<times> 'e"
  millis :: "'e \<Rightarrow> u32 \<times> 'e"

text \<open>
  \<open>copy_into buf data\<close>: bytes written from the start of a buffer of fixed size.
  \<open>recv nbytes data buf\<close>: the buffer after a transfer that was asked for
  \<open>nbytes\<close> bytes and for which the device delivered \<open>data\<close>: the transport
  writes at most the bytes it was asked for. The model drops what does not fit the
  buffer; the driver's requests are compared with the size of its buffers in the
  polling theory.
\<close>

definition copy_into :: "u8 list \<Rightarrow> u8 list \<Rightarrow> u8 list" where
  "copy_into buf data = take (length buf) data @ drop (length data) buf"

definition recv :: "u16 \<Rightarrow> u8 list \<Rightarrow> u8 list \<Rightarrow> u8 list" where
  "recv nbytes data buf = copy_into buf (take (unat nbytes) data)"

lemma length_copy_into [simp]: "length (copy_into buf data) = length buf"
  by (simp add: copy_into_def)

lemma nth_copy_into:
  "i < length buf \<Longrightarrow>
   copy_into buf data ! i = (if i < length data then data ! i else buf ! i)"
  by (auto simp: copy_into_def nth_append)

lemma copy_into_Nil [simp]: "copy_into buf [] = buf"
  by (simp add: copy_into_def)

lemma length_recv [simp]: "length (recv nbytes data buf) = length buf"
  by (simp add: recv_def)

lemma nth_recv:
  "i < length buf \<Longrightarrow>
   recv nbytes data buf ! i = (if i < min (unat nbytes) (length data) then data ! i else buf ! i)"
  by (simp add: recv_def nth_copy_into)

lemma inTransfer_cases:
  obtains rcode n data e1 where "inTransfer U a ep n0 e = ((rcode, n, data), e1)"
  by (cases "inTransfer U a ep n0 e") auto

lemma getDevDescr_cases:
  obtains rcode data e1 where "getDevDescr U a ep n e = ((rcode, data), e1)"
  by (cases "getDevDescr U a ep n e") auto

lemma getConfDescr_cases:
  obtains rcode calls e1 where "getConfDescr U a ep i e = ((rcode, calls), e1)"
  by (cases "getConfDescr U a ep i e") auto

end
