(* ===== verification/HID_SimTransport.thy ===== *)
theory HID_SimTransport
  imports HID_Transport
begin

text \<open>
  A transport to run the driver against: an address pool, a clock, one attached
  device described by its descriptors and by what it answers on each IN endpoint,
  and a table of the result codes to inject. It records every call in order, so
  that a run of the driver shows which requests it made. It implements the
  interface of \<open>HID_Transport\<close> and is used where a statement about every transport
  is applied to a concrete one; it is not a model of the library's transport.
\<close>

datatype usb_op =
    OpAllocAddress u8 bool u8
  | OpFreeAddress u8
  | OpGetDevDescr u8 u8 u16
  | OpSetAddr u8 u8 u8
  | OpSetEpInfoEntry u8 u8
  | OpGetConfDescr u8 u8 u8
  | OpSetConf u8 u8 u8
  | OpSetIdle u8 u8 u8 u8
  | OpInTransfer u8 u8 u16
  | OpOutTransfer u8 u8 u16 "u8 list"
  | OpMillis

record sim =
  sim_trace :: "usb_op list"
  sim_clock :: u32
  sim_pool :: "(u8 \<times> epptr \<times> bool) list"
  sim_free :: "u8 list"
  sim_descr :: "u8 list"
  sim_confs :: "xtract_call list list"
  sim_in :: "u8 \<Rightarrow> u8 \<times> u16 \<times> u8 list"
  sim_fail :: "usb_op \<Rightarrow> u8"

definition called :: "usb_op \<Rightarrow> sim \<Rightarrow> sim" where
  "called c e = e\<lparr>sim_trace := sim_trace e @ [c]\<rparr>"

definition answer :: "usb_op \<Rightarrow> sim \<Rightarrow> u8 \<times> sim" where
  "answer c e = (sim_fail e c, called c e)"

definition pool_update :: "u8 \<Rightarrow> (epptr \<times> bool \<Rightarrow> epptr \<times> bool) \<Rightarrow> sim \<Rightarrow> sim" where
  "pool_update a f e =
     e\<lparr>sim_pool := map (\<lambda>r. if fst r = a then (a, f (snd r)) else r) (sim_pool e)\<rparr>"

definition sim_usb :: "sim USB" where
  "sim_usb =
     \<lparr>GetUsbDevicePtr = (\<lambda>e a. map_of (sim_pool e) a \<noteq> None),
      dev_epinfo = (\<lambda>e a. case map_of (sim_pool e) a of Some r \<Rightarrow> fst r | None \<Rightarrow> NullEp),
      set_dev_epinfo = (\<lambda>a p. pool_update a (\<lambda>r. (p, snd r))),
      set_dev_lowspeed = (\<lambda>a l. pool_update a (\<lambda>r. (fst r, l))),
      AllocAddress = (\<lambda>parent hub port e.
         case sim_free e of
           [] \<Rightarrow> (0, called (OpAllocAddress parent hub port) e)
         | a # as \<Rightarrow>
             (a, called (OpAllocAddress parent hub port)
                   (e\<lparr>sim_free := as, sim_pool := sim_pool e @ [(a, OtherEp 0, False)]\<rparr>))),
      FreeAddress = (\<lambda>a e.
         called (OpFreeAddress a)
           (if a = 0 then e
            else e\<lparr>sim_free := a # sim_free e,
                   sim_pool := filter (\<lambda>r. fst r \<noteq> a) (sim_pool e)\<rparr>)),
      getDevDescr = (\<lambda>a ep n e.
         ((sim_fail e (OpGetDevDescr a ep n), take (unat n) (sim_descr e)),
          called (OpGetDevDescr a ep n) e)),
      setAddr = (\<lambda>old ep new. answer (OpSetAddr old ep new)),
      setEpInfoEntry = (\<lambda>a n e.
         answer (OpSetEpInfoEntry a n) (pool_update a (\<lambda>r. (DriverEp, snd r)) e)),
      getConfDescr = (\<lambda>a ep i e.
         ((sim_fail e (OpGetConfDescr a ep i),
           if unat i < length (sim_confs e) then sim_confs e ! unat i else []),
          called (OpGetConfDescr a ep i) e)),
      setConf = (\<lambda>a ep c. answer (OpSetConf a ep c)),
      SetIdle = (\<lambda>a iface rid dur. answer (OpSetIdle a iface rid dur)),
      inTransfer = (\<lambda>a ep n e. (sim_in e ep, called (OpInTransfer a ep n) e)),
      outTransfer = (\<lambda>a ep n d. answer (OpOutTransfer a ep n d)),
      millis = (\<lambda>e. (sim_clock e, called OpMillis (e\<lparr>sim_clock := sim_clock e + 1\<rparr>)))\<rparr>"

text \<open>
  The transport at rest: only the record of address 0 in the pool, addresses 1 and
  2 free, no device attached, every call succeeding.
\<close>

definition sim_idle :: sim where
  "sim_idle =
     \<lparr>sim_trace = [], sim_clock = 0, sim_pool = [(0, OtherEp 0, False)], sim_free = [1, 2],
      sim_descr = [], sim_confs = [], sim_in = (\<lambda>_. (hrNAK, 0, [])), sim_fail = (\<lambda>_. 0)\<rparr>"

end
