(* ===== verification/HID_Polling.thy ===== *)
theory HID_Polling
  imports HID_Registry HID_Extractor HID_SimTransport
begin

text \<open>
  The polling engine: \<open>HIDComposite::ZeroMemory\<close> and \<open>HIDComposite::Poll\<close>
  (lines 368-428). \<open>Poll\<close> is modelled in the three layers the source nests: the
  deadline test around the loop (\<open>Poll\<close>), the loop over the live interface entries
  (\<open>Poll_loop\<close>, one \<open>Poll_iface\<close> per index) and the read and dispatch of one
  interface (\<open>Poll_read\<close>). The local buffer of \<open>constBuffLen\<close> bytes is a list
  handed from one iteration to the next, its contents on entry a parameter
  (\<open>buf0\<close>), since the source declares it without initialising it. The hooks and
  the trace are the events the call returns, in the order they are made.
\<close>

section \<open>ZeroMemory\<close>

definition ZeroMemory :: "u8 \<Rightarrow> u8 list \<Rightarrow> u8 list" where
  "ZeroMemory len buf = update_each (unat len) (\<lambda>_ _. 0) buf"

section \<open>Reading one interface\<close>

text \<open>
  Lines 390-423, for an interface whose interrupt-IN role is \<open>index\<close>. The request
  passes the packet size of the endpoint as the number of bytes wanted; the
  transport answers with a result code, the number of bytes it received and the
  bytes, of which at most the number asked for land in the zeroed buffer. The length handed to the hooks is
  clamped to \<open>constBuffLen\<close> and converted to a byte.
\<close>

definition Poll_read ::
  "'e USB \<Rightarrow> 'p HIDComposite \<Rightarrow> u8 \<Rightarrow> u8 list \<Rightarrow> 'e \<Rightarrow> 'e \<times> u8 list \<times> 'p hid_event list" where
  "Poll_read U s index buf e =
     (let ep = epInfo s ! unat index;
          read = (ucast (maxPktSize ep) :: u16);
          zeroed = ZeroMemory (ucast constBuffLen) buf;
          ((rcode, read', data), e') = inTransfer U (bAddress s) (epAddr ep) read e;
          buf' = recv read data zeroed
      in if rcode \<noteq> 0 then (e', buf', if rcode \<noteq> hrNAK then [PollTrace rcode] else [])
         else if read' = 0 then (e', buf', [])
         else
           let n = (if constBuffLen < read' then constBuffLen else read');
               report = ParseHIDData (epAddr ep) (bHasReportId s) (ucast n) buf'
           in (e', buf',
               report #
               (case GetReportParser s (if bHasReportId s then buf' ! 0 else 0) of
                  Some prs \<Rightarrow> [Parse prs (bHasReportId s) (ucast n) buf']
                | None \<Rightarrow> [])))"

text \<open>The loop body, lines 385-423: an interface without an IN role is skipped.\<close>

definition Poll_iface ::
  "'e USB \<Rightarrow> 'p HIDComposite \<Rightarrow> nat \<Rightarrow> u8 list \<Rightarrow> 'e \<Rightarrow> 'e \<times> u8 list \<times> 'p hid_event list" where
  "Poll_iface U s i buf e =
     (let index = in_role (hidInterfaces s ! i)
      in if index = 0 then (e, buf, []) else Poll_read U s index buf e)"

text \<open>
  The loop of line 384. No branch leaves it early, so it is a fold over the indices
  below \<open>bNumIface\<close> that threads the transport, the buffer and the events.
\<close>

definition Poll_step ::
  "'e USB \<Rightarrow> 'p HIDComposite \<Rightarrow> nat \<Rightarrow> 'e \<times> u8 list \<times> 'p hid_event list
     \<Rightarrow> 'e \<times> u8 list \<times> 'p hid_event list" where
  "Poll_step U s i st =
     (let (e, buf, ev) = st; (e', buf', ev') = Poll_iface U s i buf e
      in (e', buf', ev @ ev'))"

definition Poll_loop ::
  "'e USB \<Rightarrow> 'p HIDComposite \<Rightarrow> u8 list \<Rightarrow> 'e \<Rightarrow> 'e \<times> u8 list \<times> 'p hid_event list" where
  "Poll_loop U s buf e = for_upto (unat (bNumIface s)) (Poll_step U s) (e, buf, [])"

section \<open>Poll\<close>

text \<open>
  The deadline test of line 379: the difference of the two 32-bit times, read as a
  signed number.
\<close>

definition deadline_due :: "u32 \<Rightarrow> u32 \<Rightarrow> bool" where
  "deadline_due now due \<longleftrightarrow> 0 \<le> sint (now - due)"

text \<open>
  Lines 373-428. The value returned is the \<open>rcode\<close> declared at line 374; the
  result of the transfer is stored in a second \<open>rcode\<close>, declared inside the loop
  at line 394, so that the outer one is never assigned. The clock is read once for
  the deadline test and once more for the next deadline.
\<close>

definition Poll ::
  "'e USB \<Rightarrow> u8 list \<Rightarrow> 'p HIDComposite \<Rightarrow> 'e \<Rightarrow> u8 \<times> 'p HIDComposite \<times> 'e \<times> 'p hid_event list" where
  "Poll U buf0 s e =
     (let rcode = (0 :: u8)
      in if \<not> bPollEnable s then (0, s, e, [])
         else
           let (now, e1) = millis U e
           in if deadline_due now (qNextPollTime s) then
                let (now', e2) = millis U e1;
                    s' = s\<lparr>qNextPollTime := now' + ucast (pollInterval s)\<rparr>;
                    (e3, buf, ev) = Poll_loop U s' buf0 e2
                in (rcode, s', e3, ev)
              else (rcode, s, e1, []))"

section \<open>What a poll promises\<close>

text \<open>
  The interrupt-IN endpoints a poll serves: the IN roles of the live interface
  entries, in table order, without the entries that have none. \<open>serve\<close> reads
  them one after the other.
\<close>

definition bound_inputs :: "'p HIDComposite \<Rightarrow> u8 list" where
  "bound_inputs s = filter (\<lambda>k. k \<noteq> 0) (map in_role (live s))"

fun serve ::
  "'e USB \<Rightarrow> 'p HIDComposite \<Rightarrow> u8 list \<Rightarrow> 'e \<times> u8 list \<times> 'p hid_event list
     \<Rightarrow> 'e \<times> u8 list \<times> 'p hid_event list" where
  "serve U s [] st = st"
| "serve U s (k # ks) (e, buf, ev) =
     (let (e', buf', ev') = Poll_read U s k buf e in serve U s ks (e', buf', ev @ ev'))"

text \<open>
  A report event fits when the length it announces is within the buffer it carries
  and the buffer has \<open>constBuffLen\<close> bytes.
\<close>

fun event_fits :: "'p hid_event \<Rightarrow> bool" where
  "event_fits (ParseHIDData ep rid n buf) \<longleftrightarrow>
     unat n \<le> length buf \<and> length buf = unat constBuffLen"
| "event_fits (Parse prs rid n buf) \<longleftrightarrow>
     unat n \<le> length buf \<and> length buf = unat constBuffLen"
| "event_fits _ \<longleftrightarrow> True"

section \<open>A composite device being polled\<close>

text \<open>
  The witnesses poll an object with two registered parsers and the three
  interfaces of \<open>six_endpoints\<close>, bound to address 1, polling enabled, the next poll
  due at time 100. The device answers a three-byte report with identifier 2 on
  endpoint 1, NAK on endpoint 2 and the error 0x0D on endpoint 3. \<open>stale_buf\<close> is
  a buffer with old contents.
\<close>

definition poll_obj :: "nat HIDComposite" where
  "poll_obj =
     (fst (EndpointXtract_all default_custom reg2 six_endpoints))
       \<lparr>bAddress := 1, qNextPollTime := 100, bPollEnable := True\<rparr>"

definition poll_env :: "u32 \<Rightarrow> sim" where
  "poll_env now =
     sim_idle\<lparr>sim_clock := now,
       sim_in := (\<lambda>ep. if ep = 1 then (0, 3, [2, 0xAA, 0xBB])
                       else if ep = 2 then (hrNAK, 0, []) else (0x0D, 0, []))\<rparr>"

definition stale_buf :: "u8 list" where
  "stale_buf = replicate 64 0xEE"

definition report_buf :: "u8 list" where
  "report_buf = [2, 0xAA, 0xBB] @ replicate 61 0"


section \<open>The buffer and one read\<close>

lemma ZeroMemory_zeroes:
  "length buf = unat constBuffLen \<Longrightarrow>
   ZeroMemory (ucast constBuffLen) buf = replicate (unat constBuffLen) 0"
  by (simp add: ZeroMemory_def constBuffLen_def update_each_const)

lemma length_ZeroMemory [simp]: "length (ZeroMemory n buf) = length buf"
  by (simp add: ZeroMemory_def)

lemma Poll_read_cases [consumes 1, case_names failed empty report]:
  assumes run: "Poll_read U s index buf e = (e', buf', ev)"
    and tr: "inTransfer U (bAddress s) (epAddr (epInfo s ! unat index))
               (ucast (maxPktSize (epInfo s ! unat index))) e = ((rcode, n, data), e1)"
  obtains
    "rcode \<noteq> 0" "ev = (if rcode \<noteq> hrNAK then [PollTrace rcode] else [])"
  | "rcode = 0" "n = 0" "ev = []"
  | "rcode = 0" "n \<noteq> 0"
    "ev = ParseHIDData (epAddr (epInfo s ! unat index)) (bHasReportId s)
            (ucast (if constBuffLen < n then constBuffLen else n)) buf' #
          (case GetReportParser s (if bHasReportId s then buf' ! 0 else 0) of
             Some prs \<Rightarrow> [Parse prs (bHasReportId s)
                (ucast (if constBuffLen < n then constBuffLen else n)) buf']
           | None \<Rightarrow> [])"
  using run tr by (auto simp: Poll_read_def Let_def split: if_splits)

lemma Poll_read_env_buf:
  assumes tr: "inTransfer U (bAddress s) (epAddr (epInfo s ! unat index))
               (ucast (maxPktSize (epInfo s ! unat index))) e = ((rcode, n, data), e1)"
  shows "fst (Poll_read U s index buf e) = e1"
    "fst (snd (Poll_read U s index buf e))
       = recv (ucast (maxPktSize (epInfo s ! unat index))) data (ZeroMemory (ucast constBuffLen) buf)"
  using tr by (auto simp: Poll_read_def Let_def)

lemma length_Poll_read_buf [simp]:
  "length (fst (snd (Poll_read U s index buf e))) = length buf"
  by (rule inTransfer_cases [of U "bAddress s" "epAddr (epInfo s ! unat index)"
        "ucast (maxPktSize (epInfo s ! unat index))" e])
     (simp add: Poll_read_env_buf)

lemma clamp_fits:
  fixes n :: u16
  shows "unat (ucast (if constBuffLen < n then constBuffLen else n) :: u8) \<le> unat constBuffLen"
  by (auto simp: constBuffLen_def unsigned_ucast_eq word_less_nat_alt not_less
      intro: order_trans [OF take_bit_nat_less_eq_self])

lemma Poll_read_events_fit:
  assumes "length buf = unat constBuffLen"
  shows "list_all event_fits (snd (snd (Poll_read U s index buf e)))"
proof -
  obtain rcode n data e1 where tr:
    "inTransfer U (bAddress s) (epAddr (epInfo s ! unat index))
       (ucast (maxPktSize (epInfo s ! unat index))) e = ((rcode, n, data), e1)"
    by (rule inTransfer_cases)
  obtain e' buf' ev where run: "Poll_read U s index buf e = (e', buf', ev)"
    by (metis prod_cases3)
  from run have len: "length buf' = unat constBuffLen"
    using length_Poll_read_buf [of U s index buf e] assms by simp
  from run tr show ?thesis
    by (cases rule: Poll_read_cases) (auto simp: run len clamp_fits split: option.splits)
qed

section \<open>The loop reads the bound interrupt-IN endpoints in order\<close>

lemma Poll_loop_fold:
  "Poll_loop U s buf e = fold (Poll_step U s) [0..<unat (bNumIface s)] (e, buf, [])"
  by (simp add: Poll_loop_def for_upto_def)

lemma serve_fold:
  "serve U s ks st =
   fold (\<lambda>k (e, buf, ev). let (e', buf', ev') = Poll_read U s k buf e in (e', buf', ev @ ev')) ks st"
  by (induction U s ks st rule: serve.induct) (simp_all add: Let_def split: prod.splits)

lemma Poll_loop_serve:
  assumes "unat (bNumIface s) \<le> length (hidInterfaces s)"
  shows "Poll_loop U s buf e = serve U s (bound_inputs s) (e, buf, [])"
proof -
  let ?f = "\<lambda>k (e, buf, ev). let (e', buf', ev') = Poll_read U s k buf e in (e', buf', ev @ ev')"
  let ?g = "\<lambda>k st. if k = 0 then st else ?f k st"
  have step: "Poll_step U s = (\<lambda>i. ?g (in_role (hidInterfaces s ! i)))"
    by (auto simp: Poll_step_def Poll_iface_def Let_def fun_eq_iff split: prod.splits)
  have "Poll_loop U s buf e = fold (\<lambda>i. ?g (in_role (hidInterfaces s ! i))) [0..<unat (bNumIface s)] (e, buf, [])"
    by (simp add: Poll_loop_fold step)
  also have "\<dots> = fold (\<lambda>h. ?g (in_role h)) (live s) (e, buf, [])"
    unfolding live_def using assms
    by (rule fold_nth_take [where g = "\<lambda>h. ?g (in_role h)"])
  also have "\<dots> = fold ?g (map in_role (live s)) (e, buf, [])"
    by (simp add: fold_map comp_def)
  also have "\<dots> = fold ?g (bound_inputs s) (e, buf, [])"
    unfolding bound_inputs_def by (rule fold_filter_skip [symmetric]) simp
  also have "\<dots> = fold ?f (bound_inputs s) (e, buf, [])"
    by (rule fold_cong) (auto simp: bound_inputs_def)
  finally show ?thesis by (simp add: serve_fold)
qed

lemma Poll_step_fits:
  assumes "length buf = unat constBuffLen" "list_all event_fits ev"
    and "Poll_step U s i (e, buf, ev) = (e', buf', ev')"
  shows "length buf' = unat constBuffLen \<and> list_all event_fits ev'"
proof (cases "in_role (hidInterfaces s ! i) = 0")
  case True
  with assms show ?thesis by (simp add: Poll_step_def Poll_iface_def)
next
  case False
  let ?r = "Poll_read U s (in_role (hidInterfaces s ! i)) buf e"
  from False assms(3) have "buf' = fst (snd ?r)" "ev' = ev @ snd (snd ?r)"
    by (auto simp: Poll_step_def Poll_iface_def Let_def split: prod.splits)
  with assms(1,2) Poll_read_events_fit [OF assms(1), of U s _ e] show ?thesis by simp
qed

lemma Poll_loop_fits:
  fixes U :: "'e USB" and s :: "'p HIDComposite"
  assumes "length buf = unat constBuffLen"
  shows "list_all event_fits (snd (snd (Poll_loop U s buf e)))"
proof -
  let ?P = "\<lambda>st :: 'e \<times> u8 list \<times> 'p hid_event list.
    length (fst (snd st)) = unat constBuffLen \<and> list_all event_fits (snd (snd st))"
  have "?P (Poll_loop U s buf e)"
    unfolding Poll_loop_def
  proof (rule for_upto_invariant [where P = ?P])
    show "?P (e, buf, [])" using assms by simp
  next
    fix i and t :: "'e \<times> u8 list \<times> 'p hid_event list" assume "?P t"
    then show "?P (Poll_step U s i t)"
      using Poll_step_fits [of "fst (snd t)" "snd (snd t)" U s i "fst t"]
      by (cases t; cases "Poll_step U s i t") auto
  qed
  then show ?thesis by simp
qed

section \<open>The branches of Poll and the deadline\<close>

lemma Poll_unfold:
  "Poll U buf0 s e =
     (if \<not> bPollEnable s then (0, s, e, [])
      else if deadline_due (fst (millis U e)) (qNextPollTime s) then
        let s' = s\<lparr>qNextPollTime := fst (millis U (snd (millis U e))) + ucast (pollInterval s)\<rparr>;
            r = Poll_loop U s' buf0 (snd (millis U (snd (millis U e))))
        in (0, s', fst r, snd (snd r))
      else (0, s, snd (millis U e), []))"
  by (simp add: Poll_def Let_def case_prod_beta)

lemma Poll_cases [case_names disabled early due]:
  obtains "\<not> bPollEnable s" "Poll U buf0 s e = (0, s, e, [])"
  | "bPollEnable s" "\<not> deadline_due (fst (millis U e)) (qNextPollTime s)"
    "Poll U buf0 s e = (0, s, snd (millis U e), [])"
  | s' where "bPollEnable s" "deadline_due (fst (millis U e)) (qNextPollTime s)"
    "s' = s\<lparr>qNextPollTime := fst (millis U (snd (millis U e))) + ucast (pollInterval s)\<rparr>"
    "Poll U buf0 s e =
       (0, s', fst (Poll_loop U s' buf0 (snd (millis U (snd (millis U e))))),
        snd (snd (Poll_loop U s' buf0 (snd (millis U (snd (millis U e)))))))"
  by (cases "bPollEnable s"; cases "deadline_due (fst (millis U e)) (qNextPollTime s)")
     (simp_all add: Poll_unfold Let_def)

lemma bound_inputs_qNextPollTime [simp]:
  "bound_inputs (s\<lparr>qNextPollTime := q\<rparr>) = bound_inputs s"
  by (simp add: bound_inputs_def live_def)

lemma deadline_due_offset:
  fixes due :: u32
  assumes "- (2 ^ 31) \<le> d" "d < 2 ^ 31"
  shows "deadline_due (due + word_of_int d) due \<longleftrightarrow> 0 \<le> d"
proof -
  have "sint (word_of_int d :: u32) = d"
    using assms by (simp add: sint_sbintrunc' signed_take_bit_int_eq_self_iff)
  then show ?thesis by (simp add: deadline_due_def)
qed

lemma deadline_due_after:
  fixes t :: u32
  assumes "d < 2 ^ 31" "k < 2 ^ 31"
  shows "deadline_due (t + of_nat d) (t + of_nat k) \<longleftrightarrow> k \<le> d"
proof -
  have "t + of_nat d = (t + of_nat k) + word_of_int (int d - int k)" by simp
  moreover have "- (2 ^ 31) \<le> int d - int k" "int d - int k < 2 ^ 31"
    using assms by simp_all
  ultimately show ?thesis
    using deadline_due_offset [of "int d - int k" "t + of_nat k"] by simp
qed

section \<open>Facts about the polled device\<close>

lemma poll_obj_facts:
  "tables_inv poll_obj" "registry_inv (rptParsers poll_obj)" "bHasReportId poll_obj"
  "bPollEnable poll_obj" "length stale_buf = unat constBuffLen"
  "pollInterval poll_obj = 32" "bound_inputs poll_obj = [1, 3, 5]"
  by code_simp+

lemma poll_env_clock:
  "fst (millis sim_usb (poll_env t)) = t"
  "fst (millis sim_usb (snd (millis sim_usb (poll_env t)))) = t + 1"
  by (simp_all add: sim_usb_def poll_env_def called_def)

lemma deadline_due_poll_obj:
  "deadline_due 100 (qNextPollTime poll_obj)" "\<not> deadline_due 99 (qNextPollTime poll_obj)"
  by code_simp+

lemma poll_env_transfer:
  "inTransfer sim_usb (bAddress poll_obj) (epAddr (epInfo poll_obj ! unat (1 :: u8)))
     (ucast (maxPktSize (epInfo poll_obj ! unat (1 :: u8)))) (poll_env 100)
     = ((0, 3, [2, 0xAA, 0xBB]), called (OpInTransfer 1 1 8) (poll_env 100))"
proof -
  have "epAddr (epInfo poll_obj ! unat (1 :: u8)) = 1"
    "maxPktSize (epInfo poll_obj ! unat (1 :: u8)) = 8" "bAddress poll_obj = 1"
    by code_simp+
  then show ?thesis by (simp add: sim_usb_def poll_env_def)
qed

section \<open>Properties\<close>

text \<open>
  C3. A poll that is due serves exactly the interrupt-IN endpoints bound to live
  interface entries, each once, in table order, whatever the earlier transfers
  returned: on a well-formed table, \<open>Poll\<close> reads the clock twice, moves the
  deadline to the second reading plus \<open>pollInterval\<close>, and then behaves as
  \<open>serve\<close> on \<open>bound_inputs\<close>. No other field of the object changes.
\<close>

theorem Poll_due_serves:
  assumes inv: "tables_inv s" and en: "bPollEnable s"
    and due: "deadline_due (fst (millis U e)) (qNextPollTime s)"
    and s': "s' = s\<lparr>qNextPollTime := fst (millis U (snd (millis U e))) + ucast (pollInterval s)\<rparr>"
    and r: "r = serve U s' (bound_inputs s) (snd (millis U (snd (millis U e))), buf0, [])"
  shows "Poll U buf0 s e = (0, s', fst r, snd (snd r))"
proof (cases rule: Poll_cases [of s U buf0 e])
  case (due t)
  have "unat (bNumIface s') \<le> length (hidInterfaces s')"
    using tables_invD(5) [OF inv] shapeD(3) [OF tables_invD(1) [OF inv]] by (simp add: s')
  from Poll_loop_serve [OF this, of U buf0 "snd (millis U (snd (millis U e)))"] due s' r
  show ?thesis by simp
qed (use en due in simp_all)

theorem Poll_due_serves_witness:
  "tables_inv poll_obj \<and> bPollEnable poll_obj \<and>
   deadline_due (fst (millis sim_usb (poll_env 100))) (qNextPollTime poll_obj) \<and>
   Poll sim_usb stale_buf poll_obj (poll_env 100) =
     (0, poll_obj\<lparr>qNextPollTime := 133\<rparr>,
      fst (serve sim_usb (poll_obj\<lparr>qNextPollTime := 133\<rparr>) [1, 3, 5]
             (snd (millis sim_usb (snd (millis sim_usb (poll_env 100)))), stale_buf, [])),
      snd (snd (serve sim_usb (poll_obj\<lparr>qNextPollTime := 133\<rparr>) [1, 3, 5]
             (snd (millis sim_usb (snd (millis sim_usb (poll_env 100)))), stale_buf, []))))"
proof -
  have d: "deadline_due (fst (millis sim_usb (poll_env 100))) (qNextPollTime poll_obj)"
    by (simp add: poll_env_clock deadline_due_poll_obj)
  from Poll_due_serves [OF poll_obj_facts(1) poll_obj_facts(4) d refl refl, of stale_buf]
    d poll_obj_facts
  show ?thesis by (simp add: poll_env_clock)
qed

text \<open>
  C7. Every report handed to \<open>ParseHIDData\<close> or to a parser by a poll announces
  a length of at most \<open>constBuffLen\<close> and comes with a buffer of exactly that
  size, whatever length the transport reports.
\<close>

theorem Poll_events_fit:
  assumes "length buf0 = unat constBuffLen"
  shows "list_all event_fits (snd (snd (snd (Poll U buf0 s e))))"
  by (cases rule: Poll_cases [of s U buf0 e]) (simp_all add: Poll_loop_fits [OF assms])

theorem Poll_events_fit_witness:
  "length stale_buf = unat constBuffLen \<and>
   list_all event_fits (snd (snd (snd (Poll sim_usb stale_buf poll_obj (poll_env 100))))) \<and>
   snd (snd (snd (Poll sim_usb stale_buf poll_obj (poll_env 100)))) =
     [ParseHIDData 1 True 3 report_buf, Parse 20 True 3 report_buf, PollTrace 0x0D]"
proof -
  have "snd (snd (snd (Poll sim_usb stale_buf poll_obj (poll_env 100)))) =
     [ParseHIDData 1 True 3 report_buf, Parse 20 True 3 report_buf, PollTrace 0x0D]"
    by code_simp
  with Poll_events_fit [OF poll_obj_facts(5), of sim_usb poll_obj "poll_env 100"] poll_obj_facts(5)
  show ?thesis by simp
qed

text \<open>
  C14. Dispatch. When the transfer of an interface succeeds with a non-empty result on
  a device that frames its reports, the raw hook \<open>ParseHIDData\<close> is called first,
  and then the parser that the registry binds to the first byte of the buffer, if
  there is one; both receive the clamped length and the same buffer.
\<close>

theorem Poll_read_dispatch:
  assumes reg: "registry_inv (rptParsers s)" and framed: "bHasReportId s"
    and tr: "inTransfer U (bAddress s) (epAddr (epInfo s ! unat index))
           (ucast (maxPktSize (epInfo s ! unat index))) e = ((0, n, data), e1)"
    and n: "n \<noteq> 0"
    and run: "Poll_read U s index buf e = (e', buf', ev)"
  shows "ev = ParseHIDData (epAddr (epInfo s ! unat index)) True
                (ucast (if constBuffLen < n then constBuffLen else n)) buf' #
              (case resolve_spec (bindings (rptParsers s)) (buf' ! 0) of
                 Some prs \<Rightarrow> [Parse prs True
                    (ucast (if constBuffLen < n then constBuffLen else n)) buf']
               | None \<Rightarrow> [])"
  using run tr
  by (cases rule: Poll_read_cases)
     (use n framed GetReportParser_resolve [OF reg framed] in \<open>auto split: option.splits\<close>)

theorem Poll_read_dispatch_witness:
  "registry_inv (rptParsers poll_obj) \<and> bHasReportId poll_obj \<and>
   snd (snd (Poll_read sim_usb poll_obj 1 stale_buf (poll_env 100))) =
     [ParseHIDData 1 True 3 report_buf, Parse 20 True 3 report_buf]"
proof -
  let ?r = "Poll_read sim_usb poll_obj 1 stale_buf (poll_env 100)"
  have run: "?r = (fst ?r, fst (snd ?r), snd (snd ?r))" by simp
  have "fst (snd ?r) = report_buf" "epAddr (epInfo poll_obj ! unat (1 :: u8)) = 1"
    "resolve_spec (bindings (rptParsers poll_obj)) (report_buf ! 0) = Some 20"
    "\<not> constBuffLen < 3"
    by code_simp+
  with Poll_read_dispatch [OF poll_obj_facts(2,3) poll_env_transfer _ run] poll_obj_facts(2,3)
  show ?thesis by simp
qed

text \<open>
  C9. The buffer is cleared before every transfer: what a read leaves in it is the
  data of that transfer followed by zeros, whatever it held before (the report of
  another interface, or the contents of the stack).
\<close>

theorem Poll_read_buffer_zeroed:
  assumes "length buf = unat constBuffLen"
    and "inTransfer U (bAddress s) (epAddr (epInfo s ! unat index))
           (ucast (maxPktSize (epInfo s ! unat index))) e = ((rcode, n, data), e1)"
  shows "fst (snd (Poll_read U s index buf e))
           = recv (ucast (maxPktSize (epInfo s ! unat index))) data (replicate (unat constBuffLen) 0)"
  using assms by (simp add: Poll_read_env_buf ZeroMemory_zeroes)

theorem Poll_read_buffer_zeroed_witness:
  "length stale_buf = unat constBuffLen \<and>
   fst (snd (Poll_read sim_usb poll_obj 1 stale_buf (poll_env 100))) = report_buf"
proof -
  have "recv (ucast (maxPktSize (epInfo poll_obj ! unat (1 :: u8)))) [2, 0xAA, 0xBB]
      (replicate (unat constBuffLen) 0) = report_buf"
    by code_simp
  with Poll_read_buffer_zeroed [OF poll_obj_facts(5) poll_env_transfer] poll_obj_facts(5)
  show ?thesis by simp
qed

text \<open>
  C29. A poll that is disabled, or not yet due, makes no transfer and calls no hook:
  the object is unchanged, and the transport has seen at most the one reading of
  the clock.
\<close>

theorem Poll_idle:
  assumes "\<not> bPollEnable s \<or> \<not> deadline_due (fst (millis U e)) (qNextPollTime s)"
  shows "fst (snd (Poll U buf0 s e)) = s \<and> snd (snd (snd (Poll U buf0 s e))) = [] \<and>
         fst (snd (snd (Poll U buf0 s e))) = (if bPollEnable s then snd (millis U e) else e)"
  using assms by (cases rule: Poll_cases [of s U buf0 e]) simp_all

theorem Poll_idle_witness:
  "\<not> deadline_due (fst (millis sim_usb (poll_env 99))) (qNextPollTime poll_obj) \<and>
   fst (snd (Poll sim_usb stale_buf poll_obj (poll_env 99))) = poll_obj \<and>
   snd (snd (snd (Poll sim_usb stale_buf poll_obj (poll_env 99)))) = [] \<and>
   sim_trace (fst (snd (snd (Poll sim_usb stale_buf poll_obj (poll_env 99))))) = [OpMillis]"
proof -
  have d: "\<not> deadline_due (fst (millis sim_usb (poll_env 99))) (qNextPollTime poll_obj)"
    by (simp add: poll_env_clock deadline_due_poll_obj)
  have "sim_trace (snd (millis sim_usb (poll_env 99))) = [OpMillis]" by code_simp
  with Poll_idle [of poll_obj sim_usb "poll_env 99" stale_buf] d poll_obj_facts(4)
  show ?thesis by simp
qed

text \<open>
  C15. Rate limiting. After a poll that was due, a poll \<open>d\<close> milliseconds after
  the second clock reading is due exactly when \<open>d\<close> is at least \<open>pollInterval\<close>,
  for every \<open>d\<close> below \<open>2^31\<close> and wherever the 32-bit clock wraps.
\<close>

theorem Poll_next_deadline:
  assumes en: "bPollEnable s" and due: "deadline_due (fst (millis U e)) (qNextPollTime s)"
    and now: "now = fst (millis U (snd (millis U e)))"
    and s': "s' = fst (snd (Poll U sbuf s e))"
    and d: "d < 2 ^ 31"
  shows "deadline_due (now + of_nat d) (qNextPollTime s') \<longleftrightarrow> unat (pollInterval s) \<le> d"
proof -
  have q: "qNextPollTime s' = now + of_nat (unat (pollInterval s))"
    using en due by (cases rule: Poll_cases [of s U sbuf e]) (simp_all add: s' now)
  have "unat (pollInterval s) < 2 ^ 31"
    by (rule less_trans [OF unat_u8_less]) simp
  from deadline_due_after [OF d this] show ?thesis by (simp only: q)
qed

theorem Poll_next_deadline_witness:
  "bPollEnable poll_obj \<and>
   deadline_due (fst (millis sim_usb (poll_env 100))) (qNextPollTime poll_obj) \<and>
   \<not> deadline_due 132 (qNextPollTime (fst (snd (Poll sim_usb stale_buf poll_obj (poll_env 100))))) \<and>
   deadline_due 133 (qNextPollTime (fst (snd (Poll sim_usb stale_buf poll_obj (poll_env 100)))))"
proof -
  have d: "deadline_due (fst (millis sim_usb (poll_env 100))) (qNextPollTime poll_obj)"
    by (simp add: poll_env_clock deadline_due_poll_obj)
  note nd = Poll_next_deadline [OF poll_obj_facts(4) d refl refl, where sbuf = stale_buf]
  from nd [of 31] nd [of 32] d poll_obj_facts(4,6) show ?thesis
    by (simp add: poll_env_clock)
qed

text \<open>
  The deadline test survives the wrap of the 32-bit clock: when the time is
  \<open>d\<close> milliseconds from the deadline, \<open>d\<close> in the signed 32-bit range, the
  deadline counts as reached exactly when \<open>d\<close> is not negative.
\<close>

lemma deadline_wraparound:
  fixes due :: u32
  assumes "- (2 ^ 31) \<le> d" "d < 2 ^ 31"
  shows "deadline_due (due + word_of_int d) due \<longleftrightarrow> 0 \<le> d"
  using assms by (rule deadline_due_offset)

lemma deadline_wraparound_witness:
  "- (2 ^ 31) \<le> (32 :: int) \<and> (32 :: int) < 2 ^ 31 \<and> deadline_due 0x10 0xFFFFFFF0 \<and>
   - (2 ^ 31) \<le> (- 32 :: int) \<and> \<not> deadline_due 0xFFFFFFF0 0x10"
proof -
  have e: "(0xFFFFFFF0 :: u32) + word_of_int 32 = 0x10"
    "(0x10 :: u32) + word_of_int (- 32) = 0xFFFFFFF0"
    by simp_all
  have "deadline_due 0x10 0xFFFFFFF0"
    using deadline_wraparound [of 32 "0xFFFFFFF0"] unfolding e by simp
  moreover have "\<not> deadline_due 0xFFFFFFF0 0x10"
    using deadline_wraparound [of "- 32" "0x10"] unfolding e by simp
  ultimately show ?thesis by simp
qed

text \<open>
  C24. \<open>Poll\<close> returns 0 on every path, also when transfers fail: the result of a
  transfer is kept in the variable of the loop body, which hides the one that is
  returned.
\<close>

theorem Poll_returns_zero: "fst (Poll U buf0 s e) = 0"
  by (cases rule: Poll_cases [of s U buf0 e]) simp_all


end
