(* ===== verification/HID_Release.thy ===== *)
theory HID_Release
  imports HID_Extractor HID_SimTransport
begin

text \<open>
  The end of a session and the output path: \<open>HIDComposite::Release\<close> (lines
  358-366) and \<open>HIDComposite::SndRpt\<close> (lines 430-433). \<open>Release\<close> frees the
  address and resets four fields; the tables keep what enumeration wrote, which
  is why the lemmas here separate what is reset from what stays.
\<close>

section \<open>Release\<close>

definition Release :: "'e USB \<Rightarrow> 'p HIDComposite \<Rightarrow> 'e \<Rightarrow> u8 \<times> 'p HIDComposite \<times> 'e" where
  "Release U s e =
     (let e' = FreeAddress U (bAddress s) e
      in (0, s\<lparr>bNumEP := 1, bAddress := 0, qNextPollTime := 0, bPollEnable := False\<rparr>, e'))"

section \<open>SndRpt\<close>

text \<open>
  The report goes to the endpoint recorded in slot \<open>epInterruptOutIndex\<close> of the
  endpoint table, that is, to the second endpoint the extractor accepted.
\<close>

definition SndRpt :: "'e USB \<Rightarrow> 'p HIDComposite \<Rightarrow> u16 \<Rightarrow> u8 list \<Rightarrow> 'e \<Rightarrow> u8 \<times> 'e" where
  "SndRpt U s nbytes dataptr e =
     outTransfer U (bAddress s) (epAddr (epInfo s ! unat epInterruptOutIndex)) nbytes dataptr e"

section \<open>A bound object\<close>

text \<open>
  The witnesses release \<open>three_full\<close> bound to address 1 with polling enabled, on
  a transport whose pool holds that address.
\<close>

definition bound3 :: "nat HIDComposite" where
  "bound3 = three_full\<lparr>bAddress := 1, bPollEnable := True, qNextPollTime := 500\<rparr>"

definition sim_bound :: sim where
  "sim_bound = sim_idle\<lparr>sim_pool := [(0, OtherEp 0, False), (1, DriverEp, False)], sim_free := [2]\<rparr>"

section \<open>What Release resets and what it keeps\<close>

lemma Release_result [simp]:
  "fst (Release U s e) = 0"
  "fst (snd (Release U s e)) = s\<lparr>bNumEP := 1, bAddress := 0, qNextPollTime := 0, bPollEnable := False\<rparr>"
  "snd (snd (Release U s e)) = FreeAddress U (bAddress s) e"
  by (simp_all add: Release_def Let_def)

lemma tables_inv_released:
  "tables_inv s \<Longrightarrow>
   tables_inv (s\<lparr>bNumEP := 1, bAddress := 0, qNextPollTime := 0, bPollEnable := False\<rparr>)"
  by (simp add: tables_inv_bNumEP_1)

text \<open>
  C28. \<open>Release\<close> returns 0, hands the address back to the pool, and leaves an
  object that is unbound, not polled, with the endpoint count at 1 and the deadline
  at 0; the tables stay well formed and the registered parsers survive.
\<close>

theorem Release_resets:
  assumes "tables_inv s" and "Release U s e = (rcode, s', e')"
  shows "rcode = 0 \<and> e' = FreeAddress U (bAddress s) e \<and>
         bAddress s' = 0 \<and> \<not> bPollEnable s' \<and> bNumEP s' = 1 \<and> qNextPollTime s' = 0 \<and>
         tables_inv s' \<and> rptParsers s' = rptParsers s \<and> bHasReportId s' = bHasReportId s"
  using assms tables_inv_released [of s] by (auto simp: Release_def)

theorem Release_resets_witness:
  "tables_inv bound3 \<and> fst (Release sim_usb bound3 sim_bound) = 0 \<and>
   bAddress (fst (snd (Release sim_usb bound3 sim_bound))) = 0 \<and>
   sim_pool (snd (snd (Release sim_usb bound3 sim_bound))) = [(0, OtherEp 0, False)] \<and>
   sim_free (snd (snd (Release sim_usb bound3 sim_bound))) = [1, 2]"
proof -
  have t: "tables_inv bound3" by (simp add: bound3_def)
  have r: "Release sim_usb bound3 sim_bound =
     (fst (Release sim_usb bound3 sim_bound), fst (snd (Release sim_usb bound3 sim_bound)),
      snd (snd (Release sim_usb bound3 sim_bound)))"
    by (simp add: Release_def)
  have "sim_pool (FreeAddress sim_usb (bAddress bound3) sim_bound) = [(0, OtherEp 0, False)]"
    "sim_free (FreeAddress sim_usb (bAddress bound3) sim_bound) = [1, 2]"
    by code_simp+
  with Release_resets [OF t r] t show ?thesis by simp
qed

text \<open>
  C27. \<open>Release\<close> leaves the interface table, the endpoint records and the poll
  interval as they are: the interfaces of the finished session stay live, and an
  interface that had an interrupt-IN endpoint keeps a role that is no longer below
  the endpoint count, so the session invariant does not hold after it.
\<close>

theorem Release_keeps_interfaces:
  assumes "session_inv s" and "k < unat (bNumIface s)" and "in_role (hidInterfaces s ! k) \<noteq> 0"
    and "s' = fst (snd (Release U s e))"
  shows "live s' = live s \<and> epInfo s' = epInfo s \<and> pollInterval s' = pollInterval s \<and>
         \<not> in_role (hidInterfaces s' ! k) < bNumEP s' \<and> \<not> session_inv s'"
proof -
  have k3: "k < 3" using assms(2) tables_invD(5) [OF session_invD(1) [OF assms(1)]] by simp
  have n: "\<not> in_role (hidInterfaces s ! k) < 1"
    using assms(3) by simp
  have "\<not> session_inv s'"
  proof
    assume "session_inv s'"
    from session_invD(3) [OF this k3] n show False by (simp add: assms(4))
  qed
  with n show ?thesis by (simp add: assms(4) live_def)
qed

theorem Release_keeps_interfaces_witness:
  "session_inv bound3 \<and> 0 < unat (bNumIface bound3) \<and> in_role (hidInterfaces bound3 ! 0) = 1 \<and>
   bNumIface (fst (snd (Release sim_usb bound3 sim_bound))) = 3 \<and>
   \<not> session_inv (fst (snd (Release sim_usb bound3 sim_bound)))"
proof -
  have s: "session_inv bound3" by (simp add: bound3_def)
  have k: "0 < unat (bNumIface bound3)" by (simp add: bound3_def)
  have r: "in_role (hidInterfaces bound3 ! 0) = 1" by code_simp
  then have r': "in_role (hidInterfaces bound3 ! 0) \<noteq> 0" by simp
  from Release_keeps_interfaces [OF s k r' refl, of sim_usb sim_bound] s k r show ?thesis
    by (simp add: bound3_def)
qed

end
