(* ===== verification/HID_Init.thy ===== *)
theory HID_Init
  imports HID_Release
begin

text \<open>
  The enumerator: \<open>HIDComposite::Init\<close> (lines 94-287). The function is one
  sequence of requests with an exit after each; the model cuts it into the stages
  \<open>Init\<close> (preconditions and the probe of the device descriptor at address 0),
  \<open>Init_address\<close> (allocation and assignment of the address), \<open>Init_describe\<close>
  (the full device descriptor and the scan of the configurations) and
  \<open>Init_configure\<close> (selection of the configuration and the idle requests), each
  ending in the next. Every \<open>return\<close> of the source is a result of the stage that
  contains it; every \<open>goto\<close> to a failure label is \<open>Init_fail\<close>, which releases
  and returns the code. The result is the code returned, the object, the transport
  and the events (the capacity notifications of the extractor and
  \<open>OnInitSuccessful\<close>). The notifications of the failure labels exist only in debug
  builds and are not modelled.
\<close>

section \<open>The device descriptor\<close>

text \<open>
  The local buffer of \<open>sizeof (USB_DEVICE_DESCRIPTOR)\<close> bytes and the fields
  \<open>Init\<close> reads through the overlaid structure, by their offsets in the
  descriptor of USB 2.0 (16-bit fields little-endian).
\<close>

definition constBufSize :: u8 where
  "constBufSize = 18"

definition udd_bMaxPacketSize0 :: "u8 list \<Rightarrow> u8" where
  "udd_bMaxPacketSize0 buf = buf ! 7"

definition le16 :: "u8 \<Rightarrow> u8 \<Rightarrow> u16" where
  "le16 lo hi = ucast lo OR push_bit 8 (ucast hi)"

definition udd_idVendor :: "u8 list \<Rightarrow> u16" where
  "udd_idVendor buf = le16 (buf ! 8) (buf ! 9)"

definition udd_idProduct :: "u8 list \<Rightarrow> u16" where
  "udd_idProduct buf = le16 (buf ! 10) (buf ! 11)"

definition udd_bNumConfigurations :: "u8 list \<Rightarrow> u8" where
  "udd_bNumConfigurations buf = buf ! 17"

section \<open>Failure\<close>

text \<open>The labels at the end of the function: \<open>Release\<close>, then the code (lines 251-286).\<close>

definition Init_fail ::
  "'e USB \<Rightarrow> u8 \<Rightarrow> 'p HIDComposite \<Rightarrow> 'e \<Rightarrow> 'p hid_event list
     \<Rightarrow> u8 \<times> 'p HIDComposite \<times> 'e \<times> 'p hid_event list" where
  "Init_fail U rcode s e ev =
     (let (r, s', e') = Release U s e in (rcode, s', e', ev))"

section \<open>The idle requests\<close>

text \<open>
  Lines 232-242: one \<open>SetIdle\<close> per live interface with an interrupt-IN endpoint;
  a stall is tolerated, another failure leaves the loop with its code.
\<close>

function Init_idle_loop :: "'e USB \<Rightarrow> 'p HIDComposite \<Rightarrow> nat \<Rightarrow> 'e \<Rightarrow> u8 option \<times> 'e" where
  "Init_idle_loop U s i e =
     (if i < unat (bNumIface s) then
        if in_role (hidInterfaces s ! i) = 0 then Init_idle_loop U s (Suc i) e
        else
          case SetIdle U (bAddress s) (bmInterface (hidInterfaces s ! i)) 0 0 e of
            (rcode, e') \<Rightarrow>
              if rcode \<noteq> 0 \<and> rcode \<noteq> hrSTALL then (Some rcode, e')
              else Init_idle_loop U s (Suc i) e'
      else (None, e))"
  by pat_completeness auto

termination
  by (relation "measure (\<lambda>(U, s, i, e). unat (bNumIface s) - i)") auto

declare Init_idle_loop.simps [simp del]

section \<open>The scan of the configurations\<close>

text \<open>
  Lines 200-212: the configurations are read in order; the descriptor walker
  delivers its callbacks to \<open>EndpointXtract\<close> during each read, also when the read
  fails. The scan ends with the first configuration after which an endpoint is
  bound.
\<close>

function Init_conf_loop ::
  "'e USB \<Rightarrow> hid_custom \<Rightarrow> u8 \<Rightarrow> nat \<Rightarrow> 'p HIDComposite \<Rightarrow> 'e \<Rightarrow> 'p hid_event list
     \<Rightarrow> u8 option \<times> 'p HIDComposite \<times> 'e \<times> 'p hid_event list" where
  "Init_conf_loop U C num_of_conf i s e ev =
     (if i < unat num_of_conf then
        case getConfDescr U (bAddress s) 0 (of_nat i) e of
          ((rcode, calls), e') \<Rightarrow>
            let r = EndpointXtract_all C s calls; s' = fst r; ev' = ev @ snd r
            in if rcode \<noteq> 0 then (Some rcode, s', e', ev')
               else if 1 < bNumEP s' then (None, s', e', ev')
               else Init_conf_loop U C num_of_conf (Suc i) s' e' ev'
      else (None, s, e, ev))"
  by pat_completeness auto

termination
  by (relation "measure (\<lambda>(U, C, n, i, s, e, ev). unat n - i)") auto

declare Init_conf_loop.simps [simp del]

text \<open>
  The same loop with its counter as the source declares it, a \<open>uint8_t\<close> compared
  with the \<open>uint8_t\<close> count of configurations that the device reports:
  \<open>conf_step\<close> is the body for \<open>byte_loop\<close>, \<open>conf_result\<close> reads the outcome.
\<close>

definition conf_step ::
  "'e USB \<Rightarrow> hid_custom \<Rightarrow> u8 \<Rightarrow> 'p HIDComposite \<times> 'e \<times> 'p hid_event list
     \<Rightarrow> ('p HIDComposite \<times> 'e \<times> 'p hid_event list)
        + (u8 option \<times> 'p HIDComposite \<times> 'e \<times> 'p hid_event list)" where
  "conf_step U C i st =
     (case st of (s, e, ev) \<Rightarrow>
        case getConfDescr U (bAddress s) 0 i e of
          ((rcode, calls), e') \<Rightarrow>
            let r = EndpointXtract_all C s calls; s' = fst r; ev' = ev @ snd r
            in if rcode \<noteq> 0 then Inr (Some rcode, s', e', ev')
               else if 1 < bNumEP s' then Inr (None, s', e', ev')
               else Inl (s', e', ev'))"

definition conf_result ::
  "('p HIDComposite \<times> 'e \<times> 'p hid_event list)
     + (u8 option \<times> 'p HIDComposite \<times> 'e \<times> 'p hid_event list)
   \<Rightarrow> u8 option \<times> 'p HIDComposite \<times> 'e \<times> 'p hid_event list" where
  "conf_result x = (case x of Inl st \<Rightarrow> (None, st) | Inr r \<Rightarrow> r)"

section \<open>The stages\<close>

text \<open>Lines 214-249.\<close>

definition Init_configure ::
  "'e USB \<Rightarrow> 'p HIDComposite \<Rightarrow> 'e \<Rightarrow> 'p hid_event list
     \<Rightarrow> u8 \<times> 'p HIDComposite \<times> 'e \<times> 'p hid_event list" where
  "Init_configure U s e ev =
     (if bNumEP s < 2 then (USB_DEV_CONFIG_ERROR_DEVICE_NOT_SUPPORTED, s, e, ev)
      else
        let (r, e1) = setEpInfoEntry U (bAddress s) (bNumEP s) e;
            (rcode, e2) = setConf U (bAddress s) 0 (bConfNum s) e1
        in if rcode \<noteq> 0 then Init_fail U rcode s e2 ev
           else
             case Init_idle_loop U s 0 e2 of
               (Some rcode', e3) \<Rightarrow> Init_fail U rcode' s e3 ev
             | (None, e3) \<Rightarrow> (0, s\<lparr>bPollEnable := True\<rparr>, e3, ev @ [OnInitSuccessful]))"

text \<open>
  Lines 180-212. When the probe reported length 0 the descriptor is not read again
  and the fields come from the buffer as the probe left it.
\<close>

definition Init_describe ::
  "'e USB \<Rightarrow> hid_custom \<Rightarrow> u8 list \<Rightarrow> u8 \<Rightarrow> bool \<Rightarrow> 'p HIDComposite \<Rightarrow> 'e
     \<Rightarrow> u8 \<times> 'p HIDComposite \<times> 'e \<times> 'p hid_event list" where
  "Init_describe U C buf len lowspeed s e =
     (let e1 = set_dev_lowspeed U (bAddress s) lowspeed e;
          ((rcode, data), e2) =
             (if len \<noteq> 0 then getDevDescr U (bAddress s) 0 (ucast len) e1 else ((0, []), e1));
          buf' = recv (ucast len) data buf
      in if rcode \<noteq> 0 then Init_fail U rcode s e2 []
         else
           let s1 = s\<lparr>VID := udd_idVendor buf', PID := udd_idProduct buf'\<rparr>;
               (rcode', e3) = setEpInfoEntry U (bAddress s1) 1 e2
           in if rcode' \<noteq> 0 then Init_fail U rcode' s1 e3 []
              else
                case Init_conf_loop U C (udd_bNumConfigurations buf') 0 s1 e3 [] of
                  (Some rcode'', s2, e4, ev) \<Rightarrow> Init_fail U rcode'' s2 e4 ev
                | (None, s2, e4, ev) \<Rightarrow> Init_configure U s2 e4 ev)"

text \<open>Lines 150-178.\<close>

definition Init_address ::
  "'e USB \<Rightarrow> hid_custom \<Rightarrow> u8 list \<Rightarrow> u8 \<Rightarrow> u8 \<Rightarrow> u8 \<Rightarrow> bool \<Rightarrow> 'p HIDComposite \<Rightarrow> 'e
     \<Rightarrow> u8 \<times> 'p HIDComposite \<times> 'e \<times> 'p hid_event list" where
  "Init_address U C buf len parent port lowspeed s e =
     (let (addr, e1) = AllocAddress U parent False port e;
          s1 = s\<lparr>bAddress := addr\<rparr>
      in if addr = 0 then (USB_ERROR_OUT_OF_ADDRESS_SPACE_IN_POOL, s1, e1, [])
         else
           let s2 = s1\<lparr>epInfo := (epInfo s1)
                      [0 := (epInfo s1 ! 0)\<lparr>maxPktSize := udd_bMaxPacketSize0 buf\<rparr>]\<rparr>;
               (rcode, e2) = setAddr U 0 0 addr e1
           in if rcode \<noteq> 0 then
                (rcode, s2\<lparr>bAddress := 0\<rparr>,
                 FreeAddress U addr (set_dev_lowspeed U 0 False e2), [])
              else
                let e3 = set_dev_lowspeed U 0 False e2
                in if \<not> GetUsbDevicePtr U e3 addr
                   then (USB_ERROR_ADDRESS_NOT_FOUND_IN_POOL, s2, e3, [])
                   else Init_describe U C buf len lowspeed s2 e3)"

text \<open>
  Lines 94-148. \<open>buf0\<close> is the local buffer as the stack holds it on entry. The
  probe asks for 8 bytes with the driver's own endpoint table registered for
  address 0, and puts the old registration back on both outcomes.
\<close>

definition Init ::
  "'e USB \<Rightarrow> hid_custom \<Rightarrow> u8 list \<Rightarrow> u8 \<Rightarrow> u8 \<Rightarrow> bool \<Rightarrow> 'p HIDComposite \<Rightarrow> 'e
     \<Rightarrow> u8 \<times> 'p HIDComposite \<times> 'e \<times> 'p hid_event list" where
  "Init U C buf0 parent port lowspeed s e =
     (if bAddress s \<noteq> 0 then (USB_ERROR_CLASS_INSTANCE_ALREADY_IN_USE, s, e, [])
      else if \<not> GetUsbDevicePtr U e 0 then (USB_ERROR_ADDRESS_NOT_FOUND_IN_POOL, s, e, [])
      else if dev_epinfo U e 0 = NullEp then (USB_ERROR_EPINFO_IS_NULL, s, e, [])
      else
        let oldep_ptr = dev_epinfo U e 0;
            e1 = set_dev_lowspeed U 0 lowspeed (set_dev_epinfo U 0 DriverEp e);
            ((rcode, data), e2) = getDevDescr U 0 0 8 e1;
            buf = recv 8 data buf0;
            len = (if constBufSize < buf ! 0 then constBufSize else buf ! 0);
            e3 = set_dev_epinfo U 0 oldep_ptr e2
        in if rcode \<noteq> 0 then Init_fail U rcode s e3 []
           else Init_address U C buf len parent port lowspeed s e3)"

section \<open>Devices to enumerate\<close>

text \<open>
  \<open>dev_descr\<close>: a device descriptor of 18 bytes (endpoint 0 with 8-byte packets,
  vendor 0x046D, product 0xC31A, one configuration). \<open>attach confs\<close>: the idle
  transport with a device attached that has this descriptor and the given endpoint
  callbacks per configuration. \<open>combo\<close>: a keyboard and a mouse interface with an
  interrupt-IN endpoint each, and an interrupt-OUT endpoint on the keyboard.
  \<open>out_only\<close>: one interface whose only endpoint is interrupt-OUT. \<open>no_hid\<close>:
  one interface with a bulk endpoint. \<open>stack_buf\<close>: the local buffer on entry.
\<close>

definition dev_descr :: "u8 list" where
  "dev_descr = [18, 1, 0x00, 0x02, 0, 0, 0, 8, 0x6D, 0x04, 0x1A, 0xC3, 0x00, 0x01, 1, 2, 0, 1]"

definition attach :: "xtract_call list list \<Rightarrow> sim" where
  "attach confs = sim_idle\<lparr>sim_descr := dev_descr, sim_confs := confs\<rparr>"

definition combo :: "xtract_call list" where
  "combo = [xcall 1 0 0 1 (int_in_ep 1 10), xcall 1 1 0 2 (int_in_ep 2 4),
            xcall 1 0 0 1 (int_out_ep 3 10)]"



definition stack_buf :: "u8 list" where
  "stack_buf = replicate 18 0xEE"

definition init_combo :: "u8 \<times> nat HIDComposite \<times> sim \<times> nat hid_event list" where
  "init_combo = Init sim_usb default_custom stack_buf 0 1 False fresh_obj (attach [combo])"

text \<open>
  \<open>init_stalled\<close>: the same enumeration when the device rejects the
  configuration request with the code 0x0D. \<open>init_no_hid\<close>,
  \<open>init_out_only\<close>: the enumerations of the other two devices. \<open>init_short\<close>:
  the enumeration of a device whose descriptor reports length 0 in its first byte.
\<close>

definition init_stalled :: "u8 \<times> nat HIDComposite \<times> sim \<times> nat hid_event list" where
  "init_stalled = Init sim_usb default_custom stack_buf 0 1 False fresh_obj
     ((attach [combo])\<lparr>sim_fail := (\<lambda>c. if c = OpSetConf 1 0 1 then 0x0D else 0)\<rparr>)"




section \<open>What Init promises\<close>

text \<open>
  \<open>Init_contract s r\<close>: the result \<open>r\<close> of an enumeration that started in \<open>s\<close>
  has well-formed tables and the registry of \<open>s\<close>; when the code is 0 the object
  is bound, polled and has an endpoint beside the control endpoint, and keeps the
  session invariant if \<open>s\<close> had it; when it is not 0 polling is off and the object
  is unbound, unless the code is one of the two that are returned without release.
  \<open>idle_all\<close>: idle requests to a list of interfaces, up to the first that fails
  other than by a stall.
\<close>

definition Init_contract ::
  "'p HIDComposite \<Rightarrow> u8 \<times> 'p HIDComposite \<times> 'e \<times> 'p hid_event list \<Rightarrow> bool" where
  "Init_contract s r \<longleftrightarrow>
     (let rcode = fst r; s' = fst (snd r)
      in tables_inv s' \<and> rptParsers s' = rptParsers s \<and> bHasReportId s' = bHasReportId s \<and>
         (rcode = 0 \<longrightarrow> bPollEnable s' \<and> bAddress s' \<noteq> 0 \<and> 2 \<le> bNumEP s' \<and>
            (session_inv s \<longrightarrow> session_inv s')) \<and>
         (rcode \<noteq> 0 \<longrightarrow> \<not> bPollEnable s' \<and>
            (bAddress s' = 0 \<or> rcode = USB_DEV_CONFIG_ERROR_DEVICE_NOT_SUPPORTED
               \<or> rcode = USB_ERROR_ADDRESS_NOT_FOUND_IN_POOL)))"

fun idle_all :: "'e USB \<Rightarrow> u8 \<Rightarrow> u8 list \<Rightarrow> 'e \<Rightarrow> u8 option \<times> 'e" where
  "idle_all U a [] e = (None, e)"
| "idle_all U a (x # xs) e =
     (case SetIdle U a x 0 0 e of
        (rcode, e') \<Rightarrow>
          if rcode \<noteq> 0 \<and> rcode \<noteq> hrSTALL then (Some rcode, e') else idle_all U a xs e')"

section \<open>Failure\<close>

lemma Init_fail_result [simp]:
  "Init_fail U rcode s e ev =
     (rcode, s\<lparr>bNumEP := 1, bAddress := 0, qNextPollTime := 0, bPollEnable := False\<rparr>,
      FreeAddress U (bAddress s) e, ev)"
  by (simp add: Init_fail_def Release_def Let_def)

lemma Init_fail_contract:
  assumes "tables_inv s" "rcode \<noteq> 0"
  shows "Init_contract s (Init_fail U rcode s e ev)"
  using assms by (simp add: Init_contract_def tables_inv_bNumEP_1)

lemma Init_contract_cong:
  "rptParsers s = rptParsers t \<Longrightarrow> bHasReportId s = bHasReportId t \<Longrightarrow>
   session_inv s = session_inv t \<Longrightarrow> Init_contract s r = Init_contract t r"
  by (simp add: Init_contract_def)

section \<open>The scan is a run of callbacks\<close>

lemma Init_conf_loop_done:
  "\<not> i < unat n \<Longrightarrow> Init_conf_loop U C n i s e ev = (None, s, e, ev)"
  by (subst Init_conf_loop.simps) simp

lemma Init_conf_loop_step:
  assumes "i < unat n" and "getConfDescr U (bAddress s) 0 (of_nat i) e = ((rcode, calls), e1)"
  shows "Init_conf_loop U C n i s e ev =
     (let r = EndpointXtract_all C s calls
      in if rcode \<noteq> 0 then (Some rcode, fst r, e1, ev @ snd r)
         else if 1 < bNumEP (fst r) then (None, fst r, e1, ev @ snd r)
         else Init_conf_loop U C n (Suc i) (fst r) e1 (ev @ snd r))"
  using assms by (subst Init_conf_loop.simps) (simp add: Let_def)

lemma Init_conf_loop_run:
  assumes "Init_conf_loop U C n i s e ev = (rc, s', e', ev')"
  shows "rc \<noteq> Some 0 \<and>
         (\<exists>cs. s' = fst (EndpointXtract_all C s cs) \<and> ev' = ev @ snd (EndpointXtract_all C s cs))"
  using assms
proof (induction "unat n - i" arbitrary: i s e ev)
  case 0
  then have "\<not> i < unat n" by simp
  from Init_conf_loop_done [OF this, of U C s e ev] "0.prems" show ?case
    by (auto intro: exI [of _ "[]"])
next
  case (Suc k)
  then have lt: "i < unat n" and k: "k = unat n - Suc i" by simp_all
  obtain rcode calls e1 where
    g: "getConfDescr U (bAddress s) 0 (of_nat i) e = ((rcode, calls), e1)"
    by (rule getConfDescr_cases)
  let ?r = "EndpointXtract_all C s calls"
  note step = Init_conf_loop_step [OF lt g, of C ev]
  show ?case
  proof (cases "rcode \<noteq> 0 \<or> 1 < bNumEP (fst ?r)")
    case True
    with step Suc.prems show ?thesis
      by (auto simp: Let_def intro: exI [of _ calls] split: if_splits)
  next
    case False
    with step Suc.prems
    have "Init_conf_loop U C n (Suc i) (fst ?r) e1 (ev @ snd ?r) = (rc, s', e', ev')"
      by (simp add: Let_def)
    from Suc.hyps(1) [OF k this] obtain cs where
      "rc \<noteq> Some 0" "s' = fst (EndpointXtract_all C (fst ?r) cs)"
      "ev' = (ev @ snd ?r) @ snd (EndpointXtract_all C (fst ?r) cs)"
      by blast
    then show ?thesis
      by (auto simp: EndpointXtract_all_append Let_def intro!: exI [of _ "calls @ cs"])
  qed
qed

lemma conf_result_simps [simp]:
  "conf_result (Inl st) = (None, st)" "conf_result (Inr r) = r"
  by (simp_all add: conf_result_def)

lemma Init_conf_loop_nat_loop:
  "conf_result (nat_loop (conf_step U C) n i (s, e, ev)) = Init_conf_loop U C n i s e ev"
proof (induction "unat n - i" arbitrary: i s e ev)
  case 0
  then have "\<not> i < unat n" by simp
  then show ?case
    by (subst nat_loop.simps) (simp add: Init_conf_loop_done)
next
  case (Suc k)
  then have lt: "i < unat n" and k: "k = unat n - Suc i" by simp_all
  obtain rcode calls e1 where
    g: "getConfDescr U (bAddress s) 0 (of_nat i) e = ((rcode, calls), e1)"
    by (rule getConfDescr_cases)
  show ?case
    by (subst nat_loop.simps)
       (use lt in \<open>simp add: Init_conf_loop_step [OF lt g] conf_step_def g Let_def
          Suc.hyps(1) [OF k]\<close>)
qed

section \<open>The idle requests go to the interfaces with an IN endpoint\<close>

lemma Init_idle_loop_done:
  "\<not> i < unat (bNumIface s) \<Longrightarrow> Init_idle_loop U s i e = (None, e)"
  by (subst Init_idle_loop.simps) simp

lemma Init_idle_loop_step:
  assumes "i < unat (bNumIface s)"
  shows "Init_idle_loop U s i e =
     (if in_role (hidInterfaces s ! i) = 0 then Init_idle_loop U s (Suc i) e
      else case SetIdle U (bAddress s) (bmInterface (hidInterfaces s ! i)) 0 0 e of
             (rcode, e') \<Rightarrow>
               if rcode \<noteq> 0 \<and> rcode \<noteq> hrSTALL then (Some rcode, e')
               else Init_idle_loop U s (Suc i) e')"
  using assms by (subst Init_idle_loop.simps) simp

lemma Init_idle_loop_idle_all:
  assumes "unat (bNumIface s) \<le> length (hidInterfaces s)"
  shows "Init_idle_loop U s i e =
     idle_all U (bAddress s)
       (map bmInterface (filter (\<lambda>h. in_role h \<noteq> 0) (drop i (live s)))) e"
proof (induction "unat (bNumIface s) - i" arbitrary: i e)
  case 0
  then have "\<not> i < unat (bNumIface s)" by simp
  then show ?case by (simp add: Init_idle_loop_done live_def)
next
  case (Suc k)
  then have lt: "i < unat (bNumIface s)" and k: "k = unat (bNumIface s) - Suc i" by simp_all
  from lt assms have "drop i (live s) = hidInterfaces s ! i # drop (Suc i) (live s)"
    by (simp add: live_def Cons_nth_drop_Suc [symmetric])
  with Suc.hyps(1) [OF k] show ?case
    by (simp add: Init_idle_loop_step [OF lt] split: prod.splits)
qed

lemma idle_all_Some:
  "idle_all U a xs e = (Some rcode, e') \<Longrightarrow> rcode \<noteq> 0 \<and> rcode \<noteq> hrSTALL"
  by (induction xs arbitrary: e) (auto split: prod.splits if_splits)

lemma Init_idle_loop_Some:
  assumes "unat (bNumIface s) \<le> length (hidInterfaces s)"
    and "Init_idle_loop U s i e = (Some rcode, e')"
  shows "rcode \<noteq> 0"
  using assms idle_all_Some [of U "bAddress s" _ e rcode e']
  by (simp add: Init_idle_loop_idle_all)

section \<open>Every stage keeps the contract\<close>

lemma Init_configure_contract:
  assumes inv: "tables_inv s" and np: "\<not> bPollEnable s" and a: "bAddress s \<noteq> 0"
  shows "Init_contract s (Init_configure U s e ev)"
proof (cases "bNumEP s < 2")
  case True
  with assms show ?thesis
    by (simp add: Init_configure_def Init_contract_def error_codes_nonzero)
next
  case False
  then have two: "2 \<le> bNumEP s" by (simp add: not_less)
  obtain r e1 where e1: "setEpInfoEntry U (bAddress s) (bNumEP s) e = (r, e1)"
    by (rule pair_cases2)
  obtain rcode e2 where e2: "setConf U (bAddress s) 0 (bConfNum s) e1 = (rcode, e2)"
    by (rule pair_cases2)
  obtain res e3 where e3: "Init_idle_loop U s 0 e2 = (res, e3)"
    by (rule pair_cases2)
  have unf: "Init_configure U s e ev =
     (if rcode \<noteq> 0 then Init_fail U rcode s e2 ev
      else case res of Some rcode' \<Rightarrow> Init_fail U rcode' s e3 ev
           | None \<Rightarrow> (0, s\<lparr>bPollEnable := True\<rparr>, e3, ev @ [OnInitSuccessful]))"
    using False by (simp add: Init_configure_def e1 e2 e3 del: Init_fail_result)
  have ok: "Init_contract s (0, s\<lparr>bPollEnable := True\<rparr>, e3, ev @ [OnInitSuccessful])"
    using inv a two by (simp add: Init_contract_def)
  have "res = Some c \<Longrightarrow> c \<noteq> 0" for c
    using e3 Init_idle_loop_Some [OF tables_inv_length [OF inv], of U 0 e2 c e3] by simp
  then show ?thesis
    unfolding unf
    using ok Init_fail_contract [OF inv, of rcode U e2 ev] Init_fail_contract [OF inv, of _ U e3 ev]
    by (simp del: Init_fail_result split: option.splits)
qed

lemma Init_scan_contract:
  assumes inv: "tables_inv s" and np: "\<not> bPollEnable s" and a: "bAddress s \<noteq> 0"
  shows "Init_contract s
     (case Init_conf_loop U C n 0 s e [] of
        (Some rcode, s2, e4, ev) \<Rightarrow> Init_fail U rcode s2 e4 ev
      | (None, s2, e4, ev) \<Rightarrow> Init_configure U s2 e4 ev)"
proof -
  obtain rc s2 e4 ev where l: "Init_conf_loop U C n 0 s e [] = (rc, s2, e4, ev)"
    by (rule prod_cases4)
  from Init_conf_loop_run [OF l] obtain cs where
    rc: "rc \<noteq> Some 0" and s2: "s2 = fst (EndpointXtract_all C s cs)" by blast
  have inv2: "tables_inv s2" unfolding s2 using inv by (rule EndpointXtract_all_tables_inv)
  note u = untouchedD [OF untouched_EndpointXtract_all [of s C cs], folded s2]
  have ses: "session_inv s \<Longrightarrow> session_inv s2"
    unfolding s2 by (rule EndpointXtract_all_session_inv)
  have "Init_contract s2
     (case rc of Some rcode \<Rightarrow> Init_fail U rcode s2 e4 ev | None \<Rightarrow> Init_configure U s2 e4 ev)"
  proof (cases rc)
    case None
    with Init_configure_contract [OF inv2, of U e4 ev] np a u show ?thesis by simp
  next
    case (Some c)
    with rc have "c \<noteq> 0" by simp
    from Init_fail_contract [OF inv2 this, of U e4 ev] Some show ?thesis by simp
  qed
  with l u ses show ?thesis
    by (auto simp: Init_contract_def Let_def split: option.splits)
qed

lemma Init_describe_contract:
  assumes inv: "tables_inv s" and np: "\<not> bPollEnable s" and a: "bAddress s \<noteq> 0"
  shows "Init_contract s (Init_describe U C buf len lowspeed s e)"
proof -
  let ?e1 = "set_dev_lowspeed U (bAddress s) lowspeed e"
  obtain rcode data e2 where
    d: "(if len \<noteq> 0 then getDevDescr U (bAddress s) 0 (ucast len) ?e1 else ((0, []), ?e1))
          = ((rcode, data), e2)"
    by (cases "len \<noteq> 0") (auto intro: getDevDescr_cases [of U "bAddress s" 0 "ucast len" ?e1])
  let ?buf = "recv (ucast len) data buf"
  let ?s1 = "s\<lparr>VID := udd_idVendor ?buf, PID := udd_idProduct ?buf\<rparr>"
  obtain rcode' e3 where t: "setEpInfoEntry U (bAddress s) 1 e2 = (rcode', e3)" by force
  have unf: "Init_describe U C buf len lowspeed s e =
     (if rcode \<noteq> 0 then Init_fail U rcode s e2 []
      else if rcode' \<noteq> 0 then Init_fail U rcode' ?s1 e3 []
      else case Init_conf_loop U C (udd_bNumConfigurations ?buf) 0 ?s1 e3 [] of
             (Some rcode'', s2, e4, ev) \<Rightarrow> Init_fail U rcode'' s2 e4 ev
           | (None, s2, e4, ev) \<Rightarrow> Init_configure U s2 e4 ev)"
    unfolding Init_describe_def Let_def d using t by simp
  have inv1: "tables_inv ?s1" using inv by simp
  have c: "Init_contract ?s1 r = Init_contract s r" for r :: "u8 \<times> 'a HIDComposite \<times> 'b \<times> 'a hid_event list"
    by (rule Init_contract_cong) simp_all
  show ?thesis
    unfolding unf
    using Init_fail_contract [OF inv, of rcode U e2 "[]"]
      Init_fail_contract [OF inv1, of rcode' U e3 "[]"]
      Init_scan_contract [OF inv1, of U C "udd_bNumConfigurations ?buf" e3] np a
    by (simp add: c del: Init_fail_result)
qed

lemma Init_address_contract:
  assumes inv: "tables_inv s" and np: "\<not> bPollEnable s"
  shows "Init_contract s (Init_address U C buf len parent port lowspeed s e)"
proof -
  obtain addr e1 where al: "AllocAddress U parent False port e = (addr, e1)" by force
  let ?s2 = "s\<lparr>bAddress := addr,
      epInfo := (epInfo s)[0 := (epInfo s ! 0)\<lparr>maxPktSize := udd_bMaxPacketSize0 buf\<rparr>]\<rparr>"
  obtain rcode e2 where sa: "setAddr U 0 0 addr e1 = (rcode, e2)" by force
  let ?e3 = "set_dev_lowspeed U 0 False e2"
  have unf: "Init_address U C buf len parent port lowspeed s e =
     (if addr = 0 then (USB_ERROR_OUT_OF_ADDRESS_SPACE_IN_POOL, s\<lparr>bAddress := addr\<rparr>, e1, [])
      else if rcode \<noteq> 0 then (rcode, ?s2\<lparr>bAddress := 0\<rparr>, FreeAddress U addr ?e3, [])
      else if \<not> GetUsbDevicePtr U ?e3 addr then (USB_ERROR_ADDRESS_NOT_FOUND_IN_POOL, ?s2, ?e3, [])
      else Init_describe U C buf len lowspeed ?s2 ?e3)"
    unfolding Init_address_def Let_def al using sa by simp
  have inv2: "tables_inv ?s2" using inv by simp
  have c: "Init_contract ?s2 r = Init_contract s r" for r :: "u8 \<times> 'a HIDComposite \<times> 'b \<times> 'a hid_event list"
    by (rule Init_contract_cong) simp_all
  show ?thesis
    unfolding unf
    using Init_describe_contract [OF inv2, of U C buf len lowspeed ?e3] inv inv2 np
    by (auto simp: c Init_contract_def error_codes_nonzero tables_inv_def shape_def)
qed

lemma Init_unbound_contract:
  assumes inv: "tables_inv s" and np: "\<not> bPollEnable s" and a: "bAddress s = 0"
  shows "Init_contract s (Init U C buf0 parent port lowspeed s e)"
proof -
  let ?e1 = "set_dev_lowspeed U 0 lowspeed (set_dev_epinfo U 0 DriverEp e)"
  obtain rcode data e2 where d: "getDevDescr U 0 0 8 ?e1 = ((rcode, data), e2)"
    by (rule getDevDescr_cases)
  let ?buf = "recv 8 data buf0"
  let ?e3 = "set_dev_epinfo U 0 (dev_epinfo U e 0) e2"
  have unf: "Init U C buf0 parent port lowspeed s e =
     (if \<not> GetUsbDevicePtr U e 0 then (USB_ERROR_ADDRESS_NOT_FOUND_IN_POOL, s, e, [])
      else if dev_epinfo U e 0 = NullEp then (USB_ERROR_EPINFO_IS_NULL, s, e, [])
      else if rcode \<noteq> 0 then Init_fail U rcode s ?e3 []
      else Init_address U C ?buf (if constBufSize < ?buf ! 0 then constBufSize else ?buf ! 0)
             parent port lowspeed s ?e3)"
    unfolding Init_def Let_def using a d by simp
  show ?thesis
    unfolding unf
    using Init_fail_contract [OF inv, of rcode U ?e3 "[]"]
      Init_address_contract [OF inv np, of U C ?buf _ parent port lowspeed ?e3] inv np a
    by (auto simp: Init_contract_def error_codes_nonzero simp del: Init_fail_result)
qed

section \<open>Facts about the enumerated devices\<close>

lemma fresh_obj_unbound:
  "session_inv (fresh_obj :: nat HIDComposite)" "\<not> bPollEnable (fresh_obj :: nat HIDComposite)"
  "bAddress (fresh_obj :: nat HIDComposite) = 0"
  by simp_all

lemma init_combo_result:
  "fst init_combo = 0" "bAddress (fst (snd init_combo)) = 1"
  "bNumIface (fst (snd init_combo)) = 2" "bNumEP (fst (snd init_combo)) = 4"
  "bPollEnable (fst (snd init_combo))"
  "VID (fst (snd init_combo)) = 0x046D" "PID (fst (snd init_combo)) = 0xC31A"
  "snd (snd (snd init_combo)) = [OnInitSuccessful]"
  "sim_pool (fst (snd (snd init_combo))) = [(0, OtherEp 0, False), (1, DriverEp, False)]"
  "sim_trace (fst (snd (snd init_combo))) =
     [OpGetDevDescr 0 0 8, OpAllocAddress 0 False 1, OpSetAddr 0 0 1, OpGetDevDescr 1 0 18,
      OpSetEpInfoEntry 1 1, OpGetConfDescr 1 0 0, OpSetEpInfoEntry 1 4, OpSetConf 1 0 1,
      OpSetIdle 1 0 0 0, OpSetIdle 1 1 0 0]"
  by code_simp+

lemma init_stalled_result:
  "fst init_stalled = 0x0D" "bAddress (fst (snd init_stalled)) = 0"
  "bNumEP (fst (snd init_stalled)) = 1" "bNumIface (fst (snd init_stalled)) = 2"
  "\<not> bPollEnable (fst (snd init_stalled))"
  "sim_pool (fst (snd (snd init_stalled))) = [(0, OtherEp 0, False)]"
  "sim_trace (fst (snd (snd init_stalled))) =
     [OpGetDevDescr 0 0 8, OpAllocAddress 0 False 1, OpSetAddr 0 0 1, OpGetDevDescr 1 0 18,
      OpSetEpInfoEntry 1 1, OpGetConfDescr 1 0 0, OpSetEpInfoEntry 1 4, OpSetConf 1 0 1,
      OpFreeAddress 1]"
  by code_simp+

lemma init_combo_eq:
  "Init sim_usb default_custom stack_buf 0 1 False fresh_obj (attach [combo])
     = (fst init_combo, fst (snd init_combo), fst (snd (snd init_combo)), snd (snd (snd init_combo)))"
  by (simp add: init_combo_def)

lemma init_stalled_eq:
  "Init sim_usb default_custom stack_buf 0 1 False fresh_obj
     ((attach [combo])\<lparr>sim_fail := (\<lambda>c. if c = OpSetConf 1 0 1 then 0x0D else 0)\<rparr>)
     = (fst init_stalled, fst (snd init_stalled), fst (snd (snd init_stalled)),
        snd (snd (snd init_stalled)))"
  by (simp add: init_stalled_def)

section \<open>Properties\<close>

text \<open>
  C12. Whatever the transport and the device answer, \<open>Init\<close> leaves the tables
  well formed and never touches the parser registry or the framing flag.
\<close>

theorem Init_keeps_tables:
  assumes "tables_inv s" and "bAddress s = 0 \<longrightarrow> \<not> bPollEnable s"
    and "s' = fst (snd (Init U C buf0 parent port lowspeed s e))"
  shows "tables_inv s' \<and> rptParsers s' = rptParsers s \<and> bHasReportId s' = bHasReportId s"
proof (cases "bAddress s = 0")
  case True
  with assms Init_unbound_contract [of s U C buf0 parent port lowspeed e] show ?thesis
    by (simp add: Init_contract_def Let_def)
next
  case False
  with assms show ?thesis by (simp add: Init_def)
qed

theorem Init_keeps_tables_witness:
  "tables_inv (fresh_obj :: nat HIDComposite) \<and> tables_inv (fst (snd init_combo)) \<and>
   rptParsers (fst (snd init_combo)) = rptParsers fresh_obj"
  using Init_keeps_tables [of fresh_obj "fst (snd init_combo)" sim_usb default_custom stack_buf
      0 1 False "attach [combo]"]
  by (simp add: init_combo_def)

text \<open>
  C8. On an unbound object \<open>Init\<close> enables polling exactly when it returns 0,
  and then the object holds an address and has at least one endpoint beside the
  control endpoint.
\<close>

theorem Init_success:
  assumes "tables_inv s" and "\<not> bPollEnable s" and "bAddress s = 0"
    and "Init U C buf0 parent port lowspeed s e = (rcode, s', e', ev)"
  shows "(rcode = 0 \<longleftrightarrow> bPollEnable s') \<and>
         (rcode = 0 \<longrightarrow> bAddress s' \<noteq> 0 \<and> 2 \<le> bNumEP s')"
  using Init_unbound_contract [OF assms(1-3), of U C buf0 parent port lowspeed e] assms(4)
  by (auto simp: Init_contract_def Let_def)

theorem Init_success_witness:
  "tables_inv (fresh_obj :: nat HIDComposite) \<and> fst init_combo = 0 \<and>
   bPollEnable (fst (snd init_combo)) \<and> bAddress (fst (snd init_combo)) = 1 \<and>
   2 \<le> bNumEP (fst (snd init_combo))"
  using Init_success [OF tables_inv_fixtures(1) fresh_obj_unbound(2,3) init_combo_eq]
  by (simp add: init_combo_result)

text \<open>
  C10. A successful \<open>Init\<close> on an object that satisfies the session invariant
  (a constructed object does) leaves one that satisfies it: the keys of the live
  interfaces are distinct and every interrupt-IN role is below the endpoint count,
  so that polling reads only endpoint records that enumeration filled.
\<close>

theorem Init_success_session:
  assumes "session_inv s" and "\<not> bPollEnable s" and "bAddress s = 0"
    and "Init U C buf0 parent port lowspeed s e = (0, s', e', ev)"
  shows "session_inv s'"
  using Init_unbound_contract [OF session_invD(1) [OF assms(1)] assms(2,3),
      of U C buf0 parent port lowspeed e] assms(1,4)
  by (simp add: Init_contract_def Let_def)

theorem Init_success_session_witness:
  "session_inv (fresh_obj :: nat HIDComposite) \<and> session_inv (fst (snd init_combo))"
  using Init_success_session [OF fresh_obj_unbound init_combo_eq [unfolded init_combo_result(1)]]
  by simp

text \<open>
  C2. Rollback. When \<open>Init\<close> fails on an unbound object with a code other than
  \<open>USB_DEV_CONFIG_ERROR_DEVICE_NOT_SUPPORTED\<close> and
  \<open>USB_ERROR_ADDRESS_NOT_FOUND_IN_POOL\<close>, the object is unbound again and
  polling is off.
\<close>

theorem Init_failure_rollback:
  assumes "tables_inv s" and "\<not> bPollEnable s" and "bAddress s = 0"
    and "Init U C buf0 parent port lowspeed s e = (rcode, s', e', ev)"
    and "rcode \<noteq> 0" and "rcode \<noteq> USB_DEV_CONFIG_ERROR_DEVICE_NOT_SUPPORTED"
    and "rcode \<noteq> USB_ERROR_ADDRESS_NOT_FOUND_IN_POOL"
  shows "bAddress s' = 0 \<and> \<not> bPollEnable s'"
  using Init_unbound_contract [OF assms(1-3), of U C buf0 parent port lowspeed e] assms(4-7)
  by (simp add: Init_contract_def Let_def)

theorem Init_failure_rollback_witness:
  "tables_inv (fresh_obj :: nat HIDComposite) \<and> fst init_stalled = 0x0D \<and>
   bAddress (fst (snd init_stalled)) = 0 \<and> \<not> bPollEnable (fst (snd init_stalled)) \<and>
   sim_pool (fst (snd (snd init_stalled))) = [(0, OtherEp 0, False)]"
proof -
  have "(0x0D :: u8) \<noteq> 0" "(0x0D :: u8) \<noteq> USB_DEV_CONFIG_ERROR_DEVICE_NOT_SUPPORTED"
    "(0x0D :: u8) \<noteq> USB_ERROR_ADDRESS_NOT_FOUND_IN_POOL"
    by (simp_all add: hid_const)
  from Init_failure_rollback [OF tables_inv_fixtures(1) fresh_obj_unbound(2,3)
      init_stalled_eq [unfolded init_stalled_result(1)] this]
  show ?thesis by (simp add: init_stalled_result)
qed

text \<open>
  \<open>Init\<close> on an object that holds an address returns
  \<open>USB_ERROR_CLASS_INSTANCE_ALREADY_IN_USE\<close> without a request to the transport
  and without a change to the object.
\<close>

lemma Init_in_use:
  assumes "bAddress s \<noteq> 0"
  shows "Init U C buf0 parent port lowspeed s e
     = (USB_ERROR_CLASS_INSTANCE_ALREADY_IN_USE, s, e, [])"
  using assms by (simp add: Init_def)

lemma Init_in_use_witness:
  "bAddress (fst (snd init_combo)) \<noteq> 0 \<and>
   Init sim_usb default_custom stack_buf 0 1 False (fst (snd init_combo)) (fst (snd (snd init_combo)))
     = (USB_ERROR_CLASS_INSTANCE_ALREADY_IN_USE, fst (snd init_combo), fst (snd (snd init_combo)), [])"
proof -
  have a: "bAddress (fst (snd init_combo)) \<noteq> 0" by (simp add: init_combo_result)
  from Init_in_use [OF a] a show ?thesis by simp
qed

text \<open>
  C18. The idle requests of \<open>Init\<close> go to the live interfaces that have an
  interrupt-IN endpoint, by interface number and in table order, and stop at the
  first answer that is neither success nor a stall.
\<close>

theorem Init_idle_requests:
  assumes "tables_inv s"
  shows "Init_idle_loop U s 0 e =
     idle_all U (bAddress s) (map bmInterface (filter (\<lambda>h. in_role h \<noteq> 0) (live s))) e"
  using Init_idle_loop_idle_all [OF tables_inv_length [OF assms], of U 0 e] by simp

theorem Init_idle_requests_witness:
  "tables_inv (fst (snd init_combo)) \<and>
   Init_idle_loop sim_usb (fst (snd init_combo)) 0 sim_idle = idle_all sim_usb 1 [0, 1] sim_idle"
proof -
  have t: "tables_inv (fst (snd init_combo))" by code_simp
  have "map bmInterface (filter (\<lambda>h. in_role h \<noteq> 0) (live (fst (snd init_combo)))) = [0, 1]"
    by code_simp
  with Init_idle_requests [OF t, of sim_usb sim_idle] t show ?thesis
    by (simp add: init_combo_result)
qed




text \<open>
  C13. Termination of the scan. With its counter a \<open>uint8_t\<close>, as the source
  declares it, the loop over the configurations returns for every count the device
  reports, 255 included, and returns what \<open>Init_conf_loop\<close> computes: the counter
  never wraps before it reaches the count.
\<close>

theorem Init_conf_loop_terminates:
  "map_option conf_result (byte_loop (conf_step U C) num_of_conf 0 (s, e, ev))
     = Some (Init_conf_loop U C num_of_conf 0 s e ev)"
  by (simp add: byte_loop_nat_loop Init_conf_loop_nat_loop)

end
