(* ===== verification/Spec2Isabelle.thy ===== *)
theory Spec2Isabelle
  imports HID_Registry HID_Extractor HID_Polling HID_Init
begin

text \<open>
  \<^bold>\<open>The program.\<close> \<open>src/hidcomposite.cpp\<close> is the driver of the USB Host Shield
  library for composite HID devices (a keyboard and a mouse behind one address, for
  example). One object of class \<open>HIDComposite\<close> serves one device. It keeps four
  tables of fixed size (report parsers, class descriptors, interfaces, endpoints)
  and a few counters; \<open>Init\<close> enumerates the device through the USB transport and
  fills the tables by way of the callback \<open>EndpointXtract\<close>, which the descriptor
  walker of the library calls once per endpoint; \<open>Poll\<close> reads the interrupt-IN
  endpoints when the poll interval has elapsed and hands each report to the hooks
  and to the parser registered for it; \<open>SndRpt\<close> sends a report; \<open>Release\<close> ends
  the session.

  \<^bold>\<open>The theories\<close>, in the order of their imports.

  \<^item> \<open>HID_Prelude\<close>: the machine integers (\<open>u8\<close>, \<open>u16\<close>, \<open>u32\<close> are words of
    that width, so arithmetic wraps as in the source), the loop shapes of the
    driver (\<open>for_upto\<close>, \<open>update_each\<close> for loops over a table without exit;
    \<open>byte_loop\<close> for a loop with a \<open>uint8_t\<close> counter and exits, \<open>nat_loop\<close> its
    form over natural numbers), \<open>first_index\<close>, and shared facts on lists and words.
  \<^item> \<open>HID_Tables\<close>: the constants of the library headers, the records \<open>EpInfo\<close>,
    \<open>HIDInterface\<close>, \<open>ReportParser\<close>, \<open>HID_CLASS_DESCRIPTOR_LEN_AND_TYPE\<close> and
    \<open>HIDComposite\<close> (the data members of the class, tables as lists), the
    invariant \<open>shape\<close> (every table has its declared size), the constructor
    (\<open>HIDComposite_ctor\<close>, lines 20-30), \<open>Initialize\<close> (lines 43-70) and
    \<open>GetHidClassDescrLen\<close> (lines 32-41). Lemmas: what \<open>Initialize\<close> writes and
    what it leaves, preservation of \<open>shape\<close>, the lookup against a specification
    on the list of entries.
  \<^item> \<open>HID_Registry\<close>: \<open>SetReportParser\<close> (lines 72-81) and \<open>GetReportParser\<close>
    (lines 83-92) as the index loops of the source; the abstraction \<open>bindings\<close> of
    the table to the list of occupied slots, the invariant \<open>registry_inv\<close>, the
    specifications \<open>register_spec\<close> and \<open>resolve_spec\<close>. Lemmas: both operations
    refine their specification; register-then-resolve.
  \<^item> \<open>HID_Collab\<close>: what the driver exchanges with code outside the file: the
    endpoint descriptor, the arguments of one callback (\<open>xtract_call\<close>), the
    customisation points \<open>SelectInterface\<close> and \<open>POLLING_OVERRIDE\<close>
    (\<open>hid_custom\<close>), and the calls that return nothing to the driver (diagnostic
    output and the report hooks) as the datatype \<open>hid_event\<close>; every operation
    returns the list of the events it made, in order.
  \<^item> \<open>HID_Extractor\<close>: \<open>FindInterface\<close> (lines 289-295) and \<open>EndpointXtract\<close>
    (lines 297-356, in the parts \<open>new_interface\<close>, \<open>ep_role\<close>, \<open>fill_endpoint\<close>,
    \<open>next_pollInterval\<close>, \<open>bind_endpoint\<close>), and \<open>EndpointXtract_all\<close> for the
    callbacks of one walk. Invariants \<open>tables_inv\<close> (counters within the tables,
    roles within the endpoint table) and \<open>session_inv\<close> (in addition: distinct
    keys of the live interfaces, roles below the endpoint count). Lemmas: each
    branch of the callback, preservation of both invariants by a call and by a run,
    \<open>FindInterface\<close> as a search of the live entries, what extraction never writes
    (\<open>untouched\<close>).
  \<^item> \<open>HID_Transport\<close>: the interface to the transport, the address pool and the
    clock, as a record \<open>USB\<close> of operations over a state of any type: each takes
    the arguments of the call in the source and the state of the outside world and
    returns the result with the next state. Every theorem about \<open>Init\<close>, \<open>Poll\<close>,
    \<open>Release\<close> and \<open>SndRpt\<close> is stated for every such record and state, that is,
    for every sequence of answers of the transport and the device.
  \<^item> \<open>HID_SimTransport\<close>: one transport to run the driver against (\<open>sim_usb\<close>):
    a pool, a clock, a device given by its descriptors, injected result codes, and
    the trace of the calls made. It serves where a general statement is applied to
    a concrete run; it is not a model of the library's transport.
  \<^item> \<open>HID_Polling\<close>: \<open>ZeroMemory\<close> (lines 368-371) and \<open>Poll\<close> (lines 373-428)
    in the layers \<open>Poll\<close>, \<open>Poll_loop\<close>, \<open>Poll_iface\<close>, \<open>Poll_read\<close>; the deadline
    test \<open>deadline_due\<close> on 32-bit times. Lemmas: the loop refines \<open>serve\<close> on the
    bound interrupt-IN endpoints, the length and buffer handed to the hooks, the
    dispatch through the registry, the deadline across the wrap of the clock.
  \<^item> \<open>HID_Release\<close>: \<open>Release\<close> (lines 358-366) and \<open>SndRpt\<close> (lines 430-433).
  \<^item> \<open>HID_Init\<close>: \<open>Init\<close> (lines 94-287) in the stages \<open>Init\<close>,
    \<open>Init_address\<close>, \<open>Init_describe\<close>, \<open>Init_configure\<close>, with the loops
    \<open>Init_conf_loop\<close> and \<open>Init_idle_loop\<close> and the failure exit \<open>Init_fail\<close>.
    Lemmas: the scan of the configurations is a run of callbacks, so that the
    lemmas of the extractor apply to it; every stage keeps \<open>Init_contract\<close>; the
    idle requests refine \<open>idle_all\<close>; the scan terminates with its byte counter.
  \<^item> This theory: the life of an object as a transition system. \<open>hid_call\<close> are
    the public operations, \<open>step\<close> applies one to the object and the outside world,
    \<open>reach\<close> are the states reachable from a constructed object, \<open>run\<close> applies a
    list of calls. Lemmas: the invariant \<open>life_inv\<close> holds in every reachable
    state; properties that span components.

  \<^bold>\<open>Conventions.\<close> A table is a list and an index into it a number; a pointer into
  a table is the index, the null pointer \<open>None\<close>. Reading a list beyond its length
  has no specified value in HOL, as it has none in C++; \<open>shape\<close> and \<open>tables_inv\<close>
  are what makes every access of the model fall inside its table, and the theorems
  carry them as hypotheses or establish them. Local arrays that the source does not
  initialise (\<open>buf\<close> in \<open>Init\<close> and in \<open>Poll\<close>) are parameters of the operation
  (\<open>buf0\<close>), so that a result which depends on their contents shows it.

  \<^bold>\<open>Bounds.\<close> The capacities are the constants of the upstream headers
  (\<open>maxHidInterfaces = 3\<close>, \<open>maxEpPerInterface = 2\<close>, \<open>totalEndpoints = 7\<close>,
  \<open>MAX_REPORT_PARSERS = 2\<close>, \<open>HID_MAX_HID_CLASS_DESCRIPTORS = 5\<close>,
  \<open>constBuffLen = 64\<close>); the headers are not part of \<open>src/\<close>. No definition uses
  fuel: every loop is bounded by a byte, and \<open>byte_loop\<close>, the one definition
  without a termination argument, is proved to return.

  \<^bold>\<open>Not modelled.\<close> The transport, the address pool and the descriptor walker
  (\<open>Usb.cpp\<close>, \<open>address.h\<close>, \<open>confdescparser.h\<close>) are outside \<open>src/\<close>; they appear
  only as the interface \<open>USB\<close>. The walker's filtering by interface class is part
  of what delivers the callbacks. The endpoint toggles, which the transport updates
  through the pointer registered by \<open>setEpInfoEntry\<close>, are not tracked: the driver
  never reads them. The hooks \<open>ParseHIDData\<close>, \<open>Parse\<close> and \<open>OnInitSuccessful\<close>
  are recorded as events and assumed not to call back into the object. The
  notifications of the failure labels of \<open>Init\<close> and the traces exist only in
  debug builds and are left out, except the trace of \<open>Poll\<close>. \<open>RegisterDeviceClass\<close>
  in the constructor concerns the transport only. The bit-field widths of
  \<open>HIDInterface\<close> are declared in a header; its three key fields are kept as bytes.
\<close>

section \<open>The life of an object\<close>

text \<open>
  The operations a sketch or a device class may call on a constructed object, with
  their arguments (for \<open>Init\<close> and \<open>Poll\<close> also the contents of the local buffer
  on entry). \<open>step\<close> forgets the value and the events an operation returns and
  keeps the object and the outside world.
\<close>

datatype 'p hid_call =
    CallSetReportParser u8 "'p option"
  | CallInit "u8 list" u8 u8 bool
  | CallPoll "u8 list"
  | CallRelease
  | CallSndRpt u16 "u8 list"

fun step ::
  "'e USB \<Rightarrow> hid_custom \<Rightarrow> 'p hid_call \<Rightarrow> 'p HIDComposite \<times> 'e \<Rightarrow> 'p HIDComposite \<times> 'e" where
  "step U C (CallSetReportParser rid prs) (s, e) = (fst (SetReportParser s rid prs), e)"
| "step U C (CallInit buf0 parent port lowspeed) (s, e) =
     (let r = Init U C buf0 parent port lowspeed s e in (fst (snd r), fst (snd (snd r))))"
| "step U C (CallPoll buf0) (s, e) =
     (let r = Poll U buf0 s e in (fst (snd r), fst (snd (snd r))))"
| "step U C CallRelease (s, e) = (let r = Release U s e in (fst (snd r), snd (snd r)))"
| "step U C (CallSndRpt nbytes dataptr) (s, e) = (s, snd (SndRpt U s nbytes dataptr e))"

fun run ::
  "'e USB \<Rightarrow> hid_custom \<Rightarrow> 'p hid_call list \<Rightarrow> 'p HIDComposite \<times> 'e \<Rightarrow> 'p HIDComposite \<times> 'e" where
  "run U C [] se = se"
| "run U C (c # cs) se = run U C cs (step U C c se)"

inductive reach :: "'e USB \<Rightarrow> hid_custom \<Rightarrow> 'p HIDComposite \<times> 'e \<Rightarrow> bool" for U C where
  reach_ctor: "shape raw \<Longrightarrow> reach U C (HIDComposite_ctor raw, e)"
| reach_step: "reach U C se \<Longrightarrow> reach U C (step U C c se)"

text \<open>
  \<open>life_inv\<close>: what holds between any two calls: well-formed tables, a
  well-formed registry, and polling enabled only on a bound object with an endpoint
  beside the control endpoint.
\<close>

definition life_inv :: "'p HIDComposite \<Rightarrow> bool" where
  "life_inv s \<longleftrightarrow>
     tables_inv s \<and> registry_inv (rptParsers s) \<and>
     (bPollEnable s \<longrightarrow> bAddress s \<noteq> 0 \<and> 2 \<le> bNumEP s)"

text \<open>
  \<open>session1\<close>: a parser is registered, the keyboard and mouse of \<open>combo\<close> are
  enumerated, polled once, and a report is sent. \<open>second_session\<close>: the device
  of \<open>six_endpoints\<close> is enumerated and released, then a device with the single
  interface \<open>solo\<close> is attached and enumerated on the same object.
\<close>

definition session1 :: "nat hid_call list" where
  "session1 = [CallSetReportParser 1 (Some 10), CallInit stack_buf 0 1 False,
               CallPoll stale_buf, CallSndRpt 2 [0xA, 0xB]]"

definition after_session1 :: "nat HIDComposite \<times> sim" where
  "after_session1 = run sim_usb default_custom session1 (fresh_obj, attach [combo])"



section \<open>Every operation keeps the invariant\<close>

lemma life_inv_ctor: "shape raw \<Longrightarrow> life_inv (HIDComposite_ctor raw)"
  using session_invD(1) [OF session_inv_ctor, of raw]
  by (simp add: life_inv_def HIDComposite_ctor_def registry_inv_Initialize shape_def)

lemma tables_inv_rptParsers:
  "length ps = length (rptParsers s) \<Longrightarrow> tables_inv (s\<lparr>rptParsers := ps\<rparr>) = tables_inv s"
  by (simp add: tables_inv_def shape_def)

lemma SetReportParser_unfold:
  "fst (SetReportParser s rid prs)
     = s\<lparr>rptParsers := fst (SetReportParser_loop (rptParsers s) rid prs 0)\<rparr>"
  by (simp add: SetReportParser_def split: prod.splits)

lemma life_inv_SetReportParser:
  assumes "life_inv s"
  shows "life_inv (fst (SetReportParser s rid prs))"
proof -
  obtain s' ok where r: "SetReportParser s rid prs = (s', ok)" by (rule pair_cases2)
  from SetReportParser_register [OF _ r] assms have "registry_inv (rptParsers s')"
    by (simp add: life_inv_def)
  with r have "registry_inv (rptParsers (fst (SetReportParser s rid prs)))" by simp
  moreover have "tables_inv (fst (SetReportParser s rid prs))"
    using assms by (simp add: SetReportParser_unfold tables_inv_rptParsers life_inv_def)
  ultimately show ?thesis
    using assms by (simp add: life_inv_def) (simp add: SetReportParser_unfold)
qed

lemma life_inv_Init:
  assumes "life_inv s"
  shows "life_inv (fst (snd (Init U C buf0 parent port lowspeed s e)))"
proof (cases "bAddress s = 0")
  case True
  with assms have "tables_inv s" "\<not> bPollEnable s" by (auto simp: life_inv_def)
  from Init_unbound_contract [OF this True, of U C buf0 parent port lowspeed e] assms
  show ?thesis
    by (cases "fst (Init U C buf0 parent port lowspeed s e) = 0")
       (simp_all add: Init_contract_def Let_def life_inv_def)
next
  case False
  with assms show ?thesis by (simp add: Init_def)
qed

lemma life_inv_Poll:
  assumes "life_inv s"
  shows "life_inv (fst (snd (Poll U buf0 s e)))"
  using assms by (cases rule: Poll_cases [of s U buf0 e]) (simp_all add: life_inv_def)

lemma life_inv_Release:
  assumes "life_inv s"
  shows "life_inv (fst (snd (Release U s e)))"
  using assms by (simp add: life_inv_def tables_inv_bNumEP_1)

lemma life_inv_step:
  assumes "life_inv (fst se)"
  shows "life_inv (fst (step U C c se))"
  using assms
  by (cases se; cases c)
     (simp_all add: Let_def life_inv_SetReportParser life_inv_Init life_inv_Poll life_inv_Release
        del: Release_result)

lemma reach_life_inv: "reach U C se \<Longrightarrow> life_inv (fst se)"
  by (induction rule: reach.induct) (simp_all add: life_inv_ctor life_inv_step)

lemma reach_run: "reach U C se \<Longrightarrow> reach U C (run U C cs se)"
  by (induction cs arbitrary: se) (simp_all add: reach_step)

lemma reach_after_session1: "reach sim_usb default_custom after_session1"
  unfolding after_session1_def fresh_obj_def
  by (intro reach_run reach_ctor) simp


section \<open>Properties\<close>

text \<open>
  C5. In every state an object can reach from its construction by calls of
  \<open>SetReportParser\<close>, \<open>Init\<close>, \<open>Poll\<close>, \<open>Release\<close> and \<open>SndRpt\<close>, in any
  order and against any transport, the tables and the registry are well formed, and
  polling is enabled only while the object holds an address and has an endpoint
  beside the control endpoint.
\<close>

theorem reachable_life_inv:
  assumes "reach U C (s, e)"
  shows "tables_inv s \<and> registry_inv (rptParsers s) \<and>
         (bPollEnable s \<longrightarrow> bAddress s \<noteq> 0 \<and> 2 \<le> bNumEP s)"
  using reach_life_inv [OF assms] by (simp add: life_inv_def)

theorem reachable_life_inv_witness:
  "reach sim_usb default_custom after_session1 \<and> bPollEnable (fst after_session1) \<and>
   bAddress (fst after_session1) = 1 \<and> 2 \<le> bNumEP (fst after_session1) \<and>
   tables_inv (fst after_session1)"
proof -
  have "bPollEnable (fst after_session1)" "bAddress (fst after_session1) = 1" by code_simp+
  with reachable_life_inv [of sim_usb default_custom "fst after_session1" "snd after_session1"]
    reach_after_session1
  show ?thesis by simp
qed







end
